(* ===== verification/Runner_Prelude.thy ===== *)
theory Runner_Prelude
  imports Main "HOL-Library.Word" "HOL-Library.Sublist"
begin

text \<open>
  The vocabulary shared by every component of the runner: errors and fallible results, the
  rules that unfold and invert them, Rust's machine integers with checked and saturating
  arithmetic, decimal formatting, and the collections of facts the component proofs use.
  Strings, paths and floating point numbers have theories of their own.
\<close>

section \<open>Collections of facts\<close>

named_theorems result_simps \<open>unfolding rules for fallible computations\<close>
named_theorems string_defs \<open>definitions of the string operations\<close>

section \<open>Errors and results\<close>

text \<open>
  \<^verbatim>\<open>anyhow::Error\<close>: a message, a context put in front of another error, or the typed
  \<^verbatim>\<open>DockerFailure\<close> that the daemon recovers with \<^verbatim>\<open>downcast_ref\<close>.
\<close>

record docker_failure =
  df_code :: string
  df_phase :: string
  df_message :: string
  df_retryable :: bool

datatype error =
    Bail string
  | Context string error
  | DockerFailure docker_failure

type_synonym 'a result = "error + 'a"

text \<open>\<^verbatim>\<open>Display\<close> of an \<^verbatim>\<open>anyhow::Error\<close> prints the outermost layer only.\<close>

fun error_to_string :: "error \<Rightarrow> string" where
  "error_to_string (Bail m) = m"
| "error_to_string (Context c e) = c"
| "error_to_string (DockerFailure f) =
     ''Docker '' @ df_code f @ '' during '' @ df_phase f @ '': '' @ df_message f"

fun downcast_docker :: "error \<Rightarrow> docker_failure option" where
  "downcast_docker (Bail m) = None"
| "downcast_docker (Context c e) = downcast_docker e"
| "downcast_docker (DockerFailure f) = Some f"

definition is_ok :: "'a result \<Rightarrow> bool" where
  "is_ok r = (case r of Inl e \<Rightarrow> False | Inr x \<Rightarrow> True)"

text \<open>The question-mark operator, and an early \<^verbatim>\<open>bail!\<close> guarded by a condition.\<close>

definition bind_result :: "'a result \<Rightarrow> ('a \<Rightarrow> 'b result) \<Rightarrow> 'b result" where
  "bind_result r k = (case r of Inl e \<Rightarrow> Inl e | Inr x \<Rightarrow> k x)"

definition bail_if :: "bool \<Rightarrow> string \<Rightarrow> 'a result \<Rightarrow> 'a result" where
  "bail_if c m k = (if c then Inl (Bail m) else k)"

definition ok_or :: "'a option \<Rightarrow> error \<Rightarrow> 'a result" where
  "ok_or x e = (case x of None \<Rightarrow> Inl e | Some y \<Rightarrow> Inr y)"

definition with_context :: "string \<Rightarrow> 'a result \<Rightarrow> 'a result" where
  "with_context c r = (case r of Inl e \<Rightarrow> Inl (Context c e) | Inr x \<Rightarrow> Inr x)"

text \<open>A loop whose body may return early with an error and that computes nothing else.\<close>

fun for_each :: "'a list \<Rightarrow> ('a \<Rightarrow> unit result) \<Rightarrow> unit result" where
  "for_each [] f = Inr ()"
| "for_each (x # xs) f = bind_result (f x) (\<lambda>u. for_each xs f)"

lemma is_ok_simps [simp]: "is_ok (Inr x)" "\<not> is_ok (Inl e)"
  by (simp_all add: is_ok_def)

lemma is_ok_iff: "is_ok r \<longleftrightarrow> (\<exists>x. r = Inr x)"
  by (cases r) simp_all

lemma bind_result_simps [simp]:
  "bind_result (Inr x) k = k x"
  "bind_result (Inl e) k = Inl e"
  by (simp_all add: bind_result_def)

lemma bind_result_ok [simp]:
  "bind_result r k = Inr y \<longleftrightarrow> (\<exists>x. r = Inr x \<and> k x = Inr y)"
  by (cases r) simp_all

lemma bail_if_ok [simp]: "bail_if c m k = Inr y \<longleftrightarrow> \<not> c \<and> k = Inr y"
  by (simp add: bail_if_def)

lemma is_ok_bail_if [simp]: "is_ok (bail_if c m k) \<longleftrightarrow> \<not> c \<and> is_ok k"
  by (simp add: bail_if_def)

lemma is_ok_bind [simp]: "is_ok (bind_result r k) \<longleftrightarrow> (\<exists>x. r = Inr x \<and> is_ok (k x))"
  by (cases r) simp_all

lemma ok_or_ok [simp]: "ok_or x e = Inr y \<longleftrightarrow> x = Some y"
  by (cases x) (simp_all add: ok_or_def)

lemma with_context_ok [simp]: "with_context c r = Inr y \<longleftrightarrow> r = Inr y"
  by (cases r) (simp_all add: with_context_def)

lemma for_each_ok: "for_each xs f = Inr u \<longleftrightarrow> (\<forall>x\<in>set xs. is_ok (f x))"
  by (induction xs) (auto simp: is_ok_iff)

lemma unit_result_ok: "(r :: unit result) = Inr () \<longleftrightarrow> is_ok r"
  by (cases r) simp_all

section \<open>Fallible operations on a state\<close>

text \<open>
  An operation that reads and writes a state and may return early with an error; the state
  it leaves behind is returned in either case, since an early return undoes nothing.
\<close>

type_synonym ('s, 'a) op = "'s \<Rightarrow> 'a result \<times> 's"

definition ret :: "'a \<Rightarrow> ('s, 'a) op" where
  "ret x s = (Inr x, s)"

definition fail :: "error \<Rightarrow> ('s, 'a) op" where
  "fail e s = (Inl e, s)"

definition and_then :: "('s, 'a) op \<Rightarrow> ('a \<Rightarrow> ('s, 'b) op) \<Rightarrow> ('s, 'b) op" where
  "and_then m k s = (case m s of (Inl e, s') \<Rightarrow> (Inl e, s') | (Inr x, s') \<Rightarrow> k x s')"

text \<open>A computed result used inside an operation, and \<^verbatim>\<open>let _ = operation\<close>.\<close>

definition lift :: "'a result \<Rightarrow> ('s, 'a) op" where
  "lift r s = (r, s)"

definition ignore :: "('s, 'a) op \<Rightarrow> ('s, unit) op" where
  "ignore m s = (Inr (), snd (m s))"

text \<open>\<^verbatim>\<open>match operation { Ok(x) => ..., Err(error) => ... }\<close>\<close>

definition match_op ::
  "('s, 'a) op \<Rightarrow> ('a \<Rightarrow> ('s, 'b) op) \<Rightarrow> (error \<Rightarrow> ('s, 'b) op) \<Rightarrow> ('s, 'b) op" where
  "match_op m k h s = (case m s of (Inl e, s') \<Rightarrow> h e s' | (Inr x, s') \<Rightarrow> k x s')"

lemmas op_defs [result_simps] = ret_def fail_def lift_def ignore_def match_op_def

lemma and_then_ok:
  "and_then m k s = (Inr y, t) \<longleftrightarrow> (\<exists>x u. m s = (Inr x, u) \<and> k x u = (Inr y, t))"
  by (auto simp: and_then_def split: prod.splits sum.splits)

lemma and_then_fst: "fst (m s) = Inr x \<Longrightarrow> and_then m k s = k x (snd (m s))"
  by (cases "m s") (simp add: and_then_def)

lemma and_then_okE:
  assumes "and_then m k s = (Inr y, t)"
  obtains x u where "m s = (Inr x, u)" and "k x u = (Inr y, t)"
  using assms by (auto simp: and_then_ok)

lemma and_then_err:
  "and_then m k s = (Inl e, t) \<longleftrightarrow>
     m s = (Inl e, t) \<or> (\<exists>x u. m s = (Inr x, u) \<and> k x u = (Inl e, t))"
  by (auto simp: and_then_def split: prod.splits sum.splits)

section \<open>Lists\<close>

lemma subseq_set: "subseq xs ys \<Longrightarrow> set xs \<subseteq> set ys"
  by (induction rule: list_emb.induct) auto

section \<open>Machine integers\<close>

type_synonym u32 = "32 word"
type_synonym u64 = "64 word"

definition checked_add :: "'a::len word \<Rightarrow> 'a word \<Rightarrow> 'a word option" where
  "checked_add a b = (if unat a + unat b < 2 ^ LENGTH('a) then Some (a + b) else None)"

definition saturating_add :: "'a::len word \<Rightarrow> 'a word \<Rightarrow> 'a word" where
  "saturating_add a b = (if unat a + unat b < 2 ^ LENGTH('a) then a + b else - 1)"

text \<open>An \<^verbatim>\<open>i64\<close> is an \<^typ>\<open>int\<close>; arithmetic that can leave the range wraps explicitly.\<close>

definition i64_wrap :: "int \<Rightarrow> int" where
  "i64_wrap x = (x + 2 ^ 63) mod 2 ^ 64 - 2 ^ 63"

lemma unat_of_nat_small:
  "m < 2 ^ LENGTH('a) \<Longrightarrow> unat (of_nat m :: 'a::len word) = m"
  by (simp add: unsigned_of_nat take_bit_nat_eq_self)

lemma unat_minus_one: "unat (- 1 :: 'a::len word) + 1 = 2 ^ LENGTH('a)"
  by (simp add: unsigned_minus_1_eq_mask mask_eq_exp_minus_1)

lemma unat_Suc_bound:
  fixes n :: "'a::len word"
  assumes "n \<noteq> - 1"
  shows "unat n + 1 < 2 ^ LENGTH('a)"
proof (rule ccontr)
  assume "\<not> unat n + 1 < 2 ^ LENGTH('a)"
  moreover have "unat n < 2 ^ LENGTH('a)" by (rule unsigned_less)
  ultimately have "unat n = unat (- 1 :: 'a word)"
    using unat_minus_one [where 'a = 'a] by linarith
  with assms show False by (simp only: word_unat_eq_iff)
qed

lemma checked_add_Some:
  "checked_add a b = Some c \<Longrightarrow> unat c = unat a + unat b"
  by (auto simp: checked_add_def unat_word_ariths split: if_splits)

lemma unat_saturating_add:
  fixes a :: "'a::len word"
  shows "unat (saturating_add a b) = min (unat a + unat b) (2 ^ LENGTH('a) - 1)"
  by (auto simp: saturating_add_def unat_word_ariths unsigned_minus_1_eq_mask mask_eq_exp_minus_1)

lemma i64_wrap_id: "- (2 ^ 63) \<le> x \<Longrightarrow> x < 2 ^ 63 \<Longrightarrow> i64_wrap x = x"
  by (simp add: i64_wrap_def)

lemma i64_wrap_range: "- (2 ^ 63) \<le> i64_wrap x \<and> i64_wrap x < 2 ^ 63"
proof -
  have "0 \<le> (x + 2 ^ 63) mod 2 ^ 64" and "(x + 2 ^ 63) mod 2 ^ 64 < (2 ^ 64 :: int)"
    by simp_all
  then show ?thesis by (simp add: i64_wrap_def)
qed

end
