(* ===== verification/Rust_String.thy ===== *)
theory Rust_String
  imports Runner_Prelude
begin

text \<open>
  The operations of \<^verbatim>\<open>std::str\<close> and \<^verbatim>\<open>std::string\<close> that the runner calls, on UTF-8 byte
  strings: code points, white space, trimming, lines, splitting, replacing, the lossy UTF-8
  decoder and decimal numbers, with the laws the components rely on. The central facts are
  the locale \<open>marker\<close> (replacing a secret by a delimited marker really removes it) and the
  injectivity of decimal formatting behind a separator.
\<close>

section \<open>Code points and white space\<close>

text \<open>A continuation byte is \<^verbatim>\<open>10xxxxxx\<close>, an ASCII byte has its top bit clear.\<close>

definition is_continuation :: "char \<Rightarrow> bool" where
  "is_continuation c = (digit7 c \<and> \<not> digit6 c)"

function rust_chars :: "string \<Rightarrow> string list" where
  "rust_chars [] = []"
| "rust_chars (c # s) =
     (c # takeWhile is_continuation s) # rust_chars (dropWhile is_continuation s)"
  by pat_completeness auto
termination
  by (relation "measure length") (auto simp: le_imp_less_Suc length_dropWhile_le)

text \<open>\<^verbatim>\<open>char::is_whitespace\<close>: the code points with the Unicode property \<^verbatim>\<open>White_Space\<close>.\<close>

definition whitespace_chars :: "string list" where
  "whitespace_chars =
     [[CHR 0x09],
      [CHR 0x0A],
      [CHR 0x0B],
      [CHR 0x0C],
      [CHR 0x0D],
      [CHR 0x20],
      [CHR 0xC2, CHR 0x85],
      [CHR 0xC2, CHR 0xA0],
      [CHR 0xE1, CHR 0x9A, CHR 0x80],
      [CHR 0xE2, CHR 0x80, CHR 0x80],
      [CHR 0xE2, CHR 0x80, CHR 0x81],
      [CHR 0xE2, CHR 0x80, CHR 0x82],
      [CHR 0xE2, CHR 0x80, CHR 0x83],
      [CHR 0xE2, CHR 0x80, CHR 0x84],
      [CHR 0xE2, CHR 0x80, CHR 0x85],
      [CHR 0xE2, CHR 0x80, CHR 0x86],
      [CHR 0xE2, CHR 0x80, CHR 0x87],
      [CHR 0xE2, CHR 0x80, CHR 0x88],
      [CHR 0xE2, CHR 0x80, CHR 0x89],
      [CHR 0xE2, CHR 0x80, CHR 0x8A],
      [CHR 0xE2, CHR 0x80, CHR 0xA8],
      [CHR 0xE2, CHR 0x80, CHR 0xA9],
      [CHR 0xE2, CHR 0x80, CHR 0xAF],
      [CHR 0xE2, CHR 0x81, CHR 0x9F],
      [CHR 0xE3, CHR 0x80, CHR 0x80]]"

definition is_whitespace :: "string \<Rightarrow> bool" where
  "is_whitespace g = (g \<in> set whitespace_chars)"

definition has_whitespace :: "string \<Rightarrow> bool" where
  "has_whitespace s = list_ex is_whitespace (rust_chars s)"

definition trim :: "string \<Rightarrow> string" where
  "trim s = concat (rev (dropWhile is_whitespace (rev (dropWhile is_whitespace (rust_chars s)))))"

definition take_chars :: "nat \<Rightarrow> string \<Rightarrow> string" where
  "take_chars n s = concat (take n (rust_chars s))"

definition is_ascii_alphanumeric :: "char \<Rightarrow> bool" where
  "is_ascii_alphanumeric c =
     (c \<in> set ''0123456789ABCDEFGHIJKLMNOPQRSTUVWXYZabcdefghijklmnopqrstuvwxyz'')"

text \<open>An upper-case ASCII letter becomes lower case by setting bit 5.\<close>

definition lower_char :: "char \<Rightarrow> char" where
  "lower_char c =
     (if c \<in> set ''ABCDEFGHIJKLMNOPQRSTUVWXYZ''
      then Char (digit0 c) (digit1 c) (digit2 c) (digit3 c) (digit4 c) True (digit6 c) (digit7 c)
      else c)"

definition to_ascii_lowercase :: "string \<Rightarrow> string" where
  "to_ascii_lowercase s = map lower_char s"

lemma concat_rust_chars [simp]: "concat (rust_chars s) = s"
  by (induction s rule: rust_chars.induct) simp_all

lemma rust_chars_nonempty: "g \<in> set (rust_chars s) \<Longrightarrow> g \<noteq> []"
  by (induction s rule: rust_chars.induct) auto

lemma trim_Nil [simp]: "trim [] = []"
  by (simp add: trim_def)

lemma dropWhile_all_iff: "(\<forall>x\<in>set (dropWhile P xs). P x) \<longleftrightarrow> (\<forall>x\<in>set xs. P x)"
  by (induction xs) auto

lemma concat_nonempty: "(\<forall>g\<in>set xs. g \<noteq> []) \<Longrightarrow> concat xs = [] \<longleftrightarrow> xs = []"
  by (cases xs) auto

lemma trim_empty_iff: "trim s = [] \<longleftrightarrow> list_all is_whitespace (rust_chars s)"
proof -
  let ?x = "dropWhile is_whitespace (rust_chars s)"
  let ?d = "rev (dropWhile is_whitespace (rev ?x))"
  have "\<forall>g\<in>set ?d. g \<noteq> []"
    by (auto dest!: set_dropWhileD rust_chars_nonempty)
  then have "concat ?d = [] \<longleftrightarrow> ?d = []"
    by (rule concat_nonempty)
  also have "\<dots> \<longleftrightarrow> (\<forall>x\<in>set ?x. is_whitespace x)"
    by (simp add: dropWhile_eq_Nil_conv)
  also have "\<dots> \<longleftrightarrow> list_all is_whitespace (rust_chars s)"
    by (simp add: dropWhile_all_iff list_all_iff)
  finally show ?thesis by (simp add: trim_def)
qed

lemma dropWhile_suffix: "\<exists>pre. xs = pre @ dropWhile P xs"
  by (metis takeWhile_dropWhile_id)

lemma trim_sublist: "sublist (trim s) s"
proof -
  let ?x = "dropWhile is_whitespace (rust_chars s)"
  obtain pre where pre: "rust_chars s = pre @ ?x" using dropWhile_suffix by blast
  obtain post where "rev ?x = post @ dropWhile is_whitespace (rev ?x)" using dropWhile_suffix by blast
  then have "?x = rev (dropWhile is_whitespace (rev ?x)) @ rev post" by (metis rev_append rev_rev_ident)
  with pre have "rust_chars s = pre @ rev (dropWhile is_whitespace (rev ?x)) @ rev post" by metis
  then have "s = concat pre @ trim s @ concat (rev post)"
    unfolding trim_def by (metis concat_append concat_rust_chars)
  then show ?thesis by (metis sublist_appendI)
qed

lemma take_chars_prefix: "prefix (take_chars n s) s"
proof -
  have "s = concat (take n (rust_chars s)) @ concat (drop n (rust_chars s))"
    by (metis append_take_drop_id concat_append concat_rust_chars)
  then show ?thesis
    unfolding take_chars_def by (metis prefixI)
qed

lemma takeWhile_dropWhile_append:
  assumes "\<forall>x\<in>set t. P x" and "r = [] \<or> \<not> P (hd r)"
  shows "takeWhile P (t @ r) = t \<and> dropWhile P (t @ r) = r"
  using assms by (induction t) (cases r; simp)+

lemma hd_concat_take:
  "concat (take m (rust_chars d)) = [] \<or> d \<noteq> [] \<and> hd (concat (take m (rust_chars d))) = hd d"
  by (cases d; cases m) auto

lemma rust_chars_take: "rust_chars (concat (take n (rust_chars s))) = take n (rust_chars s)"
proof (induction s arbitrary: n rule: rust_chars.induct)
  case (2 c s)
  show ?case
  proof (cases n)
    case (Suc m)
    let ?t = "takeWhile is_continuation s" and ?d = "dropWhile is_continuation s"
    let ?r = "concat (take m (rust_chars ?d))"
    have "?r = [] \<or> \<not> is_continuation (hd ?r)"
      using hd_concat_take [of m ?d] hd_dropWhile [of is_continuation s] by metis
    then have "takeWhile is_continuation (?t @ ?r) = ?t \<and> dropWhile is_continuation (?t @ ?r) = ?r"
      by (intro takeWhile_dropWhile_append) (auto dest: set_takeWhileD)
    with Suc 2 show ?thesis by simp
  qed simp
qed simp

lemma length_take_chars: "length (rust_chars (take_chars n s)) \<le> n"
  by (simp add: take_chars_def rust_chars_take)

lemma take_chars_nonempty: "s \<noteq> [] \<Longrightarrow> 0 < n \<Longrightarrow> take_chars n s \<noteq> []"
  by (cases s; cases n) (auto simp: take_chars_def)

section \<open>Searching, splitting, lines\<close>

abbreviation contains_str :: "string \<Rightarrow> string \<Rightarrow> bool" where
  "contains_str s p \<equiv> sublist p s"

abbreviation starts_with :: "string \<Rightarrow> string \<Rightarrow> bool" where
  "starts_with s p \<equiv> prefix p s"

abbreviation ends_with :: "string \<Rightarrow> string \<Rightarrow> bool" where
  "ends_with s p \<equiv> suffix p s"

definition strip_prefix :: "string \<Rightarrow> string \<Rightarrow> string option" where
  "strip_prefix s p = (if starts_with s p then Some (drop (length p) s) else None)"

fun split_on :: "char \<Rightarrow> string \<Rightarrow> string list" where
  "split_on c [] = [[]]"
| "split_on c (x # xs) =
     (if x = c then [] # split_on c xs
      else case split_on c xs of [] \<Rightarrow> [[x]] | g # gs \<Rightarrow> (x # g) # gs)"

text \<open>\<^verbatim>\<open>str::lines\<close>: a final line without a line feed keeps a trailing carriage return.\<close>

definition strip_cr :: "string \<Rightarrow> string" where
  "strip_cr l = (if ends_with l [CHR 0x0D] then butlast l else l)"

definition lines :: "string \<Rightarrow> string list" where
  "lines s = (let ps = split_on (CHR 0x0A) s in
     map strip_cr (butlast ps) @ (if last ps = [] then [] else [last ps]))"

fun trim_start_matches :: "string \<Rightarrow> nat \<Rightarrow> string \<Rightarrow> string" where
  "trim_start_matches p 0 s = s"
| "trim_start_matches p (Suc n) s =
     (case strip_prefix s p of None \<Rightarrow> s | Some r \<Rightarrow> trim_start_matches p n r)"

lemma strip_prefix_Some [simp]: "strip_prefix s p = Some r \<longleftrightarrow> s = p @ r"
  by (auto simp: strip_prefix_def prefix_def)

lemma strip_prefix_None: "strip_prefix s p = None \<longleftrightarrow> \<not> starts_with s p"
  by (simp add: strip_prefix_def)

lemma find_Some_split:
  "List.find P xs = Some x \<longleftrightarrow> (\<exists>a b. xs = a @ x # b \<and> P x \<and> list_all (\<lambda>y. \<not> P y) a)"
proof
  assume "List.find P xs = Some x"
  then show "\<exists>a b. xs = a @ x # b \<and> P x \<and> list_all (\<lambda>y. \<not> P y) a"
  proof (induction xs)
    case (Cons y ys)
    show ?case
    proof (cases "P y")
      case True
      with Cons.prems show ?thesis by (intro exI [of _ "[]"] exI [of _ ys]) simp
    next
      case False
      with Cons obtain a b where "ys = a @ x # b" "P x" "list_all (\<lambda>y. \<not> P y) a" by auto
      with False show ?thesis by (intro exI [of _ "y # a"] exI [of _ b]) simp
    qed
  qed simp
next
  have "P x \<Longrightarrow> list_all (\<lambda>y. \<not> P y) a \<Longrightarrow> List.find P (a @ x # b) = Some x" for a b
    by (induction a) simp_all
  then show "\<exists>a b. xs = a @ x # b \<and> P x \<and> list_all (\<lambda>y. \<not> P y) a \<Longrightarrow> List.find P xs = Some x"
    by blast
qed

lemma find_last_split:
  "List.find P (rev xs) = Some x \<longleftrightarrow> (\<exists>a b. xs = a @ x # b \<and> P x \<and> list_all (\<lambda>y. \<not> P y) b)"
  unfolding find_Some_split rev_eq_append_conv
  by (metis list_all_rev append.assoc append_Cons append_Nil rev.simps(2) rev_append rev_rev_ident)

lemma split_on_nonempty [simp]: "split_on c s \<noteq> []"
  by (induction s) (simp_all split: list.splits)

lemma split_on_no_sep: "g \<in> set (split_on c s) \<Longrightarrow> c \<notin> set g"
  by (induction s arbitrary: g) (auto split: if_splits list.splits)

lemma split_on_no_char: "c \<notin> set s \<Longrightarrow> split_on c s = [s]"
  by (induction s) auto

lemma split_on_append_sep:
  "c \<notin> set xs \<Longrightarrow> split_on c (xs @ c # ys) = xs # split_on c ys"
  by (induction xs) auto

section \<open>Replacing\<close>

text \<open>
  \<^verbatim>\<open>str::replace\<close> scans from the left and does not look at what it wrote. Both callers
  guard against an empty pattern, which is left alone here.
\<close>

function replace_all :: "string \<Rightarrow> string \<Rightarrow> string \<Rightarrow> string" where
  "replace_all [] p r = []"
| "replace_all (c # s) p r =
     (if p \<noteq> [] \<and> starts_with (c # s) p
      then r @ replace_all (drop (length p - 1) s) p r
      else c # replace_all s p r)"
  by pat_completeness auto
termination
  by (relation "measure (\<lambda>(s, p, r). length s)") auto

fun replace_first :: "string \<Rightarrow> string \<Rightarrow> string \<Rightarrow> string" where
  "replace_first [] p r = []"
| "replace_first (c # s) p r =
     (if starts_with (c # s) p then r @ drop (length p) (c # s)
      else c # replace_first s p r)"

lemma drop_length_Cons: "p \<noteq> [] \<Longrightarrow> drop (length p) (c # s) = drop (length p - 1) s"
  by (cases p) simp_all

lemma replace_all_absent: "\<not> contains_str s p \<Longrightarrow> replace_all s p r = s"
  by (induction s p r rule: replace_all.induct) (auto simp: sublist_Cons_right)

text \<open>
  A marker is a text between two characters; a word that has neither of them and is no part
  of the text between them can occur in a string with the marker only left or right of it.
\<close>

locale marker =
  fixes lo :: char and mid :: string and hi :: char and mark :: string
  assumes mark_eq: "mark = lo # mid @ [hi]"
begin

definition evades :: "string \<Rightarrow> bool" where
  "evades q \<longleftrightarrow> q \<noteq> [] \<and> lo \<notin> set q \<and> hi \<notin> set q \<and> \<not> contains_str mid q"

lemma sublist_sep:
  assumes "c \<notin> set q"
  shows "sublist q (xs @ c # ys) \<longleftrightarrow> sublist q xs \<or> sublist q ys"
proof
  assume "sublist q (xs @ c # ys)"
  then consider "sublist q xs" | "sublist q (c # ys)"
    | q1 q2 where "q = q1 @ q2" "suffix q1 xs" "prefix q2 (c # ys)"
    by (auto simp: sublist_append)
  then show "sublist q xs \<or> sublist q ys"
  proof cases
    case 2
    with assms show ?thesis
      by (cases q) (auto simp: sublist_Cons_right prefix_Cons)
  next
    case 3
    with assms have "q2 = []" by (cases q2) auto
    with 3 show ?thesis by (auto simp: suffix_imp_sublist)
  qed simp
next
  assume "sublist q xs \<or> sublist q ys"
  then show "sublist q (xs @ c # ys)"
    by (auto simp: sublist_append sublist_Cons_right)
qed

lemma sublist_around_mark:
  assumes "evades q"
  shows "sublist q (xs @ mark @ ys) \<longleftrightarrow> sublist q xs \<or> sublist q ys"
proof -
  from assms have lo: "lo \<notin> set q" and hi: "hi \<notin> set q" and mid: "\<not> sublist q mid"
    by (auto simp: evades_def)
  have "sublist q (xs @ lo # (mid @ hi # ys)) \<longleftrightarrow> sublist q xs \<or> sublist q (mid @ hi # ys)"
    by (rule sublist_sep [OF lo])
  also have "sublist q (mid @ hi # ys) \<longleftrightarrow> sublist q mid \<or> sublist q ys"
    by (rule sublist_sep [OF hi])
  finally show ?thesis using mid by (simp add: mark_eq)
qed

lemma replace_all_keeps_absent:
  assumes "evades q" and "r = mark" and "\<not> sublist q (pre @ s)"
  shows "\<not> sublist q (pre @ replace_all s p r)"
  using assms
proof (induction s p r arbitrary: pre rule: replace_all.induct)
  case (2 c s p r)
  show ?case
  proof (cases "p \<noteq> [] \<and> starts_with (c # s) p")
    case True
    let ?t = "drop (length p - 1) s"
    have "sublist ?t (pre @ c # s)"
      using suffix_drop [of "length p - 1" s]
      by (intro suffix_imp_sublist) (simp add: suffix_ConsI suffix_appendI)
    moreover have "sublist pre (pre @ c # s)"
      by simp
    ultimately have t: "\<not> sublist q ([] @ ?t)" and pre: "\<not> sublist q pre"
      using "2.prems"(3) sublist_order.order.trans by (metis append_Nil, metis)
    from "2.IH"(1) [OF True "2.prems"(1,2) t] have "\<not> sublist q (replace_all ?t p r)"
      by simp
    with True pre "2.prems"(1,2) show ?thesis
      by (simp add: sublist_around_mark)
  next
    case False
    from "2.IH"(2) [OF False "2.prems"(1,2), of "pre @ [c]"] False "2.prems"(3) show ?thesis
      by (simp add: if_not_P)
  qed
qed simp

text \<open>No occurrence of the pattern starts in the part that has been copied.\<close>

lemma replace_all_removes_aux:
  assumes "evades p" and "r = mark"
    and "\<And>u v. pre = u @ v \<Longrightarrow> v \<noteq> [] \<Longrightarrow> \<not> prefix p (v @ s)"
  shows "\<not> sublist p (pre @ replace_all s p r)"
  using assms
proof (induction s p r arbitrary: pre rule: replace_all.induct)
  case (1 p r)
  have "\<not> sublist p pre"
  proof
    assume "sublist p pre"
    then obtain a b where "pre = a @ (p @ b)" by (auto simp: sublist_def)
    with "1.prems"(1) show False
      using "1.prems"(3) [of a "p @ b"] by (auto simp: evades_def)
  qed
  then show ?case by simp
next
  case (2 c s p r)
  show ?case
  proof (cases "starts_with (c # s) p")
    case True
    have p: "p \<noteq> []" using "2.prems"(1) by (simp add: evades_def)
    let ?t = "drop (length p - 1) s"
    have "\<not> sublist p pre"
    proof
      assume "sublist p pre"
      then obtain a b where "pre = a @ (p @ b)" by (auto simp: sublist_def)
      with p show False using "2.prems"(3) [of a "p @ b"] by auto
    qed
    moreover have "\<not> sublist p ([] @ replace_all ?t p r)"
      using "2.IH"(1) [of "[]"] True p "2.prems"(1,2) by simp
    ultimately show ?thesis
      using True p "2.prems"(1,2) by (simp add: sublist_around_mark)
  next
    case False
    have "\<not> prefix p (v @ s)" if eq: "pre @ [c] = u @ v" and v: "v \<noteq> []" for u v
    proof -
      from eq v obtain w where w: "v = w @ [c]" "pre = u @ w"
        by (cases v rule: rev_cases) auto
      show ?thesis
        using w False "2.prems"(3) [of u w] by (cases "w = []") auto
    qed
    from "2.IH"(2) [of "pre @ [c]", OF _ "2.prems"(1,2) this] False show ?thesis
      by simp
  qed
qed

lemma replace_all_removes: "evades p \<Longrightarrow> \<not> sublist p (replace_all s p mark)"
  using replace_all_removes_aux [of p mark "[]" s] by simp

end

section \<open>Lossy UTF-8 decoding\<close>

text \<open>
  \<^verbatim>\<open>String::from_utf8_lossy\<close>: \<open>utf8_step\<close> reads one chunk after a leading byte and says
  whether it is a well-formed code point and how many bytes follow the leading one; a
  malformed chunk (the maximal subpart) becomes U+FFFD.
\<close>

definition utf8_second :: "nat \<Rightarrow> char \<Rightarrow> bool" where
  "utf8_second b c = (let n = (of_char c :: nat) in
     if b = 224 then 160 \<le> n \<and> n \<le> 191
     else if b = 237 then 128 \<le> n \<and> n \<le> 159
     else if b = 240 then 144 \<le> n \<and> n \<le> 191
     else if b = 244 then 128 \<le> n \<and> n \<le> 143
     else 128 \<le> n \<and> n \<le> 191)"

fun utf8_tail :: "nat \<Rightarrow> nat \<Rightarrow> string \<Rightarrow> bool \<times> nat" where
  "utf8_tail 0 k s = (True, k)"
| "utf8_tail (Suc m) k [] = (False, k)"
| "utf8_tail (Suc m) k (c # s) =
     (if is_continuation c then utf8_tail m (Suc k) s else (False, k))"

definition utf8_step :: "char \<Rightarrow> string \<Rightarrow> bool \<times> nat" where
  "utf8_step b s = (let n = (of_char b :: nat) in
     if \<not> digit7 b then (True, 0)
     else if 194 \<le> n \<and> n \<le> 223 then utf8_tail 1 0 s
     else if 224 \<le> n \<and> n \<le> 244 then
       (case s of [] \<Rightarrow> (False, 0)
        | c # t \<Rightarrow> if utf8_second n c then utf8_tail (if n \<le> 239 then 1 else 2) 1 t else (False, 0))
     else (False, 0))"

function from_utf8_lossy :: "string \<Rightarrow> string" where
  "from_utf8_lossy [] = []"
| "from_utf8_lossy (b # s) = (let (valid, k) = utf8_step b s in
     (if valid then b # take k s else [CHR 0xEF, CHR 0xBF, CHR 0xBD]) @ from_utf8_lossy (drop k s))"
  by pat_completeness auto
termination
  by (relation "measure length") auto

definition is_ascii :: "string \<Rightarrow> bool" where
  "is_ascii s = list_all (\<lambda>c. \<not> digit7 c) s"

lemma from_utf8_lossy_ascii: "is_ascii s \<Longrightarrow> from_utf8_lossy s = s"
  by (induction s) (auto simp: is_ascii_def utf8_step_def)

section \<open>Decimal numbers\<close>

definition digit :: "nat \<Rightarrow> char" where
  "digit d = char_of (48 + d)"

fun show_nat :: "nat \<Rightarrow> string" where
  "show_nat n = (if n < 10 then [digit n] else show_nat (n div 10) @ [digit (n mod 10)])"

declare show_nat.simps [simp del]

definition show_int :: "int \<Rightarrow> string" where
  "show_int i = (if i < 0 then CHR ''-'' # show_nat (nat (- i)) else show_nat (nat i))"

definition read_nat :: "string \<Rightarrow> nat" where
  "read_nat s = foldl (\<lambda>a c. 10 * a + (of_char c - 48)) 0 s"

lemma of_char_digit: "d < 10 \<Longrightarrow> (of_char (digit d) :: nat) = 48 + d"
  by (simp add: digit_def)

lemma read_show_nat: "read_nat (show_nat n) = n"
proof (induction n rule: show_nat.induct)
  case (1 n)
  show ?case
  proof (cases "n < 10")
    case True
    then show ?thesis
      by (simp add: show_nat.simps [of n] read_nat_def of_char_digit)
  next
    case False
    have "read_nat (show_nat n) = 10 * read_nat (show_nat (n div 10)) + n mod 10"
      using False by (simp add: show_nat.simps [of n] read_nat_def of_char_digit)
    with 1 False show ?thesis by simp
  qed
qed

lemma show_nat_inj [simp]: "show_nat m = show_nat n \<longleftrightarrow> m = n"
  by (metis read_show_nat)

lemma show_nat_digits: "c \<in> set (show_nat n) \<Longrightarrow> \<exists>d < 10. c = digit d"
proof (induction n rule: show_nat.induct)
  case (1 n)
  then show ?case
    by (cases "n < 10") (auto simp: show_nat.simps [of n] intro: exI [of _ "n mod 10"])
qed

lemma show_nat_not: "(of_char c :: nat) < 48 \<or> 57 < (of_char c :: nat) \<Longrightarrow> c \<notin> set (show_nat n)"
  by (auto dest!: show_nat_digits simp: of_char_digit)

lemma show_nat_nonempty [simp]: "show_nat n \<noteq> []"
  by (simp add: show_nat.simps [of n])

text \<open>A separator that no number contains makes \<open>prefix separator number\<close> uniquely readable.\<close>

lemma append_sep_inj:
  assumes "c \<notin> set u" and "c \<notin> set v"
  shows "xs @ c # u = ys @ c # v \<longleftrightarrow> xs = ys \<and> u = v"
proof
  assume "xs @ c # u = ys @ c # v"
  then have "rev u @ c # rev xs = rev v @ c # rev ys"
    by (metis append.assoc append_Cons append_Nil rev.simps(2) rev_append)
  moreover have "takeWhile (\<lambda>x. x \<noteq> c) (rev u @ c # zs) = rev u" if "c \<notin> set u" for u zs
    using that by (subst takeWhile_append2) auto
  ultimately have "rev u = rev v"
    using assms by metis
  with \<open>rev u @ c # rev xs = rev v @ c # rev ys\<close> show "xs = ys \<and> u = v"
    by simp
qed simp

section \<open>Lines\<close>

lemma rust_chars_append:
  "\<not> is_continuation c \<Longrightarrow> rust_chars (s @ c # t) = rust_chars s @ rust_chars (c # t)"
proof (induction s rule: rust_chars.induct)
  case (2 d s)
  have tw: "takeWhile is_continuation (s @ c # t) = takeWhile is_continuation s"
    using "2.prems" by (induction s) auto
  have dw: "dropWhile is_continuation (s @ c # t) = dropWhile is_continuation s @ c # t"
    using "2.prems" by (induction s) auto
  show ?case using "2.IH" "2.prems" by (simp add: tw dw)
qed simp

lemma dropWhile_snoc: "P w \<Longrightarrow> dropWhile P (xs @ [w]) = (if list_all P xs then [] else dropWhile P xs @ [w])"
  by (induction xs) auto

lemma trim_snoc_whitespace:
  assumes "is_whitespace [w]" and "\<not> is_continuation w"
  shows "trim (s @ [w]) = trim s"
proof -
  have chars: "rust_chars (s @ [w]) = rust_chars s @ [[w]]"
    using rust_chars_append [OF assms(2), of s "[]"] by simp
  show ?thesis
  proof (cases "list_all is_whitespace (rust_chars s)")
    case True
    then have "dropWhile is_whitespace (rust_chars s) = []" by (simp add: list_all_iff)
    with True assms(1) show ?thesis by (simp only: trim_def chars dropWhile_snoc if_True)
  next
    case False
    with assms(1) show ?thesis by (simp add: trim_def chars dropWhile_snoc)
  qed
qed

lemma trim_strip_cr [simp]: "trim (strip_cr l) = trim l"
proof (cases "ends_with l [CHR 0x0D]")
  case True
  then obtain m where l: "l = m @ [CHR 0x0D]" by (auto simp: suffix_def)
  have "is_whitespace [CHR 0x0D]" "\<not> is_continuation (CHR 0x0D)" by code_simp+
  with trim_snoc_whitespace l show ?thesis by (simp add: strip_cr_def)
qed (simp add: strip_cr_def)

lemma split_append_hd:
  "split_on c (xs @ c # ys) = split_on c xs @ split_on c ys"
proof (induction xs)
  case (Cons x xs)
  then show ?case by (cases "split_on c xs") auto
qed simp

lemma split_on_empty: "split_on c s = [[]] \<Longrightarrow> s = []"
  by (cases s) (auto split: if_splits list.splits)

lemma last_split_empty: "last (split_on c s) = [] \<longleftrightarrow> s = [] \<or> last s = c"
proof (induction s)
  case (Cons x s)
  then show ?case by (cases "split_on c s") (auto split: if_splits dest: split_on_empty)
qed simp

definition trimmed_lines :: "string \<Rightarrow> string list" where
  "trimmed_lines t = map trim (lines t)"

lemma lines_newline: "lines (t @ [CHR 0x0A]) = map strip_cr (split_on (CHR 0x0A) t)"
  using split_append_hd [of "CHR 0x0A" t "[]"] by (simp add: lines_def)

lemma trimmed_lines_newline:
  assumes "t \<noteq> []" and "last t \<noteq> CHR 0x0A"
  shows "trimmed_lines (t @ [CHR 0x0A]) = trimmed_lines t"
proof -
  let ?ps = "split_on (CHR 0x0A) t"
  have "last ?ps \<noteq> []" using assms by (simp add: last_split_empty)
  then have "map trim (lines t) = map trim (butlast ?ps @ [last ?ps])"
    by (simp add: lines_def Let_def comp_def del: append_butlast_last_id)
  then show ?thesis by (simp add: trimmed_lines_def lines_newline comp_def)
qed

lemma trimmed_lines_append:
  assumes "t = [] \<or> last t = CHR 0x0A" and "CHR 0x0A \<notin> set p"
  shows "trimmed_lines (t @ p @ [CHR 0x0A]) = trimmed_lines t @ [trim p]"
proof (cases "t = []")
  case True
  then show ?thesis
    using lines_newline [of p] assms(2) by (simp add: trimmed_lines_def lines_def [of "[]"] split_on_no_char)
next
  case False
  with assms(1) obtain u where t: "t = u @ [CHR 0x0A]" by (metis append_butlast_last_id)
  have "split_on (CHR 0x0A) (u @ CHR 0x0A # p) = split_on (CHR 0x0A) u @ [p]"
    using assms(2) by (simp add: split_append_hd split_on_no_char)
  then show ?thesis
    unfolding t trimmed_lines_def using lines_newline [of u] lines_newline [of "u @ CHR 0x0A # p"]
    by (simp add: comp_def)
qed

end
