(* ===== verification/Rust_Path.thy ===== *)
theory Rust_Path
  imports Rust_String
begin

text \<open>
  Unix paths as \<^verbatim>\<open>std::path::Path\<close> reads them. A path is its string; everything but
  \<^verbatim>\<open>is_absolute\<close> and \<^verbatim>\<open>join\<close> goes through its components: repeated separators and
  interior \<open>.\<close> segments disappear, a leading \<open>.\<close> is \<^verbatim>\<open>CurDir\<close>, \<open>..\<close> is \<^verbatim>\<open>ParentDir\<close>.
\<close>

datatype component = RootDir | CurDir | ParentDir | Normal string

abbreviation slash :: char where
  "slash \<equiv> CHR ''/''"

definition is_absolute :: "string \<Rightarrow> bool" where
  "is_absolute p = starts_with p ''/''"

text \<open>A segment after the first one; an empty segment or a dot yields nothing.\<close>

definition segment :: "string \<Rightarrow> component list" where
  "segment g = (if g = [] \<or> g = ''.'' then [] else if g = ''..'' then [ParentDir] else [Normal g])"

definition components :: "string \<Rightarrow> component list" where
  "components p =
     (if is_absolute p then RootDir # concat (map segment (split_on slash p))
      else case split_on slash p of
             [] \<Rightarrow> []
           | g # gs \<Rightarrow> (if g = ''.'' then [CurDir] else segment g) @ concat (map segment gs))"

fun component_str :: "component \<Rightarrow> string" where
  "component_str RootDir = ''/''"
| "component_str CurDir = ''.''"
| "component_str ParentDir = ''..''"
| "component_str (Normal n) = n"

definition path_join :: "string \<Rightarrow> string \<Rightarrow> string" where
  "path_join base p =
     (if is_absolute p then p
      else if base = [] \<or> ends_with base ''/'' then base @ p
      else base @ slash # p)"

definition path_starts_with :: "string \<Rightarrow> string \<Rightarrow> bool" where
  "path_starts_with p root = prefix (components root) (components p)"

text \<open>
  The path of a list of components. \<open>strip_path_prefix\<close> and \<open>path_parent\<close> return paths in this
  form; on the paths they are applied to (a directory entry, a joined path) it is the slice
  of the original that \<^verbatim>\<open>strip_prefix\<close> and \<^verbatim>\<open>parent\<close> return.
\<close>

fun join_with :: "string \<Rightarrow> string list \<Rightarrow> string" where
  "join_with c [] = []"
| "join_with c [x] = x"
| "join_with c (x # y # xs) = x @ c @ join_with c (y # xs)"

definition path_of :: "component list \<Rightarrow> string" where
  "path_of cs = (case cs of
     RootDir # rest \<Rightarrow> slash # join_with ''/'' (map component_str rest)
   | _ \<Rightarrow> join_with ''/'' (map component_str cs))"

definition strip_path_prefix :: "string \<Rightarrow> string \<Rightarrow> string option" where
  "strip_path_prefix p base =
     (if path_starts_with p base then Some (path_of (drop (length (components base)) (components p)))
      else None)"

definition path_parent :: "string \<Rightarrow> string option" where
  "path_parent p =
     (if components p = [] \<or> last (components p) = RootDir then None
      else Some (path_of (butlast (components p))))"

text \<open>A path below a root, as the list of the components after the root.\<close>

type_synonym rel_path = "component list"

fun is_normal :: "component \<Rightarrow> bool" where
  "is_normal (Normal n) = True"
| "is_normal c = False"

text \<open>
  Lexical containment: following only \<^verbatim>\<open>Normal\<close> components from a directory never leaves
  it, since none of them is the parent, the root or a separator-bearing name.
\<close>

definition stays_below :: "rel_path \<Rightarrow> bool" where
  "stays_below cs \<longleftrightarrow> cs \<noteq> [] \<and> list_all is_normal cs"

lemma is_normal_iff: "is_normal c \<longleftrightarrow> c \<noteq> RootDir \<and> c \<noteq> CurDir \<and> c \<noteq> ParentDir"
  by (cases c) simp_all

lemma is_absolute_Nil [simp]: "\<not> is_absolute []"
  by (simp add: is_absolute_def)

lemma is_absolute_Cons [simp]: "is_absolute (c # s) \<longleftrightarrow> c = slash"
  by (auto simp: is_absolute_def)

lemma segment_normal: "Normal n \<in> set (segment g) \<Longrightarrow> n = g \<and> g \<noteq> [] \<and> g \<noteq> ''.'' \<and> g \<noteq> ''..''"
  by (simp add: segment_def split: if_splits)

lemma components_normal_name:
  assumes "Normal n \<in> set (components p)"
  shows "n \<noteq> [] \<and> n \<noteq> ''.'' \<and> n \<noteq> ''..'' \<and> slash \<notin> set n"
proof -
  have "\<exists>g\<in>set (split_on slash p). Normal n \<in> set (segment g)"
    using assms by (cases "split_on slash p") (auto simp: components_def split: if_splits)
  then show ?thesis
    using segment_normal split_on_no_sep by blast
qed

lemma RootDir_iff: "RootDir \<in> set (components p) \<longleftrightarrow> is_absolute p"
proof -
  have "RootDir \<notin> set (segment g)" for g
    by (simp add: segment_def)
  then show ?thesis
    by (auto simp: components_def split: list.splits)
qed

lemma components_single:
  assumes "slash \<notin> set g" and "g \<noteq> []" and "g \<noteq> ''.''"
  shows "components g = (if g = ''..'' then [ParentDir] else [Normal g])"
  using assms by (cases g) (auto simp: components_def segment_def split_on_no_char)

text \<open>Appending a relative path that does not begin with a dot appends its components.\<close>

lemma components_relative:
  assumes "\<not> is_absolute p" and "hd (split_on slash p) \<noteq> ''.''"
  shows "components p = concat (map segment (split_on slash p))"
  using assms by (cases "split_on slash p") (auto simp: components_def)

lemma components_join_segments:
  assumes "\<not> is_absolute p" and "base \<noteq> []" and "\<not> ends_with base ''/''"
  shows "components (path_join base p) = components base @ concat (map segment (split_on slash p))"
proof -
  have "components (base @ slash # p) = components base @ concat (map segment (split_on slash p))"
  proof (cases "is_absolute base")
    case True
    then have "is_absolute (base @ slash # p)" using assms(2) by (cases base) auto
    with True show ?thesis by (simp add: components_def split_append_hd)
  next
    case False
    then have "\<not> is_absolute (base @ slash # p)" using assms(2) by (cases base) auto
    with False show ?thesis
      by (cases "split_on slash base") (auto simp: components_def split_append_hd)
  qed
  with assms show ?thesis by (simp add: path_join_def)
qed

lemma components_join:
  assumes "\<not> is_absolute p" and "hd (split_on slash p) \<noteq> ''.''"
    and "base \<noteq> []" and "\<not> ends_with base ''/''"
  shows "components (path_join base p) = components base @ components p"
  using components_join_segments [OF assms(1,3,4)] components_relative [OF assms(1,2)] by simp

text \<open>
  \<open>contained base p\<close>: the path continues the base with names only, so it denotes something
  in the directory of the base unless a name is a symbolic link.
\<close>

definition contained :: "string \<Rightarrow> string \<Rightarrow> bool" where
  "contained base p \<longleftrightarrow> (\<exists>cs. components p = components base @ cs \<and> list_all is_normal cs)"

lemma segments_names:
  assumes "ParentDir \<notin> set (components p)" and "\<not> is_absolute p"
  shows "list_all is_normal (concat (map segment (split_on slash p)))"
proof -
  have seg: "c = ParentDir \<or> is_normal c" if "c \<in> set (segment g)" for c g
    using that by (auto simp: segment_def split: if_splits)
  have "ParentDir \<notin> set (segment g)" if "g \<in> set (split_on slash p)" for g
  proof (cases "split_on slash p")
    case (Cons h hs)
    with assms that show ?thesis by (auto simp: components_def segment_def split: if_splits)
  qed (use that in simp)
  with seg show ?thesis by (fastforce simp: list_all_iff)
qed

lemma contained_join:
  assumes "\<not> is_absolute p" and "ParentDir \<notin> set (components p)"
    and "base \<noteq> []" and "\<not> ends_with base ''/''"
  shows "contained base (path_join base p)"
  unfolding contained_def
  using components_join_segments [OF assms(1,3,4)] segments_names [OF assms(2,1)] by blast

text \<open>The names of a path give the path back.\<close>

definition is_name :: "component \<Rightarrow> bool" where
  "is_name c = (case c of Normal n \<Rightarrow> n \<noteq> [] \<and> n \<noteq> ''.'' \<and> n \<noteq> ''..'' \<and> slash \<notin> set n | _ \<Rightarrow> False)"

lemma components_names:
  "list_all is_normal cs \<Longrightarrow> set cs \<subseteq> set (components p) \<Longrightarrow> list_all is_name cs"
  unfolding list_all_iff is_name_def
  by (auto simp: is_normal_iff split: component.split dest!: subsetD components_normal_name)

lemma split_join_with:
  "ns \<noteq> [] \<Longrightarrow> list_all (\<lambda>n. slash \<notin> set n) ns \<Longrightarrow> split_on slash (join_with ''/'' ns) = ns"
proof (induction ns rule: induct_list012)
  case (2 n)
  then show ?case by (simp add: split_on_no_char)
next
  case (3 n m ns)
  then show ?case by (simp add: split_append_hd split_on_no_char)
qed simp

lemma path_of_names: "list_all is_name cs \<Longrightarrow> path_of cs = join_with ''/'' (map component_str cs)"
  by (cases cs) (auto simp: path_of_def is_name_def split: component.splits)

lemma is_name_str: "is_name c \<Longrightarrow> slash \<notin> set (component_str c) \<and> segment (component_str c) = [c] \<and> component_str c \<noteq> ''.'' \<and> component_str c \<noteq> []"
  by (cases c) (auto simp: is_name_def segment_def)

lemma components_path_of:
  assumes "list_all is_name cs"
  shows "components (path_of cs) = cs" and "\<not> is_absolute (path_of cs)"
    and "cs \<noteq> [] \<Longrightarrow> hd (split_on slash (path_of cs)) \<noteq> ''.''"
proof -
  have "components (path_of cs) = cs \<and> \<not> is_absolute (path_of cs) \<and>
    (cs \<noteq> [] \<longrightarrow> hd (split_on slash (path_of cs)) \<noteq> ''.'')"
  proof (cases cs)
    case (Cons c rest)
    let ?ns = "map component_str cs"
    have names: "\<And>x. x \<in> set cs \<Longrightarrow> is_name x" using assms by (simp add: list_all_iff)
    have split: "split_on slash (path_of cs) = ?ns"
      unfolding path_of_names [OF assms]
      by (rule split_join_with) (use Cons names is_name_str in \<open>auto simp: list_all_iff\<close>)
    have c: "component_str c \<noteq> []" "slash \<notin> set (component_str c)" "component_str c \<noteq> ''.''"
      using names is_name_str [of c] Cons by auto
    have "\<not> is_absolute (path_of cs)"
    proof
      assume "is_absolute (path_of cs)"
      then obtain q where "path_of cs = slash # q" by (cases "path_of cs") auto
      then have "hd (split_on slash (path_of cs)) = []" by simp
      with split Cons c(1) show False by simp
    qed
    moreover have "hd (split_on slash (path_of cs)) \<noteq> ''.''" using split Cons c(3) by simp
    moreover have "concat (map segment ?ns) = cs" using names by (induction cs) (auto simp: is_name_str)
    ultimately show ?thesis using components_relative split by simp
  qed (simp add: path_of_def components_def segment_def)
  then show "components (path_of cs) = cs" and "\<not> is_absolute (path_of cs)"
    and "cs \<noteq> [] \<Longrightarrow> hd (split_on slash (path_of cs)) \<noteq> ''.''" by blast+
qed

end
