(* ===== verification/Rust_Float.thy ===== *)
theory Rust_Float
  imports Complex_Main Runner_Prelude
begin

text \<open>
  \<^verbatim>\<open>f64\<close> values up to the sign of zero, with the two operations the admission policy uses.
  \<^verbatim>\<open>f64::min\<close> and \<^verbatim>\<open>f64::max\<close> return the other operand when one is not a number.
\<close>

datatype f64 = NaN | NInf | PInf | Fin rat

fun f64_le :: "f64 \<Rightarrow> f64 \<Rightarrow> bool" where
  "f64_le NaN b = False"
| "f64_le a NaN = False"
| "f64_le NInf b = True"
| "f64_le a PInf = True"
| "f64_le PInf b = False"
| "f64_le a NInf = False"
| "f64_le (Fin x) (Fin y) = (x \<le> y)"

definition f64_min :: "f64 \<Rightarrow> f64 \<Rightarrow> f64" where
  "f64_min a b = (if a = NaN then b else if b = NaN then a else if f64_le a b then a else b)"

definition f64_max :: "f64 \<Rightarrow> f64 \<Rightarrow> f64" where
  "f64_max a b = (if a = NaN then b else if b = NaN then a else if f64_le a b then b else a)"

lemma f64_le_refl [simp]: "f64_le a a \<longleftrightarrow> a \<noteq> NaN"
  by (cases a) simp_all

lemma f64_le_total: "a \<noteq> NaN \<Longrightarrow> b \<noteq> NaN \<Longrightarrow> f64_le a b \<or> f64_le b a"
  by (cases a; cases b) auto

lemma f64_le_trans: "f64_le a b \<Longrightarrow> f64_le b c \<Longrightarrow> f64_le a c"
  by (cases a; cases b; cases c) auto

lemma f64_max_lower: "b \<noteq> NaN \<Longrightarrow> f64_le b (f64_max a b)"
  using f64_le_total [of a b] by (auto simp: f64_max_def)

lemma f64_min_upper: "b \<noteq> NaN \<Longrightarrow> f64_le (f64_min a b) b"
  using f64_le_total [of a b] by (auto simp: f64_min_def)

lemma f64_min_max_bounds:
  assumes "lo \<noteq> NaN" and "f64_le lo hi"
  shows "f64_le lo (f64_max (f64_min a hi) lo) \<and> f64_le (f64_max (f64_min a hi) lo) hi"
proof -
  from assms have hi: "hi \<noteq> NaN" by (cases lo) auto
  with f64_min_upper [of hi a] assms f64_max_lower [of lo "f64_min a hi"] show ?thesis
    by (auto simp: f64_max_def)
qed

lemma f64_clamp_upper:
  "lo \<noteq> NaN \<Longrightarrow> hi \<noteq> NaN \<Longrightarrow> f64_le (f64_max (f64_min a hi) lo) (f64_max hi lo)"
  by (cases a; cases hi; cases lo) (auto simp: f64_max_def f64_min_def)

lemma f64_clamp_inside: "f64_le lo a \<Longrightarrow> f64_le a hi \<Longrightarrow> f64_max (f64_min a hi) lo = a"
  by (cases a; cases hi; cases lo) (auto simp: f64_max_def f64_min_def)

section \<open>Rounding\<close>

text \<open>
  Multiplication rounds the exact product to 53 significant bits, ties to even, with the
  least exponent of the subnormal numbers. \<open>bits n\<close> is the length of the binary
  representation of \<open>n\<close>.
\<close>

fun bits :: "nat \<Rightarrow> nat" where
  "bits n = (if n = 0 then 0 else Suc (bits (n div 2)))"

declare bits.simps [simp del]

definition pow2 :: "int \<Rightarrow> rat" where
  "pow2 k = (if 0 \<le> k then 2 ^ nat k else 1 / 2 ^ nat (- k))"

text \<open>The binary exponent of a positive rational.\<close>

definition exponent :: "rat \<Rightarrow> int" where
  "exponent q = (case quotient_of q of (a, b) \<Rightarrow>
     let k = int (bits (nat a)) - int (bits (nat b)) in if pow2 k \<le> q then k else k - 1)"

definition round_half_even :: "rat \<Rightarrow> int" where
  "round_half_even m =
     (let f = \<lfloor>m\<rfloor>; d = m - of_int f in
      if d < 1 / 2 then f else if d > 1 / 2 then f + 1 else if even f then f else f + 1)"

definition f64_round :: "rat \<Rightarrow> f64" where
  "f64_round q =
     (if q = 0 then Fin 0
      else let ulp = pow2 (max (exponent \<bar>q\<bar> - 52) (- 1074));
               r = of_int (round_half_even (q / ulp)) * ulp in
           if \<bar>r\<bar> \<ge> 2 ^ 1024 then (if q > 0 then PInf else NInf) else Fin r)"

fun f64_sign :: "f64 \<Rightarrow> int" where
  "f64_sign NaN = 0"
| "f64_sign NInf = - 1"
| "f64_sign PInf = 1"
| "f64_sign (Fin x) = (if x > 0 then 1 else if x < 0 then - 1 else 0)"

definition f64_mul :: "f64 \<Rightarrow> f64 \<Rightarrow> f64" where
  "f64_mul a b =
     (case (a, b) of
        (Fin x, Fin y) \<Rightarrow> f64_round (x * y)
      | _ \<Rightarrow> (let s = f64_sign a * f64_sign b in if s = 0 then NaN else if s > 0 then PInf else NInf))"

text \<open>The cast \<^verbatim>\<open>as i64\<close> truncates toward zero and saturates; not-a-number becomes zero.\<close>

fun f64_as_i64 :: "f64 \<Rightarrow> int" where
  "f64_as_i64 NaN = 0"
| "f64_as_i64 NInf = - (2 ^ 63)"
| "f64_as_i64 PInf = 2 ^ 63 - 1"
| "f64_as_i64 (Fin x) = max (- (2 ^ 63)) (min (2 ^ 63 - 1) (if 0 \<le> x then \<lfloor>x\<rfloor> else \<lceil>x\<rceil>))"

lemma f64_as_i64_range: "- (2 ^ 63) \<le> f64_as_i64 x \<and> f64_as_i64 x < 2 ^ 63"
  by (cases x) auto

end
