(* ===== verification/Json.thy ===== *)
theory Json
  imports Rust_Float
begin

text \<open>
  JSON documents as \<^verbatim>\<open>serde_json::Value\<close> holds them; an object is the list of its members
  in iteration order.
\<close>

datatype json_number = NInt int | NFloat f64

datatype json =
    JNull
  | JBool bool
  | JNum json_number
  | JStr string
  | JArr "json list"
  | JObj "(string \<times> json) list"

fun json_get :: "json \<Rightarrow> string \<Rightarrow> json option" where
  "json_get (JObj ms) k = map_of ms k"
| "json_get v k = None"

fun json_as_str :: "json \<Rightarrow> string option" where
  "json_as_str (JStr s) = Some s"
| "json_as_str v = None"

lemma json_as_str_Some [simp]: "json_as_str v = Some s \<longleftrightarrow> v = JStr s"
  by (cases v) auto

end
