(* ===== verification/Protocol.thy ===== *)
theory Protocol
  imports Rust_Path Json
begin

text \<open>
  The wire protocol of \<^verbatim>\<open>crates/runner-protocol/src/lib.rs\<close>: job specifications in their two
  versions, results, failure classification, the one-line error summary, the check of the
  feedback path and the structural validation of a job. The JSON decoder
  (\<^verbatim>\<open>serde_json\<close> and the derived \<^verbatim>\<open>Deserialize\<close> code) is a parameter of \<open>from_json\<close>.
\<close>

section \<open>Data\<close>

datatype isolation_level = Container | Sandboxed | Dedicated

record execution_requirements =
  er_isolation :: isolation_level
  er_capabilities :: "string list"

datatype git_publish_mode = Disabled | IfChanged | Required

record git_workspace =
  gw_clone_url :: string
  gw_base_branch :: string
  gw_branch :: string
  gw_base_sha :: "string option"
  gw_head_sha :: "string option"
  gw_username :: string
  gw_token :: string
  gw_commit_message :: string
  gw_publish_mode :: git_publish_mode

datatype workspace_spec =
    Local string
  | ArchiveUrl string
  | Git git_workspace

record resources =
  cpu :: f64
  memory_mb :: int
  pids :: int
  timeout_seconds :: u64

record command_spec =
  cs_command :: "string list"
  cs_working_directory :: "string option"

record verifier_spec =
  vs_name :: string
  vs_command :: "string list"
  vs_working_directory :: "string option"
  vs_required :: bool

record healthcheck_spec =
  hc_command :: "string list"
  hc_timeout_seconds :: u64

record service_spec =
  sv_name :: string
  sv_image :: string
  sv_alias :: "string option"
  sv_command :: "string list"
  sv_environment :: "(string \<times> string) list"
  sv_healthcheck :: "healthcheck_spec option"

record workflow_spec =
  wf_setup :: "command_spec list"
  wf_services :: "service_spec list"
  wf_initialize :: "command_spec option"
  wf_agent :: command_spec
  wf_verifiers :: "verifier_spec list"
  wf_max_iterations :: u32
  wf_feedback_file :: string
  wf_publish :: "command_spec option"

record secret_spec =
  ss_name :: string
  ss_value :: string
  ss_secret_ref :: "string option"

record job_spec =
  js_api_version :: string
  js_id :: string
  js_attempt :: u32
  js_executor :: string
  js_execution :: "execution_requirements option"
  js_image :: string
  js_command :: "string list"
  js_working_directory :: string
  js_workspace :: workspace_spec
  js_environment_from_runner :: "string list"
  js_secrets :: "secret_spec list"
  js_resources :: resources
  js_network_mode :: string
  js_artifacts :: "string list"
  js_writable_rootfs :: bool
  js_workflow :: "workflow_spec option"

record job_spec_v1beta1 =
  jb_api_version :: string
  jb_id :: string
  jb_attempt :: u32
  jb_image :: string
  jb_command :: "string list"
  jb_working_directory :: string
  jb_workspace :: workspace_spec
  jb_environment_from_runner :: "string list"
  jb_secrets :: "secret_spec list"
  jb_resources :: resources
  jb_network_mode :: string
  jb_artifacts :: "string list"
  jb_writable_rootfs :: bool
  jb_workflow :: "workflow_spec option"
  jb_execution :: execution_requirements

datatype failure_kind =
  Validation | Policy | Secret | Execution | Cancellation | Timeout | Infrastructure

record failure_info =
  fi_kind :: failure_kind
  fi_code :: string
  fi_message :: string

record sandbox_result =
  sb_executor :: string
  sb_container_id :: string
  sb_image_id :: "string option"

record job_result =
  jr_job_id :: string
  jr_attempt :: u32
  jr_status :: string
  jr_exit_code :: "int option"
  jr_started_at :: string
  jr_finished_at :: string
  jr_duration_ms :: nat
  jr_log_truncated :: bool
  jr_stdout :: string
  jr_stderr :: string
  jr_error_summary :: "string option"
  jr_failure :: "failure_info option"
  jr_failed_phase :: "string option"
  jr_artifacts :: "string list"
  jr_artifact_dir :: "string option"
  jr_sandbox :: sandbox_result

record log_chunk =
  lc_attempt :: u32
  lc_sequence :: u64
  lc_stream :: string
  lc_phase :: string
  lc_level :: "string option"
  lc_message :: string

section \<open>Defaults and the v1beta1 adapter\<close>

definition default_healthcheck_timeout :: u64 where
  "default_healthcheck_timeout = 60"

definition default_max_iterations :: u32 where
  "default_max_iterations = 3"

definition default_feedback_file :: string where
  "default_feedback_file = ''/workspace/.runner/feedback.md''"

definition job_spec_from :: "job_spec_v1beta1 \<Rightarrow> job_spec" where
  "job_spec_from spec =
     \<lparr> js_api_version = jb_api_version spec,
       js_id = jb_id spec,
       js_attempt = jb_attempt spec,
       js_executor = ''docker'',
       js_execution = Some (jb_execution spec),
       js_image = jb_image spec,
       js_command = jb_command spec,
       js_working_directory = jb_working_directory spec,
       js_workspace = jb_workspace spec,
       js_environment_from_runner = jb_environment_from_runner spec,
       js_secrets = jb_secrets spec,
       js_resources = jb_resources spec,
       js_network_mode = jb_network_mode spec,
       js_artifacts = jb_artifacts spec,
       js_writable_rootfs = jb_writable_rootfs spec,
       js_workflow = jb_workflow spec \<rparr>"

section \<open>The feedback path\<close>

definition validate_feedback_file :: "string \<Rightarrow> string result" where
  "validate_feedback_file value =
     bind_result
       (ok_or (case strip_prefix value ''/workspace/'' of
                 Some relative \<Rightarrow> Some relative
               | None \<Rightarrow> if \<not> starts_with value ''/'' then Some value else None)
              (Bail ''feedback_file must be inside /workspace''))
       (\<lambda>relative.
         bail_if (relative = []
                  \<or> CHR 0x5C \<in> set relative
                  \<or> CHR '':'' \<in> set relative
                  \<or> relative = ''.''
                  \<or> starts_with relative ''./''
                  \<or> contains_str relative ''/./''
                  \<or> ends_with relative ''/.'')
           ''invalid feedback_file path''
           (bail_if (is_absolute relative
                     \<or> list_ex (\<lambda>c. c = CurDir \<or> c = ParentDir \<or> c = RootDir) (components relative))
              ''invalid feedback_file path''
              (Inr relative)))"

section \<open>Results\<close>

definition error_summary :: "string \<Rightarrow> string \<Rightarrow> string \<Rightarrow> string option" where
  "error_summary status stdout stderr =
     (if status = ''completed'' then None
      else let source = (if trim stderr = [] then stdout else stderr) in
        case List.find (\<lambda>line. trim line \<noteq> []) (rev (lines source)) of
          None \<Rightarrow> None
        | Some line \<Rightarrow> Some (take_chars 500 (trim line)))"

text \<open>\<open>now\<close> is the RFC 3339 text of \<^verbatim>\<open>Utc::now()\<close>.\<close>

definition failed_from_failure :: "string \<Rightarrow> job_spec \<Rightarrow> failure_info \<Rightarrow> job_result" where
  "failed_from_failure now spec failure =
     \<lparr> jr_job_id = js_id spec,
       jr_attempt = js_attempt spec,
       jr_status = ''failed'',
       jr_exit_code = None,
       jr_started_at = now,
       jr_finished_at = now,
       jr_duration_ms = 0,
       jr_log_truncated = False,
       jr_stdout = [],
       jr_stderr = fi_message failure,
       jr_error_summary = Some (fi_message failure),
       jr_failure = Some failure,
       jr_failed_phase = None,
       jr_artifacts = [],
       jr_artifact_dir = None,
       jr_sandbox = \<lparr> sb_executor = js_executor spec, sb_container_id = [], sb_image_id = None \<rparr> \<rparr>"

definition failed_from_error :: "string \<Rightarrow> job_spec \<Rightarrow> error \<Rightarrow> job_result" where
  "failed_from_error now spec e =
     failed_from_failure now spec
       \<lparr> fi_kind = Execution, fi_code = ''executor_error'', fi_message = error_to_string e \<rparr>"

section \<open>Decoding\<close>

text \<open>
  \<open>parse\<close> is \<^verbatim>\<open>serde_json::from_str\<close>, \<open>decode_alpha\<close> and \<open>decode_beta\<close> are the two derived
  \<^verbatim>\<open>serde_json::from_value\<close> instances; the version dispatch is the program's own.
\<close>

definition from_json ::
  "(string \<Rightarrow> json result) \<Rightarrow> (json \<Rightarrow> job_spec result) \<Rightarrow> (json \<Rightarrow> job_spec_v1beta1 result)
   \<Rightarrow> string \<Rightarrow> job_spec result" where
  "from_json parse decode_alpha decode_beta document =
     bind_result (with_context ''parse job JSON'' (parse document)) (\<lambda>value.
       case Option.bind (json_get value ''api_version'') json_as_str of
         Some version \<Rightarrow>
           if version = ''ai-kodu-runner.dev/v1alpha1'' then
             with_context ''parse v1alpha1 job JSON'' (decode_alpha value)
           else if version = ''ai-kodu-runner.dev/v1beta1'' then
             bind_result (with_context ''parse v1beta1 job JSON'' (decode_beta value))
               (\<lambda>spec. Inr (job_spec_from spec))
           else Inl (Bail (''unsupported api_version: '' @ version))
       | None \<Rightarrow> Inl (Bail ''missing api_version''))"

definition from_path ::
  "(string \<Rightarrow> string result) \<Rightarrow> (string \<Rightarrow> json result) \<Rightarrow> (json \<Rightarrow> job_spec result)
   \<Rightarrow> (json \<Rightarrow> job_spec_v1beta1 result) \<Rightarrow> string \<Rightarrow> job_spec result" where
  "from_path read_to_string parse decode_alpha decode_beta p =
     bind_result (with_context (''read job '' @ p) (read_to_string p))
       (from_json parse decode_alpha decode_beta)"

section \<open>Structural validation\<close>

definition name_byte :: "char \<Rightarrow> bool" where
  "name_byte b = (is_ascii_alphanumeric b \<or> b = CHR ''_'' \<or> b = CHR ''-'' \<or> b = CHR ''.'')"

definition secret_byte :: "char \<Rightarrow> bool" where
  "secret_byte b = (is_ascii_alphanumeric b \<or> b = CHR ''_'')"

text \<open>\<open>seen\<close> is the hash set of the names already inserted.\<close>

fun check_capabilities :: "string list \<Rightarrow> string list \<Rightarrow> unit result" where
  "check_capabilities seen [] = Inr ()"
| "check_capabilities seen (capability # rest) =
     bail_if (capability = []
              \<or> length capability > 64
              \<or> \<not> list_all name_byte capability
              \<or> capability \<in> set seen)
       ''invalid execution capability''
       (check_capabilities (capability # seen) rest)"

definition check_execution :: "execution_requirements option \<Rightarrow> unit result" where
  "check_execution execution =
     (case execution of
        None \<Rightarrow> Inr ()
      | Some e \<Rightarrow>
          bail_if (length (er_capabilities e) > 32) ''too many execution capabilities''
            (check_capabilities [] (er_capabilities e)))"

definition bad_alias :: "string \<Rightarrow> bool" where
  "bad_alias alias = (trim alias = [] \<or> has_whitespace alias \<or> \<not> list_all name_byte alias)"

definition bad_healthcheck :: "healthcheck_spec \<Rightarrow> bool" where
  "bad_healthcheck h = (hc_command h = [] \<or> hc_timeout_seconds h = 0 \<or> hc_timeout_seconds h > 3600)"

fun check_services :: "bool \<Rightarrow> string list \<Rightarrow> service_spec list \<Rightarrow> unit result" where
  "check_services daemon seen [] = Inr ()"
| "check_services daemon seen (service # rest) =
     bail_if (trim (sv_name service) = []
              \<or> sv_name service \<in> set seen
              \<or> trim (sv_image service) = []
              \<or> has_whitespace (sv_image service)
              \<or> \<not> list_all name_byte (sv_name service))
       ''invalid workflow service''
     (bail_if (daemon \<and> \<not> contains_str (sv_image service) ''@sha256:'')
       ''daemon workflow services require image digests''
     (bail_if (case sv_alias service of None \<Rightarrow> False | Some alias \<Rightarrow> bad_alias alias)
       ''invalid workflow service alias''
     (bail_if (case sv_healthcheck service of None \<Rightarrow> False | Some h \<Rightarrow> bad_healthcheck h)
       ''invalid workflow service healthcheck''
       (check_services daemon (sv_name service # seen) rest))))"

definition check_workflow :: "bool \<Rightarrow> workflow_spec \<Rightarrow> unit result" where
  "check_workflow daemon workflow =
     bail_if (case wf_initialize workflow of None \<Rightarrow> False | Some c \<Rightarrow> cs_command c = [])
       ''workflow initialize command must not be empty''
     (bail_if (cs_command (wf_agent workflow) = [])
       ''workflow agent command must not be empty''
     (bail_if (wf_max_iterations workflow = 0 \<or> wf_max_iterations workflow > 20)
       ''workflow max_iterations must be between 1 and 20''
     (bind_result (validate_feedback_file (wf_feedback_file workflow)) (\<lambda>_.
      bail_if (list_ex (\<lambda>v. trim (vs_name v) = [] \<or> vs_command v = []) (wf_verifiers workflow))
       ''workflow verifier names and commands must not be empty''
     (bail_if (length (wf_services workflow) > 16)
       ''too many workflow services''
       (check_services daemon [] (wf_services workflow)))))))"

definition check_secret :: "secret_spec \<Rightarrow> unit result" where
  "check_secret secret =
     bail_if (ss_name secret = []
              \<or> length (ss_name secret) > 128
              \<or> \<not> list_all secret_byte (ss_name secret))
       ''invalid secret name''
     (bail_if (ss_secret_ref secret \<noteq> None \<and> ss_value secret \<noteq> [])
       ''secret must use either value or secret_ref''
     (bail_if (case ss_secret_ref secret of None \<Rightarrow> False | Some r \<Rightarrow> r = [] \<or> length r > 512)
       ''invalid secret_ref''
     (bail_if (length (ss_value secret) > 64 * 1024)
       ''secret is too large''
       (Inr ()))))"

definition validate_job :: "job_spec \<Rightarrow> bool \<Rightarrow> unit result" where
  "validate_job spec daemon =
     bail_if (js_api_version spec \<notin> set [''ai-kodu-runner.dev/v1alpha1'', ''ai-kodu-runner.dev/v1beta1''])
       ''unsupported api_version''
     (bail_if (js_executor spec \<noteq> ''docker'')
       ''unsupported executor''
     (bail_if (js_api_version spec = ''ai-kodu-runner.dev/v1beta1'' \<and> js_execution spec = None)
       ''v1beta1 execution requirements are required''
     (bind_result (check_execution (js_execution spec)) (\<lambda>_.
      bail_if (js_workflow spec = None \<and> js_command spec = [])
       ''command must not be empty''
     (bind_result (case js_workflow spec of None \<Rightarrow> Inr () | Some w \<Rightarrow> check_workflow daemon w) (\<lambda>_.
      bail_if (trim (js_image spec) = [] \<or> has_whitespace (js_image spec))
       ''invalid image reference''
     (bail_if (daemon \<and> \<not> contains_str (js_image spec) ''@sha256:'')
       ''daemon jobs require an image digest''
     (bail_if (js_network_mode spec \<notin> set [''bridge'', ''none''])
       ''unsupported network mode''
     (bail_if (length (js_secrets spec) > 32)
       ''too many secrets''
       (for_each (js_secrets spec) check_secret))))))))))"

section \<open>The feedback path stays inside the workspace\<close>

lemma hd_split_Cons: "x \<noteq> c \<Longrightarrow> hd (split_on c (x # xs)) = x # hd (split_on c xs)"
  by (cases "split_on c xs") simp_all

lemma hd_split_dot:
  assumes "hd (split_on slash r) = ''.''"
  shows "r = ''.'' \<or> starts_with r ''./''"
proof (cases r)
  case (Cons x xs)
  with assms have x: "x = CHR ''.''" and "hd (split_on slash xs) = []"
    by (auto split: if_splits list.splits)
  then have "xs = [] \<or> hd xs = slash"
    by (cases xs) (auto split: if_splits list.splits)
  with x Cons show ?thesis by (cases xs) auto
qed (use assms in simp)

lemma validate_feedback_file_ok:
  assumes "validate_feedback_file v = Inr r"
  shows "stays_below (components r)"
    and "\<not> is_absolute r"
    and "hd (split_on slash r) \<noteq> ''.''"
    and "v = ''/workspace/'' @ r \<or> v = r"
proof -
  from assms have r: "r \<noteq> []" "\<not> is_absolute r" "r \<noteq> ''.''" "\<not> starts_with r ''./''"
    and cs: "\<not> list_ex (\<lambda>c. c = CurDir \<or> c = ParentDir \<or> c = RootDir) (components r)"
    and v: "v = ''/workspace/'' @ r \<or> v = r"
    by (auto simp: validate_feedback_file_def split: option.splits if_splits)
  show dot: "hd (split_on slash r) \<noteq> ''.''"
    using hd_split_dot r by blast
  have "components r \<noteq> []"
  proof -
    from r obtain x xs where "r = x # xs" "x \<noteq> slash" by (cases r) auto
    then have "hd (split_on slash r) \<noteq> []" using hd_split_Cons [of x slash xs] by simp
    then have "segment (hd (split_on slash r)) \<noteq> []"
      using dot by (simp add: segment_def)
    then show ?thesis
      using components_relative [OF r(2) dot] by (cases "split_on slash r") auto
  qed
  moreover have "list_all is_normal (components r)"
    using cs by (auto simp: list_all_iff list_ex_iff is_normal_iff)
  ultimately show "stays_below (components r)"
    by (simp add: stays_below_def)
  show "\<not> is_absolute r" by (fact r(2))
  show "v = ''/workspace/'' @ r \<or> v = r" by (fact v)
qed

section \<open>What validation accepts\<close>

text \<open>The contract of the capability and service loops, without the hash sets.\<close>

definition valid_capability :: "string \<Rightarrow> bool" where
  "valid_capability c \<longleftrightarrow> c \<noteq> [] \<and> length c \<le> 64 \<and> (\<forall>b\<in>set c. name_byte b)"

definition valid_service :: "bool \<Rightarrow> service_spec \<Rightarrow> bool" where
  "valid_service daemon s \<longleftrightarrow>
     trim (sv_name s) \<noteq> [] \<and> (\<forall>b\<in>set (sv_name s). name_byte b)
     \<and> trim (sv_image s) \<noteq> [] \<and> \<not> has_whitespace (sv_image s)
     \<and> (daemon \<longrightarrow> contains_str (sv_image s) ''@sha256:'')
     \<and> (\<forall>a. sv_alias s = Some a \<longrightarrow> \<not> bad_alias a)
     \<and> (\<forall>h. sv_healthcheck s = Some h \<longrightarrow> \<not> bad_healthcheck h)"

definition valid_workflow :: "bool \<Rightarrow> workflow_spec \<Rightarrow> bool" where
  "valid_workflow daemon w \<longleftrightarrow>
     (\<forall>c. wf_initialize w = Some c \<longrightarrow> cs_command c \<noteq> [])
     \<and> cs_command (wf_agent w) \<noteq> []
     \<and> 1 \<le> unat (wf_max_iterations w) \<and> unat (wf_max_iterations w) \<le> 20
     \<and> is_ok (validate_feedback_file (wf_feedback_file w))
     \<and> (\<forall>v\<in>set (wf_verifiers w). trim (vs_name v) \<noteq> [] \<and> vs_command v \<noteq> [])
     \<and> length (wf_services w) \<le> 16
     \<and> (\<forall>s\<in>set (wf_services w). valid_service daemon s)
     \<and> distinct (map sv_name (wf_services w))"

definition valid_secret :: "secret_spec \<Rightarrow> bool" where
  "valid_secret s \<longleftrightarrow>
     ss_name s \<noteq> [] \<and> length (ss_name s) \<le> 128 \<and> (\<forall>b\<in>set (ss_name s). secret_byte b)
     \<and> length (ss_value s) \<le> 65536
     \<and> (\<forall>r. ss_secret_ref s = Some r \<longrightarrow> ss_value s = [] \<and> r \<noteq> [] \<and> length r \<le> 512)"

definition valid_job :: "bool \<Rightarrow> job_spec \<Rightarrow> bool" where
  "valid_job daemon spec \<longleftrightarrow>
     (js_api_version spec = ''ai-kodu-runner.dev/v1alpha1''
       \<or> js_api_version spec = ''ai-kodu-runner.dev/v1beta1'' \<and> js_execution spec \<noteq> None)
     \<and> js_executor spec = ''docker''
     \<and> (\<forall>e. js_execution spec = Some e \<longrightarrow>
          length (er_capabilities e) \<le> 32 \<and> distinct (er_capabilities e)
          \<and> (\<forall>c\<in>set (er_capabilities e). valid_capability c))
     \<and> (case js_workflow spec of None \<Rightarrow> js_command spec \<noteq> [] | Some w \<Rightarrow> valid_workflow daemon w)
     \<and> trim (js_image spec) \<noteq> [] \<and> \<not> has_whitespace (js_image spec)
     \<and> (daemon \<longrightarrow> contains_str (js_image spec) ''@sha256:'')
     \<and> js_network_mode spec \<in> {''bridge'', ''none''}
     \<and> length (js_secrets spec) \<le> 32
     \<and> (\<forall>s\<in>set (js_secrets spec). valid_secret s)"

lemma check_capabilities_ok:
  "check_capabilities seen cs = Inr u \<longleftrightarrow>
     distinct cs \<and> set cs \<inter> set seen = {} \<and> (\<forall>c\<in>set cs. valid_capability c)"
  by (induction cs arbitrary: seen)
     (auto simp: valid_capability_def list_all_iff)

lemma check_services_ok:
  "check_services daemon seen ss = Inr u \<longleftrightarrow>
     distinct (map sv_name ss) \<and> sv_name ` set ss \<inter> set seen = {}
     \<and> (\<forall>s\<in>set ss. valid_service daemon s)"
proof (induction ss arbitrary: seen)
  case (Cons s ss)
  have "check_services daemon seen (s # ss) = Inr u \<longleftrightarrow>
          valid_service daemon s \<and> sv_name s \<notin> set seen
          \<and> check_services daemon (sv_name s # seen) ss = Inr u"
    by (auto simp: valid_service_def list_all_iff split: option.splits)
  with Cons.IH show ?case by auto
qed simp

lemma check_workflow_ok: "check_workflow daemon w = Inr u \<longleftrightarrow> valid_workflow daemon w"
proof -
  have it: "(n = 0 \<or> n > 20) \<longleftrightarrow> \<not> (1 \<le> unat n \<and> unat n \<le> 20)" for n :: u32
    by (simp add: word_less_nat_alt unat_eq_zero [symmetric] del: unat_eq_zero) linarith
  show ?thesis
    unfolding check_workflow_def valid_workflow_def it is_ok_iff
    by (auto simp: check_services_ok list_ex_iff split: option.splits)
qed

lemma check_secret_ok: "check_secret s = Inr u \<longleftrightarrow> valid_secret s"
  by (auto simp: check_secret_def valid_secret_def list_all_iff split: option.splits)

lemma check_execution_ok:
  "check_execution x = Inr u \<longleftrightarrow>
     (\<forall>e. x = Some e \<longrightarrow> length (er_capabilities e) \<le> 32 \<and> distinct (er_capabilities e)
        \<and> (\<forall>c\<in>set (er_capabilities e). valid_capability c))"
  by (cases x) (auto simp: check_execution_def check_capabilities_ok)

lemma for_each_secrets_ok:
  "for_each ss check_secret = Inr u \<longleftrightarrow> (\<forall>s\<in>set ss. valid_secret s)"
  by (simp add: for_each_ok unit_result_ok [symmetric] check_secret_ok)

lemma validate_job_ok: "validate_job spec daemon = Inr u \<longleftrightarrow> valid_job daemon spec"
  unfolding validate_job_def valid_job_def
  by (cases "js_workflow spec")
     (auto simp: check_execution_ok check_workflow_ok for_each_secrets_ok)

lemma valid_service_mono: "valid_service True s \<Longrightarrow> valid_service d s"
  by (simp add: valid_service_def)

lemma valid_job_mono: "valid_job True spec \<Longrightarrow> valid_job d spec"
  by (auto simp: valid_job_def valid_workflow_def intro: valid_service_mono split: option.splits)

section \<open>A concrete job\<close>

text \<open>
  A job in the shape of the repository's \<^verbatim>\<open>v1beta1\<close> fixture, with a digest-pinned image, a
  workflow and a secret; the witnesses below and in the other theories evaluate on it.
\<close>

definition sample_workflow :: workflow_spec where
  "sample_workflow =
     \<lparr> wf_setup = [], wf_services = [],
       wf_initialize = None,
       wf_agent = \<lparr> cs_command = [''agent''], cs_working_directory = None \<rparr>,
       wf_verifiers = [\<lparr> vs_name = ''tests'', vs_command = [''ci''], vs_working_directory = None,
                         vs_required = True \<rparr>],
       wf_max_iterations = default_max_iterations,
       wf_feedback_file = default_feedback_file,
       wf_publish = None \<rparr>"

definition sample_resources :: resources where
  "sample_resources = \<lparr> cpu = Fin 1, memory_mb = 256, pids = 64, timeout_seconds = 60 \<rparr>"

definition sample_beta :: job_spec_v1beta1 where
  "sample_beta =
     \<lparr> jb_api_version = ''ai-kodu-runner.dev/v1beta1'',
       jb_id = ''fixture-beta-job'',
       jb_attempt = 1,
       jb_image = ''example/runner@sha256:aa'',
       jb_command = [''true''],
       jb_working_directory = ''/workspace'',
       jb_workspace = Local ''.'',
       jb_environment_from_runner = [],
       jb_secrets = [\<lparr> ss_name = ''MODEL_KEY'', ss_value = ''hunter2'', ss_secret_ref = None \<rparr>],
       jb_resources = sample_resources,
       jb_network_mode = ''none'',
       jb_artifacts = [],
       jb_writable_rootfs = False,
       jb_workflow = Some sample_workflow,
       jb_execution = \<lparr> er_isolation = Container, er_capabilities = [''artifacts'', ''streaming_logs''] \<rparr> \<rparr>"

definition sample_job :: job_spec where
  "sample_job = job_spec_from sample_beta"

lemmas sample_defs = sample_job_def sample_beta_def sample_workflow_def sample_resources_def
  job_spec_from_def default_max_iterations_def default_feedback_file_def

lemma sample_feedback: "validate_feedback_file ''/workspace/.runner/feedback.md'' = Inr ''.runner/feedback.md''"
  by code_simp

lemma sample_job_valid: "validate_job sample_job True = Inr ()"
proof -
  have image: "trim ''example/runner@sha256:aa'' \<noteq> []" "\<not> has_whitespace ''example/runner@sha256:aa''"
    "contains_str ''example/runner@sha256:aa'' ''@sha256:''"
    by code_simp+
  have names: "trim ''tests'' \<noteq> []"
    by code_simp
  show ?thesis
    unfolding validate_job_def sample_defs
    by (simp add: image names check_execution_def check_workflow_def check_secret_def bail_if_def
        sample_feedback name_byte_def secret_byte_def is_ascii_alphanumeric_def)
qed

section \<open>Properties\<close>


text \<open>
  C2: A job accepted from the control plane pins its own image and the image of every
  workflow service by digest, bounds the agent loop by 20 iterations, and is also valid as a
  local job (the executor validates it again in the local context).
\<close>

theorem daemon_jobs_are_pinned:
  assumes "validate_job spec True = Inr ()"
  shows "contains_str (js_image spec) ''@sha256:''
    \<and> (\<forall>w. js_workflow spec = Some w \<longrightarrow>
         unat (wf_max_iterations w) \<in> {1..20}
         \<and> (\<forall>s\<in>set (wf_services w). contains_str (sv_image s) ''@sha256:''))
    \<and> validate_job spec False = Inr ()"
proof -
  from assms have v: "valid_job True spec" by (simp add: validate_job_ok)
  then have "valid_job False spec" by (rule valid_job_mono)
  with v show ?thesis
    by (auto simp: validate_job_ok valid_job_def valid_workflow_def valid_service_def)
qed

theorem daemon_jobs_are_pinned_witness:
  "validate_job sample_job True = Inr () \<and> validate_job sample_job False = Inr ()"
  using daemon_jobs_are_pinned [OF sample_job_valid] sample_job_valid by blast

text \<open>
  Wherever the workspace root is, a feedback path that \<open>validate_feedback_file\<close> accepts,
  joined to the root, has the root's components followed by at least one plain name and
  nothing else: no parent, current or root directory, so the write stays in the workspace.
\<close>

theorem feedback_file_contained:
  assumes "validate_feedback_file value = Inr relative"
    and "base \<noteq> []" and "\<not> ends_with base ''/''"
  shows "\<exists>cs. components (path_join base relative) = components base @ cs \<and> stays_below cs"
proof -
  note ok = validate_feedback_file_ok [OF assms(1)]
  show ?thesis
    using components_join [OF ok(2,3) assms(2,3)] ok(1) by blast
qed

theorem feedback_file_contained_witness:
  "\<exists>cs. components (path_join ''/srv/job'' ''.runner/feedback.md'') = components ''/srv/job'' @ cs
     \<and> stays_below cs"
proof -
  have "\<not> ends_with ''/srv/job'' ''/''" by code_simp
  with feedback_file_contained [OF sample_feedback] show ?thesis by simp
qed

text \<open>
  The error summary of a job that did not complete is the trimmed last non-blank line of
  standard error (of standard output when standard error is blank), cut to 500 code points;
  there is none for a completed job or when every line is blank.
\<close>

theorem error_summary_iff:
  "error_summary status stdout stderr = Some m \<longleftrightarrow>
     status \<noteq> ''completed''
     \<and> (\<exists>pre line post. lines (if trim stderr = [] then stdout else stderr) = pre @ line # post
          \<and> trim line \<noteq> [] \<and> list_all (\<lambda>l. trim l = []) post
          \<and> m = take_chars 500 (trim line) \<and> m \<noteq> [] \<and> length (rust_chars m) \<le> 500)"
proof -
  let ?src = "if trim stderr = [] then stdout else stderr"
  have "error_summary status stdout stderr = Some m \<longleftrightarrow> status \<noteq> ''completed''
      \<and> (\<exists>line. List.find (\<lambda>line. trim line \<noteq> []) (rev (lines ?src)) = Some line
             \<and> m = take_chars 500 (trim line))"
    by (cases "List.find (\<lambda>line. trim line \<noteq> []) (rev (lines ?src))")
       (auto simp: error_summary_def)
  moreover have "take_chars 500 (trim line) \<noteq> [] \<and> length (rust_chars (take_chars 500 (trim line))) \<le> 500"
    if "trim line \<noteq> []" for line
    using that by (simp add: take_chars_nonempty length_take_chars)
  ultimately show ?thesis
    unfolding find_last_split not_not by blast
qed

text \<open>
  When the derived decoders read the version they store from the document's
  \<^verbatim>\<open>api_version\<close> member, every job that \<open>from_json\<close> returns carries one of the two supported
  versions, and a \<^verbatim>\<open>v1beta1\<close> job always names the Docker executor and its execution
  requirements, whatever the document says about an executor.
\<close>

theorem from_json_supported:
  assumes alpha: "\<And>v s. decode_alpha v = Inr s \<Longrightarrow> json_get v ''api_version'' = Some (JStr (js_api_version s))"
    and beta: "\<And>v s. decode_beta v = Inr s \<Longrightarrow> json_get v ''api_version'' = Some (JStr (jb_api_version s))"
    and ok: "from_json parse decode_alpha decode_beta document = Inr spec"
  shows "js_api_version spec = ''ai-kodu-runner.dev/v1alpha1''
    \<or> js_api_version spec = ''ai-kodu-runner.dev/v1beta1''
      \<and> js_executor spec = ''docker'' \<and> js_execution spec \<noteq> None"
proof -
  let ?alpha = "''ai-kodu-runner.dev/v1alpha1''" and ?beta = "''ai-kodu-runner.dev/v1beta1''"
  from ok obtain v where k: "(case Option.bind (json_get v ''api_version'') json_as_str of
      Some version \<Rightarrow>
        if version = ?alpha then with_context ''parse v1alpha1 job JSON'' (decode_alpha v)
        else if version = ?beta then
          bind_result (with_context ''parse v1beta1 job JSON'' (decode_beta v)) (\<lambda>spec. Inr (job_spec_from spec))
        else Inl (Bail (''unsupported api_version: '' @ version))
    | None \<Rightarrow> Inl (Bail ''missing api_version'')) = Inr spec"
    unfolding from_json_def bind_result_ok by blast
  then obtain version where v: "Option.bind (json_get v ''api_version'') json_as_str = Some version"
    by (cases "Option.bind (json_get v ''api_version'') json_as_str") simp_all
  from k have d: "version = ?alpha \<and> decode_alpha v = Inr spec
      \<or> version = ?beta \<and> (\<exists>b. decode_beta v = Inr b \<and> spec = job_spec_from b)"
    unfolding v by (cases "version = ?alpha"; cases "version = ?beta") (simp_all, blast)
  from v have version: "json_get v ''api_version'' = Some (JStr version)"
    by (auto simp: bind_eq_Some_conv)
  from d show ?thesis
  proof
    assume "version = ''ai-kodu-runner.dev/v1alpha1'' \<and> decode_alpha v = Inr spec"
    with version alpha [of v spec] show ?thesis by simp
  next
    assume "version = ''ai-kodu-runner.dev/v1beta1'' \<and> (\<exists>b. decode_beta v = Inr b \<and> spec = job_spec_from b)"
    then obtain b where "decode_beta v = Inr b" "spec = job_spec_from b"
      and "version = ''ai-kodu-runner.dev/v1beta1''" by blast
    with version beta [of v b] show ?thesis by (simp add: job_spec_from_def)
  qed
qed

definition sample_document :: json where
  "sample_document = JObj [(''api_version'', JStr ''ai-kodu-runner.dev/v1beta1'')]"

theorem from_json_supported_witness:
  "from_json (\<lambda>d. Inr sample_document) (\<lambda>v. Inl (Bail ''not alpha''))
     (\<lambda>v. if json_get v ''api_version'' = Some (JStr (jb_api_version sample_beta))
          then Inr sample_beta else Inl (Bail ''not beta'')) ''{}'' = Inr sample_job
   \<and> js_executor sample_job = ''docker'' \<and> js_execution sample_job \<noteq> None"
proof -
  let ?a = "\<lambda>v :: json. Inl (Bail ''not alpha'') :: job_spec result"
  let ?b = "\<lambda>v. if json_get v ''api_version'' = Some (JStr (jb_api_version sample_beta))
          then Inr sample_beta else Inl (Bail ''not beta'')"
  have run: "from_json (\<lambda>d. Inr sample_document) ?a ?b ''{}'' = Inr sample_job"
    by (simp add: from_json_def with_context_def sample_document_def sample_beta_def sample_job_def)
  have "js_api_version sample_job = ''ai-kodu-runner.dev/v1alpha1''
    \<or> js_api_version sample_job = ''ai-kodu-runner.dev/v1beta1''
      \<and> js_executor sample_job = ''docker'' \<and> js_execution sample_job \<noteq> None"
    by (rule from_json_supported [OF _ _ run]) (auto split: if_splits)
  moreover have "js_api_version sample_job \<noteq> ''ai-kodu-runner.dev/v1alpha1''"
    by (simp add: sample_defs)
  ultimately show ?thesis using run by blast
qed

end
