(* ===== verification/Lifecycle.thy ===== *)
theory Lifecycle
  imports Rust_String
begin

text \<open>
  The job lifecycle of \<^verbatim>\<open>crates/runner-core/src/state.rs\<close>: the states, their names in the
  journal, the inverse used for a final status, and the transition relation. The states are
  ordered by their position in the lifecycle, and every valid transition climbs.
\<close>

datatype state =
  Received | Preparing | Running | Collecting | Completed | Failed | Cancelled | TimedOut
  | Destroying | Destroyed

fun as_str :: "state \<Rightarrow> string" where
  "as_str Received = ''received''"
| "as_str Preparing = ''preparing''"
| "as_str Running = ''running''"
| "as_str Collecting = ''collecting''"
| "as_str Completed = ''completed''"
| "as_str Failed = ''failed''"
| "as_str Cancelled = ''cancelled''"
| "as_str TimedOut = ''timed_out''"
| "as_str Destroying = ''destroying''"
| "as_str Destroyed = ''destroyed''"

definition from_str :: "string \<Rightarrow> state" where
  "from_str s =
     (if s = ''completed'' then Completed
      else if s = ''cancelled'' then Cancelled
      else if s = ''timed_out'' then TimedOut
      else Failed)"

definition valid_transition :: "state \<Rightarrow> state \<Rightarrow> bool" where
  "valid_transition before after =
     ((before, after) \<in> set
       [(Received, Preparing),
        (Preparing, Running),
        (Preparing, Failed),
        (Running, Collecting),
        (Running, Cancelled),
        (Running, TimedOut),
        (Running, Failed),
        (Collecting, Completed),
        (Collecting, Failed),
        (Completed, Destroying),
        (Failed, Destroying),
        (Cancelled, Destroying),
        (TimedOut, Destroying),
        (Destroying, Destroyed)])"

definition is_outcome :: "state \<Rightarrow> bool" where
  "is_outcome s \<longleftrightarrow> s \<in> {Completed, Failed, Cancelled, TimedOut}"

section \<open>The order of the lifecycle\<close>

fun state_index :: "state \<Rightarrow> nat" where
  "state_index Received = 0"
| "state_index Preparing = 1"
| "state_index Running = 2"
| "state_index Collecting = 3"
| "state_index Completed = 4"
| "state_index Failed = 5"
| "state_index Cancelled = 6"
| "state_index TimedOut = 7"
| "state_index Destroying = 8"
| "state_index Destroyed = 9"

lemma state_index_bound: "state_index s < 10"
  by (cases s) simp_all

lemma state_index_inj: "state_index s = state_index t \<Longrightarrow> s = t"
  by (cases s; cases t) simp_all

instantiation state :: linorder
begin

definition less_eq_state :: "state \<Rightarrow> state \<Rightarrow> bool" where
  "less_eq_state s t \<longleftrightarrow> state_index s \<le> state_index t"

definition less_state :: "state \<Rightarrow> state \<Rightarrow> bool" where
  "less_state s t \<longleftrightarrow> state_index s < state_index t"

instance
  by standard (auto simp: less_eq_state_def less_state_def dest: state_index_inj)

end

lemma valid_transition_less: "valid_transition s t \<Longrightarrow> s < t"
  by (cases s; cases t) (simp_all add: less_state_def valid_transition_def)

section \<open>Runs\<close>

inductive lifecycle_run :: "state \<Rightarrow> state list \<Rightarrow> state \<Rightarrow> bool" where
  stop: "lifecycle_run s [s] s"
| step: "valid_transition s t \<Longrightarrow> lifecycle_run t ss u \<Longrightarrow> lifecycle_run s (s # ss) u"

inductive_cases lifecycle_runE: "lifecycle_run s ss u"

inductive_simps lifecycle_run_Cons: "lifecycle_run s (x # xs) u"

lemma lifecycle_run_hd: "lifecycle_run s ss u \<Longrightarrow> ss \<noteq> [] \<and> hd ss = s \<and> last ss = u"
  by (induction rule: lifecycle_run.induct) auto

lemma lifecycle_run_ge: "lifecycle_run s ss u \<Longrightarrow> x \<in> set ss \<Longrightarrow> s \<le> x"
  by (induction rule: lifecycle_run.induct)
     (auto dest!: valid_transition_less intro: less_imp_le less_le_trans)

lemma lifecycle_run_sorted: "lifecycle_run s ss u \<Longrightarrow> sorted_wrt (<) ss"
  by (induction rule: lifecycle_run.induct)
     (auto dest!: valid_transition_less lifecycle_run_ge intro: less_le_trans)

lemma outcome_before_destroying: "is_outcome x \<Longrightarrow> x < Destroying"
  by (auto simp: is_outcome_def less_state_def)

text \<open>From the start, the only ways into \<open>Destroying\<close> are the four outcomes.\<close>

lemma destroying_pred: "valid_transition s Destroying \<Longrightarrow> is_outcome s"
  by (cases s) (simp_all add: is_outcome_def valid_transition_def)

lemma lifecycle_run_outcome:
  "lifecycle_run s ss u \<Longrightarrow> u = Destroyed \<Longrightarrow> s \<notin> {Destroying, Destroyed}
   \<Longrightarrow> \<exists>x\<in>set ss. is_outcome x"
proof (induction rule: lifecycle_run.induct)
  case (step s t ss u)
  show ?case
  proof (cases "t \<in> {Destroying, Destroyed}")
    case True
    with step.hyps(1) step.prems(2) have "is_outcome s"
      by (cases s; cases t) (auto simp: is_outcome_def valid_transition_def)
    then show ?thesis by simp
  next
    case False
    with step.IH step.prems(1) show ?thesis by auto
  qed
qed simp

section \<open>Properties\<close>

text \<open>
  Every run of the transition relation is finite and visits each state at most once (the
  lifecycle order strictly increases), and a run from any state before destruction that
  reaches \<open>Destroyed\<close> passes exactly one of the four outcomes.
\<close>

theorem lifecycle_reaches_one_outcome:
  assumes "lifecycle_run s ss Destroyed" and "s \<notin> {Destroying, Destroyed}"
  shows "distinct ss \<and> length ss \<le> 10 \<and> length (filter is_outcome ss) = 1"
proof -
  from assms(1) have sorted: "sorted_wrt (<) ss" by (rule lifecycle_run_sorted)
  then have "sorted_wrt (<) (map state_index ss)"
    by (simp add: sorted_wrt_map less_state_def [abs_def])
  then have d: "distinct (map state_index ss)"
    by (simp add: strict_sorted_iff)
  have "set (map state_index ss) \<subseteq> {..<10}"
    by (auto simp: state_index_bound)
  then have "length ss \<le> 10"
    using distinct_card [OF d] card_mono [of "{..<10::nat}" "set (map state_index ss)"] by simp
  moreover have "length (filter is_outcome ss) \<le> 1"
    using assms(1)
  proof (induction rule: lifecycle_run.induct)
    case (step s t ss u)
    show ?case
    proof (cases "is_outcome s")
      case True
      with step.hyps(1) have "t = Destroying" by (cases s; cases t) (auto simp: is_outcome_def valid_transition_def)
      with step.hyps(2) have "filter is_outcome ss = []"
        unfolding filter_empty_conv
        using lifecycle_run_ge outcome_before_destroying leD by blast
      with True show ?thesis by simp
    qed (use step.IH in simp)
  qed simp
  moreover have "filter is_outcome ss \<noteq> []"
    using lifecycle_run_outcome [OF assms(1) refl assms(2)] by (auto simp: filter_empty_conv)
  ultimately show ?thesis
    using d by (simp add: distinct_map le_Suc_eq)
qed

lemma sample_run:
  "lifecycle_run Received [Received, Preparing, Running, Collecting, Completed, Destroying, Destroyed] Destroyed"
  by (simp add: lifecycle_run_Cons lifecycle_run.simps [of _ "[]"] valid_transition_def)

theorem lifecycle_reaches_one_outcome_witness:
  "length (filter is_outcome
     [Received, Preparing, Running, Collecting, Completed, Destroying, Destroyed]) = 1"
  using lifecycle_reaches_one_outcome [OF sample_run] by simp

text \<open>
  \<open>from_str\<close> inverts \<open>as_str\<close> exactly on the four outcomes, and sends every other text,
  other journal states included, to \<open>Failed\<close>; state names are pairwise different.
\<close>

theorem from_str_as_str:
  "(from_str (as_str s) = s \<longleftrightarrow> is_outcome s)
   \<and> (as_str s = as_str t \<longleftrightarrow> s = t)
   \<and> is_outcome (from_str text)"
  by (cases s; cases t) (simp_all add: from_str_def is_outcome_def)

end
