(* ===== verification/Runner_Config.thy ===== *)
theory Runner_Config
  imports Protocol
begin

text \<open>
  The configuration of \<^verbatim>\<open>crates/runner-core/src/config.rs\<close>: the configuration records, the
  check of the Docker platform, loading, the local default and the resolution of the runner
  token. The file system, the TOML decoder, the environment, the random UUID and the
  \<^verbatim>\<open>{:?}\<close> rendering of a string are arguments.
\<close>

section \<open>Data\<close>

record docker_config =
  dc_host :: "string option"
  dc_pull_policy :: "string option"
  dc_platform :: string

record limits =
  max_cpu :: f64
  max_memory_mb :: int
  max_pids :: int
  max_timeout_seconds :: u64
  max_log_bytes :: u64
  max_artifact_bytes :: u64
  max_artifact_files :: u64
  max_workspace_bytes :: u64
  max_workspace_files :: u64
  max_archive_download_bytes :: u64

record security_config =
  allow_network :: bool
  allow_privileged :: bool
  allow_host_mounts :: bool
  allowed_environment :: "string list"
  mandatory_verifiers :: "command_spec list"

record runner_config =
  rc_server_url :: "string option"
  rc_runner_token :: "string option"
  rc_name :: "string option"
  rc_runner_id :: string
  rc_work_dir :: string
  rc_concurrency :: "u64 option"
  rc_docker :: docker_config
  rc_limits :: limits
  rc_security :: security_config

type_synonym env = "string \<Rightarrow> string option"

section \<open>Operations\<close>

definition default_max_artifact_files :: u64 where
  "default_max_artifact_files = 10000"

definition default_max_workspace_bytes :: u64 where
  "default_max_workspace_bytes = 1024 * 1024 * 1024"

definition default_max_workspace_files :: u64 where
  "default_max_workspace_files = 100000"

definition default_max_archive_download_bytes :: u64 where
  "default_max_archive_download_bytes = 512 * 1024 * 1024"

definition default_platform :: string where
  "default_platform = ''linux/amd64''"

definition platform_from_env :: "env \<Rightarrow> string" where
  "platform_from_env env = (case env ''RUNNER_PLATFORM'' of Some p \<Rightarrow> p | None \<Rightarrow> default_platform)"

definition validate_platform :: "(string \<Rightarrow> string) \<Rightarrow> string \<Rightarrow> unit result" where
  "validate_platform debug platform =
     (let parts = split_on slash platform in
      bail_if (\<not> (length parts = 2 \<or> length parts = 3)
               \<or> list_ex (\<lambda>part. part = [] \<or> has_whitespace part) parts)
        (''invalid Docker platform '' @ debug platform @
         ''; expected os/architecture or os/architecture/variant'')
        (Inr ()))"

definition load ::
  "(string \<Rightarrow> string) \<Rightarrow> (string \<Rightarrow> string result) \<Rightarrow> (string \<Rightarrow> runner_config result) \<Rightarrow> env \<Rightarrow> string
   \<Rightarrow> string \<Rightarrow> runner_config result" where
  "load debug read_to_string toml_from_str env uuid path =
     bind_result (with_context (''read config '' @ path) (read_to_string path)) (\<lambda>text.
     bind_result (with_context ''parse runner.toml'' (toml_from_str text)) (\<lambda>config.
       let config = (case env ''RUNNER_PLATFORM'' of
             Some platform \<Rightarrow> config\<lparr> rc_docker := (rc_docker config)\<lparr> dc_platform := platform \<rparr> \<rparr>
           | None \<Rightarrow> config);
           config = config\<lparr> rc_runner_id := (case rc_name config of Some n \<Rightarrow> n | None \<Rightarrow> uuid) \<rparr>
       in bind_result (validate_platform debug (dc_platform (rc_docker config))) (\<lambda>_. Inr config)))"

definition default_local :: "env \<Rightarrow> string option \<Rightarrow> runner_config" where
  "default_local env current_dir =
     \<lparr> rc_server_url = None,
       rc_runner_token = None,
       rc_name = Some ''local'',
       rc_runner_id = ''local'',
       rc_work_dir = (case current_dir of Some d \<Rightarrow> d | None \<Rightarrow> ''.''),
       rc_concurrency = Some 1,
       rc_docker = \<lparr> dc_host = Some ''auto'', dc_pull_policy = Some ''if-not-present'',
                     dc_platform = platform_from_env env \<rparr>,
       rc_limits = \<lparr> max_cpu = Fin 4, max_memory_mb = 8192, max_pids = 512,
                     max_timeout_seconds = 3600,
                     max_log_bytes = 50 * 1024 * 1024,
                     max_artifact_bytes = 500 * 1024 * 1024,
                     max_artifact_files = default_max_artifact_files,
                     max_workspace_bytes = default_max_workspace_bytes,
                     max_workspace_files = default_max_workspace_files,
                     max_archive_download_bytes = default_max_archive_download_bytes \<rparr>,
       rc_security = \<lparr> allow_network = True, allow_privileged = False, allow_host_mounts = False,
                       allowed_environment = [], mandatory_verifiers = [] \<rparr> \<rparr>"

definition resolve_token :: "env \<Rightarrow> runner_config \<Rightarrow> string option result" where
  "resolve_token env config =
     (case rc_runner_token config of
        None \<Rightarrow> Inr None
      | Some v \<Rightarrow>
          (case strip_prefix v ''env:'' of
             None \<Rightarrow> Inr (Some v)
           | Some n \<Rightarrow>
               bind_result (ok_or (env n) (Context (''missing secret environment variable '' @ n)
                                             (Bail ''environment variable not found'')))
                 (\<lambda>x. Inr (Some x))))"

section \<open>Properties\<close>

text \<open>
  A configuration that loads names a platform of two or three non-empty segments without
  whitespace; a \<^verbatim>\<open>RUNNER_PLATFORM\<close> in the environment wins over the file, the runner id is
  the configured name when there is one, and nothing else of the decoded file is changed.
\<close>

theorem load_effect:
  assumes "load debug read_to_string toml_from_str env uuid path = Inr config"
  shows "(\<exists>contents decoded. read_to_string path = Inr contents \<and> toml_from_str contents = Inr decoded \<and>
      config = decoded\<lparr> rc_runner_id := (case rc_name decoded of Some n \<Rightarrow> n | None \<Rightarrow> uuid),
        rc_docker := (rc_docker decoded)\<lparr> dc_platform := (case env ''RUNNER_PLATFORM'' of
                         Some p \<Rightarrow> p | None \<Rightarrow> dc_platform (rc_docker decoded)) \<rparr> \<rparr>) \<and>
    (let parts = split_on slash (dc_platform (rc_docker config)) in
       length parts \<in> {2, 3} \<and> list_all (\<lambda>part. part \<noteq> [] \<and> \<not> has_whitespace part) parts)"
proof -
  from assms obtain contents decoded where r: "read_to_string path = Inr contents" "toml_from_str contents = Inr decoded"
    and v: "validate_platform debug (dc_platform (rc_docker config)) = Inr ()"
    and c: "config = decoded\<lparr> rc_runner_id := (case rc_name decoded of Some n \<Rightarrow> n | None \<Rightarrow> uuid),
        rc_docker := (rc_docker decoded)\<lparr> dc_platform := (case env ''RUNNER_PLATFORM'' of
                         Some p \<Rightarrow> p | None \<Rightarrow> dc_platform (rc_docker decoded)) \<rparr> \<rparr>"
    by (cases "env ''RUNNER_PLATFORM''")
       (auto simp: load_def with_context_def Let_def bind_result_def split: sum.splits)
  from v have "let parts = split_on slash (dc_platform (rc_docker config)) in
       length parts \<in> {2, 3} \<and> list_all (\<lambda>part. part \<noteq> [] \<and> \<not> has_whitespace part) parts"
    by (auto simp: validate_platform_def Let_def list_all_iff list_ex_iff bail_if_def split: if_splits)
  with r c show ?thesis by blast
qed

definition sample_config :: runner_config where
  "sample_config = (default_local (\<lambda>_. None) (Some ''/srv/work''))
     \<lparr> rc_name := Some ''runner-1'', rc_runner_id := ''runner-1'',
       rc_security := \<lparr> allow_network = True, allow_privileged = False, allow_host_mounts = False,
                        allowed_environment = [''MODEL_KEY'', ''PATH''], mandatory_verifiers = [] \<rparr> \<rparr>"

lemma sample_load:
  "load (\<lambda>s. s) (\<lambda>_. Inr ''toml'') (\<lambda>_. Inr sample_config) (\<lambda>_. None) ''uuid'' ''runner.toml''
     = Inr (sample_config\<lparr> rc_runner_id := ''runner-1'' \<rparr>)"
proof -
  have "validate_platform (\<lambda>s. s) ''linux/amd64'' = Inr ()" by code_simp
  then show ?thesis
    by (simp add: load_def with_context_def sample_config_def default_local_def platform_from_env_def
        default_platform_def)
qed

theorem load_effect_witness:
  "let parts = split_on slash (dc_platform (rc_docker (sample_config\<lparr> rc_runner_id := ''runner-1'' \<rparr>))) in
     length parts \<in> {2, 3} \<and> list_all (\<lambda>part. part \<noteq> [] \<and> \<not> has_whitespace part) parts"
  using load_effect [OF sample_load] by blast

end
