(* ===== verification/Host.thy ===== *)
theory Host
  imports Protocol Lifecycle Runner_Config
begin

text \<open>
  The outside world of the executor: file system, processes, network, clock and cancellation.
  The model keeps the list of the calls made so far; the answer to a call is an arbitrary
  function of that history, the call itself included, so one environment \<open>outside\<close> stands
  for one behaviour of everything the runner does not control, and a theorem for all
  environments covers every behaviour. Third-party crates (the directory walker, the tar
  reader, the URL parser, the HTTP client) are fields of the environment too.
\<close>

section \<open>Data exchanged with the outside\<close>

record process =
  pr_args :: "string list"
  pr_dir :: string
  pr_env :: "(string \<times> string) list"

record process_output =
  po_code :: "int option"
  po_stdout :: string
  po_stderr :: string

definition success :: "process_output \<Rightarrow> bool" where
  "success output = (po_code output = Some 0)"

text \<open>Which branch of a \<^verbatim>\<open>tokio::select!\<close> on work, cancellation and deadline completes.\<close>

datatype 'a selected = Ready 'a | CancelledFirst | DeadlineFirst

datatype file_kind = IsFile | IsDirectory | IsSymlink | IsOtherKind

record walk_entry =
  we_path :: string
  we_kind :: file_kind
  we_len :: "u64 result"

datatype tar_kind =
  TarRegular | TarDirectory | TarSymlink | TarHardLink | TarBlock | TarChar | TarFifo | TarOther

record tar_entry =
  te_path :: "string result"
  te_kind :: tar_kind
  te_size :: u64

record response =
  rs_status :: "unit result"
  rs_content_length :: "u64 option"

text \<open>What \<^verbatim>\<open>symlink_metadata\<close> says of a path, and what a bounded channel says of a message.\<close>

datatype lstat = LstatOk file_kind | LstatNotFound | LstatError error

datatype sent = SentOk | SentClosed | SentFull

section \<open>Data of the Docker API\<close>

text \<open>The options of a container that the runner sets; the others keep Docker's defaults.\<close>

record container_config =
  cc_name :: string
  cc_platform :: string
  cc_image :: string
  cc_cmd :: "string list option"
  cc_working_dir :: "string option"
  cc_env :: "string list"
  cc_labels :: "(string \<times> string) list"
  cc_endpoint :: "(string \<times> string list) option"
  cc_healthcheck :: "string list option"
  cc_binds :: "string list"
  cc_network_mode :: "string option"
  cc_memory :: int
  cc_nano_cpus :: int
  cc_pids_limit :: int
  cc_cap_drop :: "string list"
  cc_security_opt :: "string list"
  cc_readonly_rootfs :: bool
  cc_tmpfs :: "(string \<times> string) list"

record network_config =
  nc_name :: string
  nc_labels :: "(string \<times> string) list"

record container_info =
  ci_exit_code :: "int option"
  ci_image :: "string option"

record container_summary =
  cs_id :: "string option"
  cs_state :: "string option"

record network_summary =
  ns_id :: "string option"
  ns_containers :: "string list option"

datatype log_output = StdOut string | StdErr string | OtherOutput

text \<open>
  A request to the control plane, its JSON body as the value that is serialized, and the
  answer with its body as raw text.
\<close>

datatype http_body = EmptyBody | JsonBody json | ResultBody job_result | ChunkBody log_chunk

record http_request =
  hq_url :: string
  hq_headers :: "(string \<times> string) list"
  hq_body :: http_body

record http_response =
  hp_status :: nat
  hp_body :: string

text \<open>How waiting for the task that uploads the log ends.\<close>

datatype flushed = FlushedWith bool | FlushPanicked | FlushTimedOut

datatype exec_start = Attached "log_output result selected list" | Detached

section \<open>Calls and the environment\<close>

datatype call =
    TempDir
  | RunProcess process
  | IsDir string
  | ReadText string
  | WriteText string string
  | CreateDirAll string
  | CopyFile string string
  | Walk string
  | IsCancelled
  | Now
  | HttpGet string
  | Unpack string
  | Canonicalize string
  | Lstat string
  | CreateDir string
  | TrySend log_chunk
  | NewUuid
  | UtcNow
  | UtcAfter u64
  | Sleep nat
  | OpenJournal string
  | Transition string u32 state
  | ReadUnfinished
  | PullImage string string
  | CreateNetwork network_config
  | RemoveNetwork string
  | CreateContainer container_config
  | StartContainer string
  | StopContainer string
  | RemoveContainer string
  | InspectContainer string
  | ContainerLogs string
  | CreateExec string command_spec nat
  | StartExec string
  | InspectExec string
  | ListContainers "string list"
  | ListNetworks "string list"
  | ConnectDocker
  | Ping
  | DockerVersion
  | BuildClient
  | SendRequest http_request
  | TimeoutElapsed nat
  | FlushLogs nat
  | CancelJob
  | EnqueueCompletion string u32 string string string
  | RecordAttempt string u32
  | MarkDelivered string u32
  | ReadPending
  | ReadNextAttempt string

type_synonym history = "call list"

record outside =
  o_temp_dir :: "history \<Rightarrow> string result"
  o_process :: "history \<Rightarrow> process_output result selected"
  o_is_dir :: "history \<Rightarrow> bool"
  o_read :: "history \<Rightarrow> string option"
  o_unit :: "history \<Rightarrow> unit result"
  o_walk :: "history \<Rightarrow> (string \<Rightarrow> bool) \<Rightarrow> walk_entry result list"
  o_cancelled :: "history \<Rightarrow> bool"
  o_now :: "history \<Rightarrow> nat"
  o_get :: "history \<Rightarrow> response result selected"
  o_chunks :: "history \<Rightarrow> string result selected list"
  o_url_scheme :: "string \<Rightarrow> string result"
  o_tar_entries :: "string \<Rightarrow> tar_entry result list result"
  o_len :: "string \<Rightarrow> u64 result"
  o_env :: "string \<Rightarrow> string option"
  o_realpath :: "string \<Rightarrow> string option"
  o_canonicalize :: "history \<Rightarrow> string result"
  o_lstat :: "history \<Rightarrow> lstat"
  o_send :: "history \<Rightarrow> sent"
  o_text :: "history \<Rightarrow> string"
  o_faults :: "history \<Rightarrow> nat \<Rightarrow> string option"
  o_id :: "history \<Rightarrow> string result"
  o_pull :: "history \<Rightarrow> unit result selected list"
  o_inspect :: "history \<Rightarrow> container_info result"
  o_logs :: "history \<Rightarrow> log_output result selected list"
  o_exec_create :: "history \<Rightarrow> string result selected"
  o_exec_start :: "history \<Rightarrow> exec_start result selected"
  o_exec_status :: "history \<Rightarrow> int option result"
  o_containers :: "history \<Rightarrow> container_summary list result"
  o_networks :: "history \<Rightarrow> network_summary list result"
  o_to_value :: "job_spec \<Rightarrow> json result"
  o_pretty :: "json \<Rightarrow> string result"
  o_debug :: "string list \<Rightarrow> string"
  o_version :: "history \<Rightarrow> string option result"
  o_http :: "history \<Rightarrow> http_response result"
  o_elapsed :: "history \<Rightarrow> bool"
  o_flush :: "history \<Rightarrow> flushed"
  o_result_text :: "job_result \<Rightarrow> string result"
  o_result_of_text :: "string \<Rightarrow> job_result result"
  o_parse :: "string \<Rightarrow> json result"
  o_json_text :: "json \<Rightarrow> string result"
  o_raw_lease :: "string \<Rightarrow> (string \<times> json) result"
  o_decode_alpha :: "json \<Rightarrow> job_spec result"
  o_decode_beta :: "json \<Rightarrow> job_spec_v1beta1 result"
  o_http_error :: "http_request \<Rightarrow> nat option \<Rightarrow> error"
  o_quote :: "string \<Rightarrow> string"
  o_file :: "string \<Rightarrow> string result"
  o_toml :: "string \<Rightarrow> runner_config result"
  o_current_dir :: "string option"

text \<open>
  \<open>o_text\<close> answers the calls for a fresh UUID and for the RFC 3339 text of the current time,
  \<open>o_unit\<close> those whose only answer is success or an error, \<open>o_faults\<close> what goes wrong inside a
  journal method. \<open>o_env\<close> and \<open>o_realpath\<close> are the process environment and the file system
  as they are when the policy looks at them; \<open>o_to_value\<close>, \<open>o_pretty\<close> and \<open>o_debug\<close> are the derived
  serializers and the \<^verbatim>\<open>{:?}\<close> rendering of a list of strings. \<open>o_elapsed\<close> says whether a \<^verbatim>\<open>tokio::time::timeout\<close> of the
  given length ends before the request it guards; \<open>o_result_text\<close> and \<open>o_result_of_text\<close> are the
  derived JSON encoder and decoder of results, \<open>o_parse\<close> and \<open>o_json_text\<close> those of JSON documents,
  \<open>o_raw_lease\<close>, \<open>o_decode_alpha\<close>, \<open>o_decode_beta\<close> and \<open>o_toml\<close> further derived decoders.
  \<open>o_http_error\<close> is the error the HTTP client makes of a failing status, or of a body that does
  not decode; \<open>o_quote\<close> renders a string with \<^verbatim>\<open>{:?}\<close>; \<open>o_file\<close> reads the files named on the
  command line.
\<close>

record host =
  trace :: history

definition ask :: "(history \<Rightarrow> 'a) \<Rightarrow> call \<Rightarrow> ('h host_scheme, 'a) op" where
  "ask answer c s = (let t = trace s @ [c] in (Inr (answer t), s\<lparr> trace := t \<rparr>))"

definition invoke :: "(history \<Rightarrow> 'a result) \<Rightarrow> call \<Rightarrow> ('h host_scheme, 'a) op" where
  "invoke answer c s = (let t = trace s @ [c] in (answer t, s\<lparr> trace := t \<rparr>))"

lemma ask_ok: "ask f c s = (Inr x, t) \<longleftrightarrow> t = s\<lparr> trace := trace s @ [c] \<rparr> \<and> x = f (trace s @ [c])"
  by (auto simp: ask_def Let_def)

lemma ask_not_err [simp]: "ask f c s \<noteq> (Inl e, t)"
  by (simp add: ask_def Let_def)

lemma invoke_iff: "invoke f c s = (r, t) \<longleftrightarrow> t = s\<lparr> trace := trace s @ [c] \<rparr> \<and> r = f (trace s @ [c])"
  by (auto simp: invoke_def Let_def)

section \<open>Reasoning about traces\<close>

text \<open>
  \<open>observes p m R\<close>: the operation \<open>m\<close> only appends to the trace, and \<open>R\<close> holds of what the
  observer \<open>p\<close> sees of the calls it makes and of its result. The rules follow the
  composition of operations, so that the calls of a whole handler are derived step by step.
\<close>

named_theorems observe_intros \<open>rules for the observed calls of an operation\<close>

abbreviation with_calls :: "'h host_scheme \<Rightarrow> call list \<Rightarrow> 'h host_scheme" where
  "with_calls s cs \<equiv> s\<lparr> trace := trace s @ cs \<rparr>"

definition observes ::
  "(call \<Rightarrow> 'o option) \<Rightarrow> ('h host_scheme, 'a) op \<Rightarrow> ('o list \<Rightarrow> 'a result \<Rightarrow> bool) \<Rightarrow> bool" where
  "observes p m R \<longleftrightarrow>
     (\<forall>s r t. m s = (r, t) \<longrightarrow> (\<exists>cs. trace t = trace s @ cs \<and> R (List.map_filter p cs) r))"

definition silent :: "(call \<Rightarrow> 'o option) \<Rightarrow> ('h host_scheme, 'a) op \<Rightarrow> bool" where
  "silent p m = observes p m (\<lambda>os r. os = [])"

lemma map_filter_append [simp]: "List.map_filter p (xs @ ys) = List.map_filter p xs @ List.map_filter p ys"
  by (simp add: map_filter_def)

lemma observesE:
  assumes "observes p m R" and "m s = (r, t)"
  obtains cs where "trace t = trace s @ cs" and "R (List.map_filter p cs) r"
  using assms unfolding observes_def by blast

lemma observes_mono: "observes p m Q \<Longrightarrow> (\<And>os r. Q os r \<Longrightarrow> R os r) \<Longrightarrow> observes p m R"
  unfolding observes_def by blast

lemma with_calls_Nil [simp]: "with_calls s [] = s"
  by simp

lemma observes_ret [observe_intros]: "R [] (Inr x) \<Longrightarrow> observes p (ret x) R"
  unfolding observes_def ret_def by (auto intro: exI [of _ "[]"])

lemma observes_fail [observe_intros]: "R [] (Inl e) \<Longrightarrow> observes p (fail e) R"
  unfolding observes_def fail_def by (auto intro: exI [of _ "[]"])

lemma observes_lift [observe_intros]: "R [] r \<Longrightarrow> observes p (lift r) R"
  unfolding observes_def lift_def by (auto intro: exI [of _ "[]"])

lemma observes_ask:
  assumes "\<And>h. R (case p c of None \<Rightarrow> [] | Some v \<Rightarrow> [v]) (Inr (f h))"
  shows "observes p (ask f c) R"
  unfolding observes_def
proof (intro allI impI)
  fix s r t
  assume "ask f c s = (r, t)"
  then have "trace t = trace s @ [c]" "r = Inr (f (trace s @ [c]))" by (auto simp: ask_def Let_def)
  with assms show "\<exists>cs. trace t = trace s @ cs \<and> R (List.map_filter p cs) r"
    by (intro exI [of _ "[c]"]) (auto simp: map_filter_simps split: option.splits)
qed

lemma observes_invoke:
  assumes "\<And>h. R (case p c of None \<Rightarrow> [] | Some v \<Rightarrow> [v]) (f h)"
  shows "observes p (invoke f c) R"
  unfolding observes_def
proof (intro allI impI)
  fix s r t
  assume "invoke f c s = (r, t)"
  then have "trace t = trace s @ [c]" "r = f (trace s @ [c])" by (auto simp: invoke_def Let_def)
  with assms show "\<exists>cs. trace t = trace s @ cs \<and> R (List.map_filter p cs) r"
    by (intro exI [of _ "[c]"]) (auto simp: map_filter_simps split: option.splits)
qed

lemma observes_bind:
  assumes m: "observes p m Q"
    and err: "\<And>os e. Q os (Inl e) \<Longrightarrow> R os (Inl e)"
    and ok: "\<And>os x. Q os (Inr x) \<Longrightarrow> observes p (k x) (\<lambda>os' r. R (os @ os') r)"
  shows "observes p (and_then m k) R"
  unfolding observes_def
proof (intro allI impI)
  fix s r t
  assume run: "and_then m k s = (r, t)"
  obtain r1 u where first: "m s = (r1, u)" by (cases "m s")
  from observesE [OF m first] obtain as where u: "trace u = trace s @ as" and as: "Q (List.map_filter p as) r1" .
  show "\<exists>cs. trace t = trace s @ cs \<and> R (List.map_filter p cs) r"
  proof (cases r1)
    case (Inl e)
    with run first have "r = Inl e" "t = u" by (auto simp: and_then_def)
    with Inl u as err show ?thesis by blast
  next
    case (Inr x)
    with run first have "k x u = (r, t)" by (auto simp: and_then_def)
    from observesE [OF ok [OF as [unfolded Inr]] this] obtain bs
      where "trace t = trace u @ bs" and "R (List.map_filter p as @ List.map_filter p bs) r" .
    with u show ?thesis by (intro exI [of _ "as @ bs"]) simp
  qed
qed

lemma observes_silent_bind [observe_intros]:
  assumes "silent p m" and "\<And>e. R [] (Inl e)" and "\<And>x. observes p (k x) R"
  shows "observes p (and_then m k) R"
  using assms unfolding silent_def by (elim observes_bind) simp_all

lemma observes_lift_bind:
  assumes "\<And>e. r = Inl e \<Longrightarrow> R [] (Inl e)" and "\<And>x. r = Inr x \<Longrightarrow> observes p (k x) R"
  shows "observes p (and_then (lift r) k) R"
  by (rule observes_bind [where Q = "\<lambda>os q. os = [] \<and> q = r"])
     (use assms in \<open>auto intro: observes_lift\<close>)

lemma observes_ask_bind:
  assumes "p c = None" and "\<And>h. observes p (k (f h)) R"
  shows "observes p (and_then (ask f c) k) R"
  by (rule observes_bind [where Q = "\<lambda>os q. os = [] \<and> (\<exists>h. q = Inr (f h))"])
     (use assms in \<open>auto intro!: observes_ask\<close>)

lemma observes_invoke_bind:
  assumes "p c = Some v" and "\<And>e. R [v] (Inl e)" and "\<And>x. observes p (k x) (\<lambda>os r. R (v # os) r)"
  shows "observes p (and_then (invoke f c) k) R"
  by (rule observes_bind [where Q = "\<lambda>os q. os = [v]"])
     (use assms in \<open>auto intro: observes_invoke\<close>)

lemma observes_if [observe_intros]:
  "(b \<Longrightarrow> observes p m R) \<Longrightarrow> (\<not> b \<Longrightarrow> observes p n R) \<Longrightarrow> observes p (if b then m else n) R"
  by simp

named_theorems silent_intros \<open>operations an observer does not see\<close>

lemma silent_ret [silent_intros]: "silent p (ret x)"
  by (simp add: silent_def observes_ret)

lemma silent_fail [silent_intros]: "silent p (fail e)"
  by (simp add: silent_def observes_fail)

lemma silent_lift [silent_intros]: "silent p (lift r)"
  by (simp add: silent_def observes_lift)

lemma silent_ask [silent_intros]: "p c = None \<Longrightarrow> silent p (ask f c)"
  by (simp add: silent_def observes_ask)

lemma silent_invoke [silent_intros]: "p c = None \<Longrightarrow> silent p (invoke f c)"
  by (simp add: silent_def observes_invoke)

lemma silent_bind [silent_intros]: "silent p m \<Longrightarrow> (\<And>x. silent p (k x)) \<Longrightarrow> silent p (and_then m k)"
  unfolding silent_def by (erule observes_bind) simp_all

lemma silent_if [silent_intros]:
  "(b \<Longrightarrow> silent p m) \<Longrightarrow> (\<not> b \<Longrightarrow> silent p n) \<Longrightarrow> silent p (if b then m else n)"
  by simp

end
