(* ===== verification/Workspace_Staging.thy ===== *)
theory Workspace_Staging
  imports Host Runner_Config
begin

text \<open>
  Workspace preparation and git publication of \<^verbatim>\<open>crates/runner-core/src/workspace.rs\<close>: copying
  a local tree, downloading and unpacking an archive, cloning a repository and checking its
  revisions, the exclude list, and the commit and push of the result. Every call to the
  outside is recorded in the trace of \<open>Host\<close>, with the outside \<open>E\<close> as an argument. A deadline
  is a number on the clock that \<^verbatim>\<open>Instant::now\<close> reads.
\<close>

section \<open>Budget and processes\<close>

definition ensure_budget :: "outside \<Rightarrow> nat \<Rightarrow> ('h host_scheme, unit) op" where
  "ensure_budget E deadline =
     and_then (ask (o_cancelled E) IsCancelled) (\<lambda>cancelled.
     if cancelled then fail (Bail ''workspace preparation cancelled'')
     else and_then (ask (o_now E) Now) (\<lambda>now.
       if deadline \<le> now then fail (Bail ''workspace preparation timed out'') else ret ()))"

definition run_process :: "outside \<Rightarrow> process \<Rightarrow> ('h host_scheme, process_output) op" where
  "run_process E command =
     and_then (ask (o_process E) (RunProcess command)) (\<lambda>event.
     case event of
       Ready output \<Rightarrow> lift output
     | CancelledFirst \<Rightarrow> fail (Bail ''workspace preparation cancelled'')
     | DeadlineFirst \<Rightarrow> fail (Bail ''workspace preparation timed out''))"

definition op_context :: "string \<Rightarrow> ('s, 'a) op \<Rightarrow> ('s, 'a) op" where
  "op_context c m s = (case m s of (r, t) \<Rightarrow> (with_context c r, t))"

definition run_git_output :: "outside \<Rightarrow> string \<Rightarrow> string list \<Rightarrow> string \<Rightarrow> ('h host_scheme, process_output) op" where
  "run_git_output E dir args operation =
     op_context operation (run_process E
       \<lparr> pr_args = args, pr_dir = dir, pr_env = [(''GIT_TERMINAL_PROMPT'', ''0'')] \<rparr>)"

definition run_git_command :: "outside \<Rightarrow> string \<Rightarrow> string list \<Rightarrow> string \<Rightarrow> ('h host_scheme, unit) op" where
  "run_git_command E dir args operation =
     and_then (run_git_output E dir args operation) (\<lambda>output.
     if \<not> success output then fail (Bail (operation @ '' failed'')) else ret ())"

definition redact_git_token :: "string \<Rightarrow> string \<Rightarrow> string" where
  "redact_git_token message token =
     (if token = [] then message else replace_all message token ''<redacted-git-token>'')"

definition bearer_args :: "string \<Rightarrow> string list" where
  "bearer_args token = [''-c'', ''http.extraheader=Authorization: Bearer '' @ token]"

definition git_with_auth ::
  "outside \<Rightarrow> string \<Rightarrow> string \<Rightarrow> string list \<Rightarrow> string \<Rightarrow> ('h host_scheme, unit) op" where
  "git_with_auth E dir token args operation =
     and_then (op_context operation (run_process E
       \<lparr> pr_args = bearer_args token @ args, pr_dir = dir, pr_env = [(''GIT_TERMINAL_PROMPT'', ''0'')] \<rparr>))
     (\<lambda>output.
       if \<not> success output
       then fail (Bail (operation @ '' failed: '' @
              trim (redact_git_token (from_utf8_lossy (po_stderr output)) token)))
       else ret ())"

definition verify_revision ::
  "outside \<Rightarrow> string \<Rightarrow> string \<Rightarrow> string option \<Rightarrow> string \<Rightarrow> ('h host_scheme, unit) op" where
  "verify_revision E dir revision expected name =
     (case expected of
        None \<Rightarrow> ret ()
      | Some expected \<Rightarrow>
          and_then (op_context (''resolve '' @ name) (run_process E
            \<lparr> pr_args = [''rev-parse'', revision], pr_dir = dir, pr_env = [] \<rparr>))
          (\<lambda>output.
            if \<not> success output
            then fail (Bail (name @ '' '' @ expected @ '' is not available in the prepared workspace''))
            else let actual = trim (from_utf8_lossy (po_stdout output)) in
              if actual \<noteq> expected
              then fail (Bail (name @ '' mismatch: expected '' @ expected @ '', got '' @ actual))
              else ret ()))"

section \<open>The exclude list\<close>

definition runner_patterns :: "string list" where
  "runner_patterns = [''.cache/'', ''.ai-kodu-runner/'', ''.dart_tool/'', ''.runner-cache/'', ''build/'',
     ''node_modules/'', ''prompt.md'']"

definition add_pattern :: "string \<Rightarrow> string \<Rightarrow> string" where
  "add_pattern existing pattern =
     (if list_ex (\<lambda>line. trim line = pattern) (lines existing) then existing
      else (if existing \<noteq> [] \<and> \<not> ends_with existing [CHR 0x0A] then existing @ [CHR 0x0A] else existing)
           @ pattern @ [CHR 0x0A])"

definition excluded_text :: "string \<Rightarrow> string" where
  "excluded_text existing = foldl add_pattern existing runner_patterns"

definition exclude_runner_files :: "outside \<Rightarrow> string \<Rightarrow> ('h host_scheme, unit) op" where
  "exclude_runner_files E dir =
     (let exclude_path = path_join dir ''.git/info/exclude'' in
      and_then (ask (o_read E) (ReadText exclude_path)) (\<lambda>existing.
      invoke (o_unit E) (WriteText exclude_path
        (excluded_text (case existing of Some t \<Rightarrow> t | None \<Rightarrow> [])))))"

section \<open>Copying a local tree\<close>

definition derived_names :: "string list" where
  "derived_names = [''.cache'', ''.ai-kodu-runner'', ''.dart_tool'', ''.runner-cache'', ''build'', ''node_modules'']"

definition is_derived_path :: "string \<Rightarrow> bool" where
  "is_derived_path path =
     list_ex (\<lambda>c. case c of Normal name \<Rightarrow> name \<in> set derived_names | _ \<Rightarrow> False) (components path)"

definition strip_prefix_error :: error where
  "strip_prefix_error = Bail ''prefix not found''"

definition copy_filter :: "string \<Rightarrow> string \<Rightarrow> bool" where
  "copy_filter from path =
     (case strip_path_prefix path from of Some rel \<Rightarrow> \<not> is_derived_path rel | None \<Rightarrow> False)"

text \<open>The counters of the loop after one more file, or the limit that refuses it.\<close>

definition admit_file :: "limits \<Rightarrow> u64 \<Rightarrow> u64 \<Rightarrow> u64 result \<Rightarrow> (u64 \<times> u64) result" where
  "admit_file limits bytes files len =
     bind_result (ok_or (checked_add files 1) (Bail ''workspace file count overflow'')) (\<lambda>files.
     bail_if (files > max_workspace_files limits) ''workspace file limit exceeded''
     (bind_result len (\<lambda>len.
      bind_result (ok_or (checked_add bytes len) (Bail ''workspace size overflow'')) (\<lambda>bytes.
      bail_if (bytes > max_workspace_bytes limits) ''workspace byte limit exceeded''
      (Inr (bytes, files))))))"

fun copy_entries ::
  "outside \<Rightarrow> string \<Rightarrow> string \<Rightarrow> limits \<Rightarrow> nat \<Rightarrow> u64 \<Rightarrow> u64 \<Rightarrow> walk_entry result list \<Rightarrow> ('h host_scheme, unit) op"
where
  "copy_entries E from to limits deadline bytes files [] = ret ()"
| "copy_entries E from to limits deadline bytes files (item # rest) =
     and_then (ensure_budget E deadline) (\<lambda>_.
     and_then (lift item) (\<lambda>e.
     and_then (lift (ok_or (strip_path_prefix (we_path e) from) strip_prefix_error)) (\<lambda>rel.
     if rel = [] then copy_entries E from to limits deadline bytes files rest
     else if we_kind e = IsDirectory then
       and_then (invoke (o_unit E) (CreateDirAll (path_join to rel))) (\<lambda>_.
       copy_entries E from to limits deadline bytes files rest)
     else if we_kind e = IsFile then
       and_then (lift (admit_file limits bytes files (we_len e))) (\<lambda>(bytes, files).
       and_then (case path_parent (path_join to rel) of
                   Some p \<Rightarrow> invoke (o_unit E) (CreateDirAll p) | None \<Rightarrow> ret ()) (\<lambda>_.
       and_then (invoke (o_unit E) (CopyFile (we_path e) (path_join to rel))) (\<lambda>_.
       copy_entries E from to limits deadline bytes files rest)))
     else copy_entries E from to limits deadline bytes files rest)))"

definition copy_tree :: "outside \<Rightarrow> string \<Rightarrow> string \<Rightarrow> limits \<Rightarrow> nat \<Rightarrow> ('h host_scheme, unit) op" where
  "copy_tree E from to limits deadline =
     and_then (ask (o_is_dir E) (IsDir from)) (\<lambda>directory.
     if \<not> directory then fail (Bail ''workspace is not a directory'')
     else and_then (ask (o_walk E) (Walk from)) (\<lambda>walk.
       copy_entries E from to limits deadline 0 0 (walk (copy_filter from))))"

section \<open>Archives\<close>

fun read_body :: "limits \<Rightarrow> string \<Rightarrow> string result selected list \<Rightarrow> string result" where
  "read_body limits bytes [] = Inr bytes"
| "read_body limits bytes (event # rest) =
     (case event of
        CancelledFirst \<Rightarrow> Inl (Bail ''workspace preparation cancelled'')
      | DeadlineFirst \<Rightarrow> Inl (Bail ''workspace preparation timed out'')
      | Ready (Inl e) \<Rightarrow> Inl e
      | Ready (Inr chunk) \<Rightarrow>
          bail_if (saturating_add (of_nat (length bytes)) (of_nat (length chunk)) > max_archive_download_bytes limits)
            ''archive download limit exceeded''
            (read_body limits (bytes @ chunk) rest))"

definition is_link_kind :: "tar_kind \<Rightarrow> bool" where
  "is_link_kind k = (k \<in> set [TarSymlink, TarHardLink, TarBlock, TarChar, TarFifo])"

text \<open>
  The checks of one archive entry: where it goes and the three counters (expanded bytes,
  files, entries) after it, or the reason it is refused.
\<close>

definition admit_entry ::
  "string \<Rightarrow> limits \<Rightarrow> u64 \<Rightarrow> u64 \<Rightarrow> u64 \<Rightarrow> tar_entry \<Rightarrow> (string \<times> u64 \<times> u64 \<times> u64) result" where
  "admit_entry to limits expanded files entries e =
     bind_result (ok_or (checked_add entries 1) (Bail ''archive entry count overflow'')) (\<lambda>entries.
     bail_if (entries > max_workspace_files limits) ''archive entry limit exceeded''
     (bind_result (te_path e) (\<lambda>p.
      bail_if (is_absolute p \<or> ParentDir \<in> set (components p)) ''archive path traversal detected''
     (let out = path_join to p in
      bail_if (\<not> path_starts_with out to) ''archive escape detected''
     (bail_if (is_link_kind (te_kind e)) ''links are not allowed in archives''
     (if te_kind e = TarRegular then
        bind_result (ok_or (checked_add files 1) (Bail ''archive file count overflow'')) (\<lambda>files.
        bail_if (files > max_workspace_files limits) ''archive file limit exceeded''
        (bind_result (ok_or (checked_add expanded (te_size e)) (Bail ''archive expanded size overflow'')) (\<lambda>expanded.
         bail_if (expanded > max_workspace_bytes limits) ''archive expanded size limit exceeded''
         (Inr (out, expanded, files, entries)))))
      else Inr (out, expanded, files, entries)))))))"

fun unpack_entries ::
  "outside \<Rightarrow> string \<Rightarrow> limits \<Rightarrow> nat \<Rightarrow> u64 \<Rightarrow> u64 \<Rightarrow> u64 \<Rightarrow> tar_entry result list \<Rightarrow> ('h host_scheme, unit) op"
where
  "unpack_entries E to limits deadline expanded files entries [] = ret ()"
| "unpack_entries E to limits deadline expanded files entries (item # rest) =
     and_then (ensure_budget E deadline) (\<lambda>_.
     and_then (lift item) (\<lambda>e.
     and_then (lift (admit_entry to limits expanded files entries e)) (\<lambda>(out, expanded, files, entries).
     and_then (invoke (o_unit E) (Unpack out)) (\<lambda>_.
     unpack_entries E to limits deadline expanded files entries rest))))"

definition download_archive :: "outside \<Rightarrow> string \<Rightarrow> string \<Rightarrow> limits \<Rightarrow> nat \<Rightarrow> ('h host_scheme, unit) op" where
  "download_archive E url to limits deadline =
     and_then (lift (with_context ''parse archive URL'' (o_url_scheme E url))) (\<lambda>scheme.
     if scheme \<noteq> ''https'' then fail (Bail ''archive URL must use HTTPS'')
     else
     and_then (ask (\<lambda>h. (o_get E h, o_chunks E h)) (HttpGet url)) (\<lambda>(event, chunks).
     and_then (case event of
                 Ready response \<Rightarrow>
                   and_then (lift response) (\<lambda>response.
                   and_then (lift (rs_status response)) (\<lambda>_. ret response))
               | CancelledFirst \<Rightarrow> fail (Bail ''workspace preparation cancelled'')
               | DeadlineFirst \<Rightarrow> fail (Bail ''workspace preparation timed out'')) (\<lambda>response.
     if (case rs_content_length response of
           Some n \<Rightarrow> n > max_archive_download_bytes limits | None \<Rightarrow> False)
     then fail (Bail ''archive download limit exceeded'')
     else
     and_then (lift (read_body limits [] chunks)) (\<lambda>bytes.
     and_then (lift (o_tar_entries E bytes)) (\<lambda>items.
     unpack_entries E to limits deadline 0 0 0 items)))))"

section \<open>Preparing and publishing\<close>

definition clone_process :: "git_workspace \<Rightarrow> string \<Rightarrow> process" where
  "clone_process g dir =
     \<lparr> pr_args = bearer_args (gw_token g) @
         [''clone'', ''--depth'', ''1'', ''--branch'', gw_branch g, ''--single-branch'', gw_clone_url g, ''.''],
       pr_dir = dir,
       pr_env = [(''GIT_USERNAME'', gw_username g), (''GIT_TOKEN'', gw_token g), (''GIT_TERMINAL_PROMPT'', ''0'')] \<rparr>"

definition remote_ref :: "string \<Rightarrow> string" where
  "remote_ref base_branch = ''refs/remotes/origin/'' @ base_branch"

definition prepare_git :: "outside \<Rightarrow> string \<Rightarrow> git_workspace \<Rightarrow> ('h host_scheme, unit) op" where
  "prepare_git E dir g =
     and_then (op_context ''clone git workspace'' (run_process E (clone_process g dir))) (\<lambda>output.
     if \<not> success output
     then fail (Bail (''git clone failed: '' @
            trim (redact_git_token (from_utf8_lossy (po_stderr output)) (gw_token g))))
     else
     and_then (if gw_base_branch g \<noteq> gw_branch g
               then git_with_auth E dir (gw_token g)
                      [''fetch'', ''--depth'', ''1'', ''origin'',
                       ''+refs/heads/'' @ gw_base_branch g @ '':'' @ remote_ref (gw_base_branch g)]
                      ''fetch base branch''
               else ret ()) (\<lambda>_.
     and_then (verify_revision E dir ''HEAD'' (gw_head_sha g) ''head_sha'') (\<lambda>_.
     verify_revision E dir (remote_ref (gw_base_branch g)) (gw_base_sha g) ''base_sha'')))"

record prepared_workspace =
  pw_dir :: string
  pw_container_path :: string

definition prepare ::
  "outside \<Rightarrow> workspace_spec \<Rightarrow> runner_config \<Rightarrow> nat \<Rightarrow> ('h host_scheme, prepared_workspace) op" where
  "prepare E spec config deadline =
     and_then (op_context ''create job directory'' (invoke (o_temp_dir E) TempDir)) (\<lambda>dir.
     and_then (case spec of
                 Local path \<Rightarrow> copy_tree E path dir (rc_limits config) deadline
               | ArchiveUrl url \<Rightarrow> download_archive E url dir (rc_limits config) deadline
               | Git g \<Rightarrow> prepare_git E dir g) (\<lambda>_.
     and_then (ask (o_is_dir E) (IsDir (path_join dir ''.git''))) (\<lambda>git.
     and_then (if git then exclude_runner_files E dir else ret ()) (\<lambda>_.
     ret \<lparr> pw_dir = dir, pw_container_path = ''/workspace'' \<rparr>))))"

definition publish_git :: "outside \<Rightarrow> workspace_spec \<Rightarrow> string \<Rightarrow> ('h host_scheme, unit) op" where
  "publish_git E spec dir =
     (case spec of
        Git g \<Rightarrow>
          if gw_publish_mode g = Disabled then ret ()
          else
          and_then (run_git_command E dir [''config'', ''user.name'', ''AI Kodu Runner''] ''git user configuration'') (\<lambda>_.
          and_then (exclude_runner_files E dir) (\<lambda>_.
          and_then (run_git_command E dir [''config'', ''user.email'', ''runner@ai-kodu.local''] ''git user configuration'') (\<lambda>_.
          and_then (run_git_command E dir [''add'', ''-A''] ''git add'') (\<lambda>_.
          and_then (run_git_output E dir [''diff'', ''--cached'', ''--quiet'', ''--exit-code'']
                      ''inspect staged git changes'') (\<lambda>diff.
          if po_code diff = Some 0 then
            (if gw_publish_mode g = Required
             then fail (Bail ''git publish required changes, but the working tree is clean'')
             else ret ())
          else if po_code diff = Some 1 then
            and_then (run_git_command E dir [''commit'', ''-m'', gw_commit_message g] ''git commit'') (\<lambda>_.
            git_with_auth E dir (gw_token g) [''push'', ''origin'', gw_branch g] ''git push'')
          else fail (Bail ''git diff failed''))))))
      | _ \<Rightarrow> ret ())"

section \<open>What is copied\<close>

definition copy_of :: "call \<Rightarrow> (string \<times> string) option" where
  "copy_of c = (case c of CopyFile a b \<Rightarrow> Some (a, b) | _ \<Rightarrow> None)"

lemma ensure_budget_silent [silent_intros]:
  "p IsCancelled = None \<Longrightarrow> p Now = None \<Longrightarrow> silent p (ensure_budget E deadline)"
  unfolding ensure_budget_def by (intro silent_intros)

text \<open>The copy made for a file entry.\<close>

definition copy_pair :: "string \<Rightarrow> string \<Rightarrow> walk_entry \<Rightarrow> string \<times> string" where
  "copy_pair from to e = (we_path e, path_join to (the (strip_path_prefix (we_path e) from)))"

definition entry_len :: "walk_entry \<Rightarrow> nat" where
  "entry_len e = (case we_len e of Inr n \<Rightarrow> unat n | Inl _ \<Rightarrow> 0)"

definition below :: "string \<Rightarrow> walk_entry \<Rightarrow> bool" where
  "below from e \<longleftrightarrow> we_kind e = IsFile \<and> strip_path_prefix (we_path e) from \<noteq> None"

text \<open>The files \<open>es\<close> of a walk can be copied within what is left of the limits.\<close>

definition within_limits :: "string \<Rightarrow> limits \<Rightarrow> u64 \<Rightarrow> u64 \<Rightarrow> walk_entry result list \<Rightarrow> walk_entry list \<Rightarrow> bool" where
  "within_limits from l b f items es \<longleftrightarrow>
     subseq (map Inr es) items \<and> list_all (below from) es \<and>
     unat f + length es \<le> max (unat f) (unat (max_workspace_files l)) \<and>
     unat b + sum_list (map entry_len es) \<le> max (unat b) (unat (max_workspace_bytes l))"

lemma within_limits_Nil: "within_limits from l b f items []"
  by (simp add: within_limits_def)

lemma within_limits_skip: "within_limits from l b f rest es \<Longrightarrow> within_limits from l b f (item # rest) es"
  by (auto simp: within_limits_def)

lemma within_limits_copy:
  assumes "within_limits from l b' f' rest es" and "below from e"
    and "admit_file l b f (we_len e) = Inr (b', f')"
  shows "within_limits from l b f (Inr e # rest) (e # es)"
proof -
  from assms(3) obtain n where "we_len e = Inr n" "checked_add f 1 = Some f'" "checked_add b n = Some b'"
    "f' \<le> max_workspace_files l" "b' \<le> max_workspace_bytes l"
    by (auto simp: admit_file_def ok_or_def not_less split: option.splits)
  then show ?thesis
    using assms(1,2) by (auto dest!: checked_add_Some simp: word_le_nat_alt within_limits_def entry_len_def)
qed

text \<open>Creating the directory of a file copies nothing.\<close>

lemma parent_silent:
  "silent copy_of (case q of Some p \<Rightarrow> invoke (o_unit E) (CreateDirAll p) | None \<Rightarrow> ret ())"
  by (cases q) (auto intro!: silent_intros simp: copy_of_def)

text \<open>The copies \<open>os\<close> are those of files of the walk, within the limits.\<close>

definition copies_within ::
  "string \<Rightarrow> string \<Rightarrow> limits \<Rightarrow> walk_entry result list \<Rightarrow> u64 \<Rightarrow> u64 \<Rightarrow> (string \<times> string) list \<Rightarrow> bool" where
  "copies_within from to l items b f os \<longleftrightarrow>
     (\<exists>es. os = map (copy_pair from to) es \<and> within_limits from l b f items es)"

lemma copies_within_Nil: "copies_within from to l items b f []"
  by (simp add: copies_within_def within_limits_Nil)

lemma copies_within_skip: "copies_within from to l rest b f os \<Longrightarrow> copies_within from to l (item # rest) b f os"
  by (auto simp: copies_within_def intro: within_limits_skip)

lemma copies_within_copy:
  assumes "copies_within from to l rest b' f' os" and "below from e"
    and "admit_file l b f (we_len e) = Inr (b', f')"
  shows "copies_within from to l (Inr e # rest) b f (copy_pair from to e # os)"
proof -
  from assms(1) obtain es where "os = map (copy_pair from to) es" "within_limits from l b' f' rest es"
    unfolding copies_within_def by blast
  then show ?thesis
    unfolding copies_within_def using within_limits_copy [OF _ assms(2,3)] by (intro exI [of _ "e # es"]) simp
qed

lemma copy_file_observes:
  assumes go: "observes copy_of m (\<lambda>os r. copies_within from to l rest b' f' os)"
    and entry: "we_kind e = IsFile" "strip_path_prefix (we_path e) from = Some rel"
    and fits: "admit_file l b f (we_len e) = Inr (b', f')"
  shows "observes copy_of (and_then (invoke (o_unit E) (CopyFile (we_path e) (path_join to rel))) (\<lambda>_. m))
     (\<lambda>os r. copies_within from to l (Inr e # rest) b f os)"
proof (rule observes_invoke_bind)
  have e: "below from e" "copy_pair from to e = (we_path e, path_join to rel)"
    using entry by (simp_all add: below_def copy_pair_def)
  show "copy_of (CopyFile (we_path e) (path_join to rel)) = Some (copy_pair from to e)"
    by (simp add: copy_of_def e)
  show "copies_within from to l (Inr e # rest) b f [copy_pair from to e]"
    by (rule copies_within_copy [OF copies_within_Nil e(1) fits])
  show "observes copy_of m (\<lambda>os r. copies_within from to l (Inr e # rest) b f (copy_pair from to e # os))"
    by (rule observes_mono [OF go]) (rule copies_within_copy [OF _ e(1) fits])
qed

lemma copy_entries_observes:
  "observes copy_of (copy_entries E from to l d b f items :: ('h host_scheme, unit) op)
     (\<lambda>os r. \<exists>es. os = map (copy_pair from to) es \<and> within_limits from l b f items es)"
  unfolding copies_within_def [symmetric]
proof (induction items arbitrary: b f)
  case Nil
  show ?case by (auto intro!: observe_intros copies_within_Nil)
next
  case (Cons item rest)
  let ?R = "\<lambda>os r. copies_within from to l (item # rest) b f os"
  have skip: "observes copy_of (copy_entries E from to l d b f rest :: ('h host_scheme, unit) op) ?R"
    by (rule observes_mono [OF Cons.IH]) (rule copies_within_skip)
  have calls: "silent copy_of (ensure_budget E d)" "silent copy_of (invoke (o_unit E) (CreateDirAll q))" for q
    by (intro silent_intros; simp add: copy_of_def)+
  have tail: "observes copy_of (and_then (invoke (o_unit E) (CopyFile (we_path e) (path_join to rel)))
      (\<lambda>_. copy_entries E from to l d b' f' rest :: ('h host_scheme, unit) op)) ?R"
    if "item = Inr e" "we_kind e = IsFile" "strip_path_prefix (we_path e) from = Some rel"
      "admit_file l b f (we_len e) = Inr (b', f')" for e rel b' f'
    unfolding that(1) by (rule copy_file_observes [OF Cons.IH that(2-4)])
  show ?case
    unfolding copy_entries.simps split_beta
    by (intro observes_silent_bind [where R = ?R, OF calls(1) copies_within_Nil]
        observes_silent_bind [where R = ?R, OF calls(2) copies_within_Nil]
        observes_silent_bind [where R = ?R, OF parent_silent copies_within_Nil]
        observes_lift_bind [where R = ?R, OF copies_within_Nil] observes_if skip)
       (rule tail; auto simp: ok_or_def split: option.splits)
qed

section \<open>What is unpacked\<close>

definition unpack_of :: "call \<Rightarrow> string option" where
  "unpack_of c = (case c of Unpack p \<Rightarrow> Some p | _ \<Rightarrow> None)"

definition entry_path :: "tar_entry \<Rightarrow> string" where
  "entry_path e = (case te_path e of Inr p \<Rightarrow> p | Inl _ \<Rightarrow> [])"

definition unpackable :: "tar_entry \<Rightarrow> bool" where
  "unpackable e \<longleftrightarrow> (\<exists>p. te_path e = Inr p \<and> \<not> is_absolute p \<and> ParentDir \<notin> set (components p)) \<and>
     \<not> is_link_kind (te_kind e)"

definition regular_size :: "tar_entry \<Rightarrow> nat" where
  "regular_size e = (if te_kind e = TarRegular then unat (te_size e) else 0)"

definition within_archive_limits ::
  "limits \<Rightarrow> u64 \<Rightarrow> u64 \<Rightarrow> tar_entry result list \<Rightarrow> tar_entry list \<Rightarrow> bool" where
  "within_archive_limits l x n items es \<longleftrightarrow>
     prefix (map Inr es) items \<and> list_all unpackable es \<and>
     unat n + length es \<le> max (unat n) (unat (max_workspace_files l)) \<and>
     unat x + sum_list (map regular_size es) \<le> max (unat x) (unat (max_workspace_bytes l))"

lemma within_archive_Nil: "within_archive_limits l x n items []"
  by (simp add: within_archive_limits_def)

lemma admit_entry_ok:
  assumes "admit_entry to l x f n e = Inr (out, x', f', n')"
  shows "unpackable e" and "out = path_join to (entry_path e)"
    and "unat n' = unat n + 1" and "unat n' \<le> unat (max_workspace_files l)"
    and "unat x' = unat x + regular_size e" and "unat x' \<le> max (unat x) (unat (max_workspace_bytes l))"
proof -
  from assms obtain p where p: "te_path e = Inr p" and n: "checked_add n 1 = Some n'" "n' \<le> max_workspace_files l"
    by (auto simp: admit_entry_def ok_or_def not_less Let_def split: option.splits if_splits)
  from assms n p have rest: "\<not> is_absolute p" "ParentDir \<notin> set (components p)" "\<not> is_link_kind (te_kind e)"
    "out = path_join to p"
    "if te_kind e = TarRegular then checked_add x (te_size e) = Some x' \<and> x' \<le> max_workspace_bytes l else x' = x"
    by (auto simp: admit_entry_def ok_or_def not_less Let_def split: option.splits if_splits)
  show "unpackable e" and "out = path_join to (entry_path e)"
    using p rest by (auto simp: unpackable_def entry_path_def)
  show "unat n' = unat n + 1" and "unat n' \<le> unat (max_workspace_files l)"
    using n by (auto dest!: checked_add_Some simp: word_le_nat_alt)
  show "unat x' = unat x + regular_size e" and "unat x' \<le> max (unat x) (unat (max_workspace_bytes l))"
    using rest(5) by (auto dest!: checked_add_Some simp: word_le_nat_alt regular_size_def split: if_splits)
qed

lemma within_archive_step:
  assumes "within_archive_limits l x' n' rest es" and "admit_entry to l x f n e = Inr (out, x', f', n')"
  shows "within_archive_limits l x n (Inr e # rest) (e # es)"
  using assms(1) admit_entry_ok [OF assms(2)] by (auto simp: within_archive_limits_def max_def split: if_splits)

text \<open>The entries are unpacked one after the other, none is skipped, and success means all of them.\<close>

lemma unpack_entries_observes:
  "observes unpack_of (unpack_entries E to l d x f n items :: ('h host_scheme, unit) op)
     (\<lambda>os r. \<exists>es. os = map (\<lambda>e. path_join to (entry_path e)) es \<and> within_archive_limits l x n items es \<and>
        (r = Inr () \<longrightarrow> map Inr es = items))"
proof (induction items arbitrary: x f n)
  case Nil
  show ?case by (auto intro!: observe_intros within_archive_Nil)
next
  case (Cons item rest)
  define R where "R x n items os (r :: unit result) \<longleftrightarrow>
    (\<exists>es. os = map (\<lambda>e. path_join to (entry_path e)) es \<and> within_archive_limits l x n items es \<and>
       (r = Inr () \<longrightarrow> map Inr es = items))" for x n items os r
  let ?R = "R x n (item # rest)" and ?go = "\<lambda>x f n. unpack_entries E to l d x f n rest :: ('h host_scheme, unit) op"
  have IH: "observes unpack_of (?go x f n) (R x n rest)" for x f n
    using Cons.IH by (simp only: R_def [abs_def])
  have none: "?R [] (Inl e)" for e by (auto simp: R_def intro: within_archive_Nil)
  have more: "?R (out # os) r"
    if "R x' n' rest os r" "item = Inr e" "admit_entry to l x f n e = Inr (out, x', f', n')" for e out x' f' n' os r
  proof -
    from that(1) obtain es where "os = map (\<lambda>e. path_join to (entry_path e)) es" "within_archive_limits l x' n' rest es"
      "r = Inr () \<longrightarrow> map Inr es = rest"
      unfolding R_def by blast
    then show ?thesis
      unfolding R_def that(2) using within_archive_step [OF _ that(3)] admit_entry_ok(2) [OF that(3)]
      by (intro exI [of _ "e # es"]) simp
  qed
  have one: "?R [out] (Inl err)" if "item = Inr e" "admit_entry to l x f n e = Inr (out, x', f', n')" for e out x' f' n' err
    by (rule more [OF _ that]) (auto simp: R_def intro: within_archive_Nil)
  have tail: "observes unpack_of (and_then (invoke (o_unit E) (Unpack out)) (\<lambda>_. ?go x' f' n')) ?R"
    if "item = Inr e" "admit_entry to l x f n e = Inr (out, x', f', n')" for e out x' f' n'
    by (rule observes_invoke_bind [where v = out])
       (auto simp: unpack_of_def intro!: more [OF _ that] one [OF that] observes_mono [OF IH])
  have budget: "silent unpack_of (ensure_budget E d)"
    by (intro silent_intros; simp add: unpack_of_def)
  have "observes unpack_of (unpack_entries E to l d x f n (item # rest) :: ('h host_scheme, unit) op) ?R"
    unfolding unpack_entries.simps split_beta
    by (intro observes_silent_bind [where R = ?R, OF budget none] observes_lift_bind [where R = ?R, OF none])
       (rule tail; simp)
  then show ?case by (simp only: R_def [abs_def])
qed

definition get_of :: "call \<Rightarrow> string option" where
  "get_of c = (case c of HttpGet u \<Rightarrow> Some u | _ \<Rightarrow> None)"

lemma unpack_entries_silent: "silent get_of (unpack_entries E to l d x f n items)"
proof (induction items arbitrary: x f n)
  case (Cons item items)
  then show ?case
    unfolding unpack_entries.simps split_beta
    by (intro silent_intros Cons.IH) (simp_all add: get_of_def)
qed (simp add: silent_ret)

end
