(* ===== verification/Workspace_Safety.thy ===== *)
theory Workspace_Safety
  imports Workspace_Staging
begin

text \<open>
  What workspace preparation and publication guarantee: the limits and the containment of
  everything that is copied or unpacked, the revisions of a cloned repository, the redaction
  of the git token, the exclude list and the order of the git commands.
\<close>

abbreviation new_calls :: "'h host_scheme \<Rightarrow> 'h host_scheme \<Rightarrow> call list" where
  "new_calls s t \<equiv> drop (length (trace s)) (trace t)"

lemma observes_new_calls:
  assumes "observes p m R" and "m s = (r, t)"
  shows "R (List.map_filter p (new_calls s t)) r"
proof -
  from observesE [OF assms] obtain cs where "trace t = trace s @ cs" "R (List.map_filter p cs) r" .
  then show ?thesis by simp
qed

section \<open>Copied trees\<close>

lemma copy_tree_observes:
  "observes copy_of (copy_tree E from to l d :: ('h host_scheme, unit) op)
     (\<lambda>os r. \<exists>h es. os = map (copy_pair from to) es \<and>
        within_limits from l 0 0 (o_walk E h (copy_filter from)) es)"
proof -
  define R where "R os (r :: unit result) \<longleftrightarrow> (\<exists>h es. os = map (copy_pair from to) es \<and>
        within_limits from l 0 0 (o_walk E h (copy_filter from)) es)" for os r
  have none: "R [] r" for r by (auto simp: R_def intro: within_limits_Nil)
  have go: "observes copy_of (copy_entries E from to l d 0 0 (o_walk E h (copy_filter from)) :: ('h host_scheme, unit) op) R" for h
    by (rule observes_mono [OF copy_entries_observes]) (auto simp: R_def)
  have "observes copy_of (copy_tree E from to l d :: ('h host_scheme, unit) op) R"
    unfolding copy_tree_def
    by (intro observes_ask_bind observes_if observes_fail none go) (simp_all add: copy_of_def)
  then show ?thesis by (simp only: R_def [abs_def])
qed

text \<open>A directory walk lists paths below its root, and only those its filter accepts.\<close>

definition honest_walk :: "outside \<Rightarrow> string \<Rightarrow> bool" where
  "honest_walk E from \<longleftrightarrow> (\<forall>h p e. Inr e \<in> set (o_walk E h p) \<longrightarrow> p (we_path e) \<and> contained from (we_path e))"

lemma copy_pair_contained:
  assumes "below from e" and "contained from (we_path e)" and "to \<noteq> []" and "\<not> ends_with to ''/''"
  shows "contained to (snd (copy_pair from to e))"
proof -
  from assms(2) obtain cs where cs: "components (we_path e) = components from @ cs" "list_all is_normal cs"
    by (auto simp: contained_def)
  then have names: "list_all is_name cs" by (intro components_names [of cs "we_path e"]) auto
  from cs have "snd (copy_pair from to e) = path_join to (path_of cs)"
    by (simp add: copy_pair_def strip_path_prefix_def path_starts_with_def)
  with contained_join [OF components_path_of(2) [OF names] _ assms(3,4)] components_path_of(1) [OF names] cs(2)
  show ?thesis by (auto simp: list_all_iff is_normal_iff)
qed

text \<open>
  C29: Staging a local workspace copies, whether it succeeds or stops early, only regular files
  the walk lists, each below the staging directory by names alone, none of them under a
  generated directory, at most the configured number of files and at most the configured
  number of bytes (by the sizes the walk reports; the counters cannot wrap).
\<close>

theorem copy_tree_bounded:
  assumes "copy_tree E from to l d s = (r, t)" and "honest_walk E from"
    and "to \<noteq> []" and "\<not> ends_with to ''/''"
  shows "\<exists>es. List.map_filter copy_of (new_calls s t) = map (copy_pair from to) es \<and>
    list_all (\<lambda>e. we_kind e = IsFile \<and> contained to (snd (copy_pair from to e)) \<and>
       (\<exists>rel. strip_path_prefix (we_path e) from = Some rel \<and> \<not> is_derived_path rel)) es \<and>
    length es \<le> unat (max_workspace_files l) \<and> sum_list (map entry_len es) \<le> unat (max_workspace_bytes l)"
proof -
  from observes_new_calls [OF copy_tree_observes assms(1)] obtain h es where
    es: "List.map_filter copy_of (new_calls s t) = map (copy_pair from to) es"
      "within_limits from l 0 0 (o_walk E h (copy_filter from)) es" by blast
  then have "set (map Inr es) \<subseteq> set (o_walk E h (copy_filter from))" "list_all (below from) es"
    by (simp_all add: within_limits_def subseq_set [of "map Inr es", simplified])
  have "we_kind e = IsFile \<and> contained to (snd (copy_pair from to e)) \<and>
      (\<exists>rel. strip_path_prefix (we_path e) from = Some rel \<and> \<not> is_derived_path rel)" if "e \<in> set es" for e
  proof -
    have b: "below from e" and "Inr e \<in> set (o_walk E h (copy_filter from))"
      using that \<open>list_all (below from) es\<close> \<open>set (map Inr es) \<subseteq> _\<close> by (auto simp: list_all_iff)
    with assms(2) have "copy_filter from (we_path e)" "contained from (we_path e)"
      unfolding honest_walk_def by blast+
    with b copy_pair_contained [OF b _ assms(3,4)] show ?thesis
      by (auto simp: copy_filter_def below_def split: option.splits)
  qed
  with es show ?thesis
    by (intro exI [of _ es]) (auto simp: list_all_iff within_limits_def)
qed

text \<open>An outside in which every call succeeds, for the evaluations below.\<close>

definition sample_file :: walk_entry where
  "sample_file = \<lparr> we_path = ''/src/a'', we_kind = IsFile, we_len = Inr 7 \<rparr>"

definition sample_output :: process_output where
  "sample_output = \<lparr> po_code = Some 0, po_stdout = ''abc123'', po_stderr = [] \<rparr>"

definition sample_outside :: outside where
  "sample_outside =
     \<lparr> o_temp_dir = (\<lambda>h. Inr ''/tmp/job''),
       o_process = (\<lambda>h. Ready (Inr sample_output)),
       o_is_dir = (\<lambda>h. True),
       o_read = (\<lambda>h. None),
       o_unit = (\<lambda>h. Inr ()),
       o_walk = (\<lambda>h p. if p ''/src/a'' then [Inr sample_file] else []),
       o_cancelled = (\<lambda>h. False),
       o_now = length,
       o_get = (\<lambda>h. Ready (Inr \<lparr> rs_status = Inr (), rs_content_length = None \<rparr>)),
       o_chunks = (\<lambda>h. [Ready (Inr ''tar'')]),
       o_url_scheme = (\<lambda>u. Inr ''https''),
       o_tar_entries = (\<lambda>b. Inr [Inr \<lparr> te_path = Inr ''a'', te_kind = TarRegular, te_size = 7 \<rparr>]),
       o_len = (\<lambda>p. Inr 7),
       o_env = (\<lambda>n. None),
       o_realpath = Some,
       o_canonicalize = (\<lambda>h. case last h of Canonicalize p \<Rightarrow> Inr p | _ \<Rightarrow> Inr []),
       o_lstat = (\<lambda>h. LstatNotFound),
       o_send = (\<lambda>h. SentOk),
       o_text = (\<lambda>h. ''now''),
       o_faults = (\<lambda>h n. None),
       o_id = (\<lambda>h. Inr ''c1''),
       o_pull = (\<lambda>h. []),
       o_inspect = (\<lambda>h. Inr \<lparr> ci_exit_code = Some 0, ci_image = None \<rparr>),
       o_logs = (\<lambda>h. [Ready (Inr (StdOut ''done''))]),
       o_exec_create = (\<lambda>h. Ready (Inr ''x1'')),
       o_exec_start = (\<lambda>h. Ready (Inr (Attached [Ready (Inr (StdOut ''ok''))]))),
       o_exec_status = (\<lambda>h. Inr (Some 0)),
       o_containers = (\<lambda>h. Inr []),
       o_networks = (\<lambda>h. Inr []),
       o_to_value = (\<lambda>j. Inr JNull),
       o_pretty = (\<lambda>j. Inr ''null''),
       o_debug = (\<lambda>xs. []),
       o_version = (\<lambda>h. Inr None),
       o_http = (\<lambda>h. Inr \<lparr> hp_status = 204, hp_body = [] \<rparr>),
       o_elapsed = (\<lambda>h. False),
       o_flush = (\<lambda>h. FlushedWith False),
       o_result_text = (\<lambda>r. Inr (jr_job_id r)),
       o_result_of_text = (\<lambda>t. Inl (Bail ''no result'')),
       o_parse = (\<lambda>t. Inl (Bail ''no document'')),
       o_json_text = (\<lambda>v. Inr ''{}''),
       o_raw_lease = (\<lambda>t. Inl (Bail ''no lease'')),
       o_decode_alpha = (\<lambda>v. Inl (Bail ''not alpha'')),
       o_decode_beta = (\<lambda>v. Inl (Bail ''not beta'')),
       o_http_error = (\<lambda>q st. Bail ''http''),
       o_quote = (\<lambda>s. s),
       o_file = (\<lambda>p. Inr ''text''),
       o_toml = (\<lambda>t. Inl (Bail ''no config'')),
       o_current_dir = None \<rparr>"

definition sample_host :: host where
  "sample_host = \<lparr> trace = [] \<rparr>"

definition sample_limits :: limits where
  "sample_limits = rc_limits (default_local (\<lambda>_. None) None)"

lemma sample_paths:
  "strip_path_prefix ''/src/a'' ''/src'' = Some ''a''" "\<not> is_derived_path ''a''"
  "components ''/src/a'' = components ''/src'' @ [Normal ''a'']"
  by code_simp+

lemma sample_honest: "honest_walk sample_outside ''/src''"
  by (auto simp: honest_walk_def sample_outside_def sample_file_def contained_def sample_paths split: if_splits)

theorem copy_tree_bounded_witness:
  "\<exists>es. List.map_filter copy_of (trace (snd (copy_tree sample_outside ''/src'' ''/tmp/job'' sample_limits 100 sample_host)))
      = map (copy_pair ''/src'' ''/tmp/job'') es \<and> length es \<le> 100000"
proof -
  have "\<not> ends_with ''/tmp/job'' ''/''" by code_simp
  from copy_tree_bounded [OF surjective_pairing sample_honest _ this, where s = sample_host and l = sample_limits and d = 100]
  show ?thesis by (auto simp: sample_host_def sample_limits_def default_local_def default_max_workspace_files_def)
qed

section \<open>Unpacked archives\<close>

definition chunk_fits :: "string result selected \<Rightarrow> bool" where
  "chunk_fits event = (case event of Ready (Inr c) \<Rightarrow> length c < 2 ^ 64 | _ \<Rightarrow> True)"

lemma read_body_bound:
  assumes "read_body l b events = Inr bytes" and "length b \<le> unat (max_archive_download_bytes l)"
    and "list_all chunk_fits events" and "max_archive_download_bytes l \<noteq> - 1"
  shows "length bytes \<le> unat (max_archive_download_bytes l)"
  using assms
proof (induction l b events rule: read_body.induct)
  case (2 l b event rest)
  let ?max = "unat (max_archive_download_bytes l)"
  from "2.prems"(1) obtain chunk where ev: "event = Ready (Inr chunk)"
    and small: "saturating_add (of_nat (length b)) (of_nat (length chunk)) \<le> max_archive_download_bytes l"
    and go: "read_body l (b @ chunk) rest = Inr bytes"
    by (auto simp: not_less split: selected.splits sum.splits)
  have max: "?max + 1 < 2 ^ 64" using unat_Suc_bound [OF "2.prems"(4)] by simp
  with "2.prems"(2) have "length b < 2 ^ 64" by linarith
  moreover have "length chunk < 2 ^ 64" using "2.prems"(3) ev by (simp add: chunk_fits_def)
  ultimately have "unat (of_nat (length b) :: u64) = length b" "unat (of_nat (length chunk) :: u64) = length chunk"
    by (simp_all add: unat_of_nat_small)
  then have "min (length b + length chunk) (2 ^ 64 - 1) \<le> ?max"
    using small unfolding word_le_nat_alt unat_saturating_add by simp
  with max have "length (b @ chunk) \<le> ?max" by (simp add: min_def split: if_splits)
  with "2.IH" ev go "2.prems"(3,4) small show ?case by (simp add: not_less)
qed simp

text \<open>The body is the concatenation of the chunks received.\<close>

lemma read_body_chunks:
  "read_body l b events = Inr bytes \<Longrightarrow> \<exists>cs. events = map (\<lambda>c. Ready (Inr c)) cs \<and> bytes = b @ concat cs"
proof (induction l b events rule: read_body.induct)
  case (2 l b event rest)
  from "2.prems" obtain chunk where ev: "event = Ready (Inr chunk)"
    and small: "\<not> saturating_add (of_nat (length b)) (of_nat (length chunk)) > max_archive_download_bytes l"
    and go: "read_body l (b @ chunk) rest = Inr bytes"
    by (auto split: selected.splits sum.splits)
  from "2.IH" [OF ev refl go] obtain cs where "rest = map (\<lambda>c. Ready (Inr c)) cs" "bytes = (b @ chunk) @ concat cs"
    by blast
  with ev show ?case by (intro exI [of _ "chunk # cs"]) simp
qed simp

text \<open>The server answered the request \<open>h\<close> ends with, without an error status, with these bytes.\<close>

definition served :: "outside \<Rightarrow> history \<Rightarrow> string \<Rightarrow> bool" where
  "served E h bytes \<longleftrightarrow> (\<exists>response cs. o_get E h = Ready (Inr response) \<and> rs_status response = Inr () \<and>
     o_chunks E h = map (\<lambda>c. Ready (Inr c)) cs \<and> bytes = concat cs)"

text \<open>A download is refused before the request, fails after it, or goes on to unpack the body.\<close>

lemma download_archive_cases:
  assumes "download_archive E url to l d s = (r, t)"
  obtains (refused) "o_url_scheme E url \<noteq> Inr ''https''" and "t = s" and "\<not> is_ok r"
  | (failed) "o_url_scheme E url = Inr ''https''" and "t = with_calls s [HttpGet url]" and "\<not> is_ok r"
  | (unpacking) bytes items where "o_url_scheme E url = Inr ''https''"
      and "served E (trace s @ [HttpGet url]) bytes"
      and "read_body l [] (o_chunks E (trace s @ [HttpGet url])) = Inr bytes" and "o_tar_entries E bytes = Inr items"
      and "unpack_entries E to l d 0 0 0 items (with_calls s [HttpGet url]) = (r, t)"
proof -
  let ?h = "trace s @ [HttpGet url]" and ?u = "with_calls s [HttpGet url]"
  show thesis
  proof (cases "o_url_scheme E url = Inr ''https''")
    case False
    with assms refused show thesis
      by (auto simp: download_archive_def and_then_def lift_def fail_def with_context_def split: sum.splits if_splits)
  next
    case https: True
    show thesis
    proof (cases "\<exists>response bytes items. o_get E ?h = Ready (Inr response) \<and> rs_status response = Inr () \<and>
        \<not> (case rs_content_length response of Some n \<Rightarrow> n > max_archive_download_bytes l | None \<Rightarrow> False) \<and>
        read_body l [] (o_chunks E ?h) = Inr bytes \<and> o_tar_entries E bytes = Inr items")
      case True
      then obtain response bytes items where ok: "o_get E ?h = Ready (Inr response)" "rs_status response = Inr ()"
        "\<not> (case rs_content_length response of Some n \<Rightarrow> n > max_archive_download_bytes l | None \<Rightarrow> False)"
        "read_body l [] (o_chunks E ?h) = Inr bytes" "o_tar_entries E bytes = Inr items" by blast
      from read_body_chunks [OF ok(4)] ok(1,2) have "served E ?h bytes" by (auto simp: served_def)
      moreover have "unpack_entries E to l d 0 0 0 items ?u = (r, t)"
        using assms https ok
        by (simp add: download_archive_def and_then_def lift_def ret_def ask_def with_context_def Let_def)
      ultimately show thesis using unpacking https ok(4,5) by blast
    next
      case False
      with assms https have "t = ?u \<and> \<not> is_ok r"
        by (auto simp: download_archive_def and_then_def lift_def ret_def fail_def ask_def with_context_def Let_def
            split: selected.splits sum.splits if_splits option.splits) (metis is_ok_simps(2))
      with failed https show thesis by blast
    qed
  qed
qed

text \<open>
  C30: Downloading an archive asks for its URL exactly once, and only if the scheme is HTTPS
  (what redirects the HTTP client follows is up to the client). Whatever fails, the entries
  that are unpacked are an initial part of those of the body that was served without an error
  status, each goes to a path that continues the staging directory by names alone, none is a
  link or a special file, and their number stays within the configured file count. The byte
  limit counts the regular files among them and no other kinds. A body that is used fits the
  download limit, unless that limit is the largest number, which limits nothing; and success
  means that every entry of the archive was unpacked. (The staging directory is not empty and
  written without a slash at its end, and the length of a chunk of the body is a 64-bit number.)
\<close>

theorem download_archive_bounded:
  assumes "download_archive E url to l d s = (r, t)"
    and "to \<noteq> []" and "\<not> ends_with to ''/''" and "\<And>h. list_all chunk_fits (o_chunks E h)"
  shows "List.map_filter get_of (new_calls s t) = (if o_url_scheme E url = Inr ''https'' then [url] else []) \<and>
    (\<exists>es. List.map_filter unpack_of (new_calls s t) = map (\<lambda>e. path_join to (entry_path e)) es \<and>
       list_all (\<lambda>e. contained to (path_join to (entry_path e)) \<and> \<not> is_link_kind (te_kind e)) es \<and>
       length es \<le> unat (max_workspace_files l) \<and>
       sum_list (map regular_size es) \<le> unat (max_workspace_bytes l) \<and>
       (es \<noteq> [] \<or> r = Inr () \<longrightarrow> (\<exists>bytes items.
          served E (trace s @ [HttpGet url]) bytes \<and> o_tar_entries E bytes = Inr items \<and>
          prefix (map Inr es) items \<and> (r = Inr () \<longrightarrow> map Inr es = items) \<and>
          (max_archive_download_bytes l \<noteq> - 1 \<longrightarrow> length bytes \<le> unat (max_archive_download_bytes l)))))"
  using assms(1)
proof (cases rule: download_archive_cases)
  case refused
  then show ?thesis by (auto simp: is_ok_def intro: exI [of _ "[]"])
next
  case failed
  then show ?thesis by (auto simp: is_ok_def unpack_of_def get_of_def map_filter_simps intro: exI [of _ "[]"])
next
  case (unpacking bytes items)
  let ?u = "with_calls s [HttpGet url]"
  from observesE [OF unpack_entries_observes unpacking(5)] obtain es cs where cs: "trace t = trace ?u @ cs"
    and os: "List.map_filter unpack_of cs = map (\<lambda>e. path_join to (entry_path e)) es"
    and lim: "within_archive_limits l 0 0 items es" and all: "r = Inr () \<longrightarrow> map Inr es = items" by metis
  have "List.map_filter get_of (new_calls ?u t) = []"
    using observes_new_calls [OF unpack_entries_silent [unfolded silent_def] unpacking(5)] .
  then have calls: "new_calls s t = HttpGet url # cs" "List.map_filter get_of cs = []" using cs by simp_all
  have "contained to (path_join to (entry_path e)) \<and> \<not> is_link_kind (te_kind e)" if "e \<in> set es" for e
  proof -
    from lim that have "unpackable e" by (simp add: within_archive_limits_def list_all_iff)
    then show ?thesis
      by (auto simp: unpackable_def entry_path_def intro!: contained_join assms(2,3))
  qed
  moreover have "max_archive_download_bytes l \<noteq> - 1 \<longrightarrow> length bytes \<le> unat (max_archive_download_bytes l)"
    using read_body_bound [OF unpacking(3) _ assms(4)] by simp
  ultimately show ?thesis
    using unpacking os lim all calls
    by (intro conjI exI [of _ es])
       (auto simp: within_archive_limits_def list_all_iff get_of_def unpack_of_def map_filter_simps)
qed

lemma sample_admit:
  "admit_entry ''/tmp/job'' sample_limits 0 0 0 \<lparr> te_path = Inr ''a'', te_kind = TarRegular, te_size = 7 \<rparr>
     = Inr (''/tmp/job/a'', 7, 1, 1)"
proof -
  have "components ''a'' = [Normal ''a'']" "path_join ''/tmp/job'' ''a'' = ''/tmp/job/a''"
    "path_starts_with ''/tmp/job/a'' ''/tmp/job''" by code_simp+
  then show ?thesis
    by (simp add: admit_entry_def checked_add_def ok_or_def sample_limits_def default_local_def is_link_kind_def
        default_max_workspace_files_def default_max_workspace_bytes_def)
qed

lemma sample_download:
  "\<exists>t. download_archive sample_outside ''https://a'' ''/tmp/job'' sample_limits 100 sample_host = (Inr (), t) \<and>
     List.map_filter unpack_of (trace t) = [''/tmp/job/a'']"
proof -
  have body: "read_body sample_limits [] [Ready (Inr ''tar'')] = Inr ''tar''"
    by (simp add: saturating_add_def sample_limits_def default_local_def default_max_archive_download_bytes_def)
  show ?thesis
    by (simp add: body download_archive_def and_then_def lift_def fail_def ret_def ask_def invoke_def Let_def
        ensure_budget_def sample_outside_def sample_host_def with_context_def sample_admit map_filter_simps unpack_of_def del: read_body.simps)
qed

theorem download_archive_bounded_witness:
  "\<exists>es bytes. [''/tmp/job/a''] = map (\<lambda>e. path_join ''/tmp/job'' (entry_path e)) es \<and>
     o_tar_entries sample_outside bytes = Inr (map Inr es) \<and> length bytes \<le> unat (max_archive_download_bytes sample_limits)"
proof -
  obtain t where run: "download_archive sample_outside ''https://a'' ''/tmp/job'' sample_limits 100 sample_host = (Inr (), t)"
    and os: "List.map_filter unpack_of (trace t) = [''/tmp/job/a'']" using sample_download by blast
  have a: "\<not> ends_with ''/tmp/job'' ''/''" by code_simp
  have b: "list_all chunk_fits (o_chunks sample_outside h)" for h
    by (simp add: sample_outside_def chunk_fits_def)
  have c: "max_archive_download_bytes sample_limits \<noteq> - 1"
    by (simp add: sample_limits_def default_local_def default_max_archive_download_bytes_def)
  have eq: "List.map_filter unpack_of (new_calls sample_host t) = [''/tmp/job/a'']" using os by (simp add: sample_host_def)
  from download_archive_bounded [OF run list.distinct(2) a b, THEN conjunct2, unfolded eq] c show ?thesis
    by (elim exE conjE) (drule mp, simp, elim exE conjE, intro exI conjI, assumption, simp_all)
qed

text \<open>
  The expanded-size limit only sees regular files: an entry of any other kind that is not
  a link or a special file, such as a GNU sparse file, is admitted with the expanded-size and
  file counters unchanged, whatever size it declares.
\<close>

theorem archive_size_limit_ignores_other_kinds:
  assumes "te_kind e \<notin> {TarRegular, TarSymlink, TarHardLink, TarBlock, TarChar, TarFifo}"
    and "te_path e = Inr p" and "\<not> is_absolute p" and "ParentDir \<notin> set (components p)"
    and "to \<noteq> []" and "\<not> ends_with to ''/''" and "entries < max_workspace_files l"
  shows "admit_entry to l expanded files entries e = Inr (path_join to p, expanded, files, entries + 1)"
proof -
  from contained_join [OF assms(3,4,5,6)] have "path_starts_with (path_join to p) to"
    by (auto simp: contained_def path_starts_with_def)
  moreover have small: "unat entries + 1 < 2 ^ 64"
  proof -
    have "unat (max_workspace_files l) < 2 ^ LENGTH(64)" by (rule unsigned_less)
    moreover have "unat entries < unat (max_workspace_files l)" using assms(7) by (simp only: word_less_nat_alt)
    ultimately show ?thesis by simp
  qed
  moreover have "\<not> entries + 1 > max_workspace_files l"
  proof -
    have "checked_add entries 1 = Some (entries + 1)" using small by (simp add: checked_add_def)
    then have "unat (entries + 1) = unat entries + 1" by (auto dest: checked_add_Some)
    then show ?thesis using assms(7) by (simp add: word_less_nat_alt)
  qed
  ultimately show ?thesis
    using assms by (simp add: admit_entry_def checked_add_def ok_or_def is_link_kind_def)
qed

theorem archive_size_limit_ignores_other_kinds_witness:
  "admit_entry ''/tmp/job'' sample_limits 0 0 0 \<lparr> te_path = Inr ''a'', te_kind = TarOther, te_size = 2 ^ 63 \<rparr>
     = Inr (path_join ''/tmp/job'' ''a'', 0, 0, 1)"
proof -
  have "\<not> ends_with ''/tmp/job'' ''/''" "components ''a'' = [Normal ''a'']" by code_simp+
  moreover have "0 < max_workspace_files sample_limits"
    by (simp add: sample_limits_def default_local_def default_max_workspace_files_def)
  ultimately show ?thesis
    using archive_size_limit_ignores_other_kinds
      [of "\<lparr> te_path = Inr ''a'', te_kind = TarOther, te_size = 2 ^ 63 \<rparr>" "''a''" "''/tmp/job''" 0 sample_limits 0 0]
    by simp
qed

section \<open>Git\<close>

text \<open>The marker that replaces the token.\<close>

interpretation git_marker: marker "CHR ''<''" "''redacted-git-token''" "CHR ''>''" "''<redacted-git-token>''"
  by unfold_locales simp

definition evades_git_marker :: "string \<Rightarrow> bool" where
  "evades_git_marker q \<longleftrightarrow> q \<noteq> [] \<and> CHR ''<'' \<notin> set q \<and> CHR ''>'' \<notin> set q \<and>
     \<not> contains_str ''redacted-git-token'' q"

lemma redacted_text_clean: "evades_git_marker token \<Longrightarrow> \<not> contains_str (trim (redact_git_token m token)) token"
proof
  assume token: "evades_git_marker token" and "contains_str (trim (redact_git_token m token)) token"
  then have "contains_str (redact_git_token m token) token"
    using trim_sublist sublist_order.order.trans by blast
  with token git_marker.replace_all_removes [of token m] show False
    by (simp add: redact_git_token_def evades_git_marker_def git_marker.evades_def)
qed

lemma git_with_auth_error:
  assumes "git_with_auth E dir token args operation s = (Inl e, t)"
    and "evades_git_marker token" and "CHR '' '' \<notin> set token"
    and "\<not> contains_str operation token" and "\<not> contains_str ''failed:'' token"
  shows "\<not> contains_str (error_to_string e) token"
proof -
  obtain r1 t1 where run: "op_context operation (run_process E
       \<lparr> pr_args = bearer_args token @ args, pr_dir = dir, pr_env = [(''GIT_TERMINAL_PROMPT'', ''0'')] \<rparr>) s = (r1, t1)"
    by (rule prod.exhaust)
  from run have r1: "r1 = Inl x \<Longrightarrow> \<exists>y. x = Context operation y" for x
    by (auto simp: op_context_def with_context_def split: prod.splits sum.splits)
  consider x where "e = Context operation x"
    | m where "e = Bail ((operation @ '' failed:'') @ CHR '' '' # trim (redact_git_token m token))"
  proof (cases r1)
    case (Inl x)
    with assms(1) run r1 [OF Inl] that(1) show ?thesis by (auto simp: git_with_auth_def and_then_def)
  next
    case (Inr out)
    with assms(1) run have "e = Bail (operation @ '' failed: '' @ trim (redact_git_token (from_utf8_lossy (po_stderr out)) token))"
      by (auto simp: git_with_auth_def and_then_def fail_def ret_def split: if_splits)
    with that(2) show ?thesis by simp
  qed
  then show ?thesis
  proof cases
    case 2
    show ?thesis
      unfolding 2 error_to_string.simps git_marker.sublist_sep [OF assms(3)] de_Morgan_disj
      by (intro conjI assms(4,5) redacted_text_clean [OF assms(2)])
  qed (use assms(4) in simp)
qed

text \<open>The words of the messages that these errors have besides the output of git.\<close>

definition git_words :: "string list" where
  "git_words = [''clone git workspace'', ''git clone failed:'', ''fetch base branch'', ''git push'', ''failed:'']"

lemma last_process:
  assumes "op_context c (run_process E p) s = (r, t)"
  shows "trace t = trace s @ [RunProcess p]"
  using assms
  by (auto simp: op_context_def run_process_def and_then_def ask_def Let_def lift_def fail_def
      split: prod.splits selected.splits sum.splits)

text \<open>A process that is started without the token in its arguments.\<close>

definition plain :: "call \<Rightarrow> bool" where
  "plain c \<longleftrightarrow> (\<forall>p token. c = RunProcess p \<longrightarrow> \<not> prefix (bearer_args token) (pr_args p))"

lemma clone_error:
  assumes "op_context ''clone git workspace'' (run_process E (clone_process g dir)) s = (Inl e, t)"
  shows "error_to_string e = ''clone git workspace''"
  using assms by (auto simp: op_context_def with_context_def split: prod.splits sum.splits)

lemma run_git_command_error:
  assumes "run_git_command E dir args operation s = (Inl e, t)" and "hd args \<noteq> ''-c''" and "args \<noteq> []"
  shows "plain (last (trace t))"
proof -
  from assms(1) have "trace t = trace s @ [RunProcess \<lparr> pr_args = args, pr_dir = dir, pr_env = [(''GIT_TERMINAL_PROMPT'', ''0'')] \<rparr>]"
    unfolding run_git_command_def run_git_output_def
    by (auto simp: and_then_err fail_def ret_def split: if_splits dest: last_process)
  with assms(2,3) show ?thesis by (cases args) (auto simp: plain_def bearer_args_def)
qed

lemma run_git_output_plain:
  assumes "run_git_output E dir args operation s = (r, t)" and "hd args \<noteq> ''-c''" and "args \<noteq> []"
  shows "plain (last (trace t))"
  using assms last_process [of operation E _ s r t] unfolding run_git_output_def
  by (cases args) (auto simp: plain_def bearer_args_def)

lemma verify_revision_error:
  assumes "verify_revision E dir revision expected name s = (Inl e, t)"
  shows "plain (last (trace t))"
proof (cases expected)
  case (Some sha)
  from assms have "trace t = trace s @ [RunProcess \<lparr> pr_args = [''rev-parse'', revision], pr_dir = dir, pr_env = [] \<rparr>]"
    unfolding verify_revision_def Some
    by (auto simp: and_then_err fail_def ret_def Let_def split: if_splits dest: last_process)
  then show ?thesis by (simp add: plain_def bearer_args_def)
qed (use assms in \<open>simp add: verify_revision_def ret_def\<close>)

lemma prepare_git_error:
  assumes "prepare_git E dir g s = (Inl e, t)" and "\<not> plain (last (trace t))"
  obtains "error_to_string e = ''clone git workspace''"
  | m where "e = Bail (''git clone failed:'' @ CHR '' '' # trim (redact_git_token m (gw_token g)))"
  | args u where "git_with_auth E dir (gw_token g) args ''fetch base branch'' u = (Inl e, t)"
  using assms
  by (auto simp: prepare_git_def and_then_err fail_def ret_def split: if_splits dest!: clone_error verify_revision_error)

lemma exclude_runner_files_error:
  assumes "exclude_runner_files E dir s = (Inl e, t)"
  shows "plain (last (trace t))"
  using assms by (auto simp: exclude_runner_files_def Let_def and_then_err ask_not_err invoke_iff plain_def)

lemma publish_git_error:
  assumes "publish_git E (Git g) dir s = (Inl e, t)" and "\<not> plain (last (trace t))"
  obtains args u where "git_with_auth E dir (gw_token g) args ''git push'' u = (Inl e, t)"
  using assms
  by (auto simp: publish_git_def and_then_err fail_def ret_def split: if_splits
      dest!: run_git_command_error run_git_output_plain exclude_runner_files_error)

text \<open>
  C33: The error of a git command that was given the token (the clone, the fetch of the base
  branch, the push) never shows it, whatever git wrote to standard error: when preparing or
  publishing a workspace fails and the last call was such a command, the text of the error
  does not contain the token. This is for tokens that are not empty, have no spaces and no
  angle brackets, and are no part of the fixed words of the messages or of the marker.
\<close>

theorem git_error_hides_token:
  assumes "prepare_git E dir g s = (Inl e, t) \<or> publish_git E (Git g) dir s = (Inl e, t)"
    and "last (trace t) = RunProcess p" and "prefix (bearer_args (gw_token g)) (pr_args p)"
    and token: "evades_git_marker (gw_token g)" "CHR '' '' \<notin> set (gw_token g)"
      "list_all (\<lambda>m. \<not> contains_str m (gw_token g)) git_words"
  shows "\<not> contains_str (error_to_string e) (gw_token g)"
proof -
  have auth: "\<not> plain (last (trace t))" using assms(2,3) by (auto simp: plain_def)
  have words: "\<not> contains_str ''clone git workspace'' (gw_token g)" "\<not> contains_str ''git clone failed:'' (gw_token g)"
    "\<not> contains_str ''fetch base branch'' (gw_token g)" "\<not> contains_str ''git push'' (gw_token g)"
    "\<not> contains_str ''failed:'' (gw_token g)" using token(3) by (simp_all add: git_words_def)
  from assms(1) show ?thesis
  proof
    assume "prepare_git E dir g s = (Inl e, t)"
    from this auth show ?thesis
    proof (cases rule: prepare_git_error)
      case (2 m)
      then show ?thesis
        unfolding 2 error_to_string.simps git_marker.sublist_sep [OF token(2)]
        using words(2) redacted_text_clean [OF token(1)] by blast
    next
      case (3 args u)
      then show ?thesis by (rule git_with_auth_error [OF _ token(1,2) words(3,5)])
    qed (use words(1) in simp)
  next
    assume "publish_git E (Git g) dir s = (Inl e, t)"
    from this auth show ?thesis
      by (rule publish_git_error) (erule git_with_auth_error [OF _ token(1,2) words(4,5)])
  qed
qed

definition sample_git :: git_workspace where
  "sample_git = \<lparr> gw_clone_url = ''https://g/r'', gw_base_branch = ''main'', gw_branch = ''task'',
     gw_base_sha = None, gw_head_sha = Some ''abc123'', gw_username = ''u'', gw_token = ''tok3n'',
     gw_commit_message = ''m'', gw_publish_mode = IfChanged \<rparr>"

definition sample_leaky_outside :: outside where
  "sample_leaky_outside = sample_outside\<lparr> o_process := (\<lambda>h. Ready (Inr
     \<lparr> po_code = Some 128, po_stdout = [], po_stderr = ''auth tok3n failed'' \<rparr>)) \<rparr>"

lemma sample_git_error:
  "\<exists>m t. prepare_git sample_leaky_outside ''/tmp/job'' sample_git sample_host
     = (Inl (Bail (''git clone failed: '' @ m)), t) \<and> trace t = [RunProcess (clone_process sample_git ''/tmp/job'')]"
  by (simp add: prepare_git_def and_then_def op_context_def run_process_def ask_def Let_def lift_def fail_def
      with_context_def success_def sample_leaky_outside_def sample_host_def)

theorem git_error_hides_token_witness:
  "\<exists>m. fst (prepare_git sample_leaky_outside ''/tmp/job'' sample_git sample_host)
     = Inl (Bail (''git clone failed: '' @ m)) \<and> \<not> contains_str (''git clone failed: '' @ m) ''tok3n''"
proof -
  obtain m t where run: "prepare_git sample_leaky_outside ''/tmp/job'' sample_git sample_host
     = (Inl (Bail (''git clone failed: '' @ m)), t)" and t: "trace t = [RunProcess (clone_process sample_git ''/tmp/job'')]"
    using sample_git_error by blast
  have token: "gw_token sample_git = ''tok3n''" by (simp add: sample_git_def)
  have "evades_git_marker ''tok3n''" "list_all (\<lambda>m. \<not> contains_str m ''tok3n'') git_words"
    unfolding evades_git_marker_def git_words_def by code_simp+
  moreover have "prefix (bearer_args ''tok3n'') (pr_args (clone_process sample_git ''/tmp/job''))"
    by (simp add: clone_process_def token)
  ultimately have "\<not> contains_str (''git clone failed: '' @ m) ''tok3n''"
    using git_error_hides_token [OF disjI1 [OF run], unfolded token] t by simp
  with run show ?thesis by simp
qed

text \<open>What a process answered during a run.\<close>

definition answered :: "outside \<Rightarrow> history \<Rightarrow> process \<Rightarrow> process_output \<Rightarrow> bool" where
  "answered E h p out \<longleftrightarrow> (\<exists>h0. prefix (h0 @ [RunProcess p]) h \<and> o_process E (h0 @ [RunProcess p]) = Ready (Inr out))"

lemma answered_mono: "answered E h p out \<Longrightarrow> prefix h h' \<Longrightarrow> answered E h' p out"
  by (auto simp: answered_def intro: prefix_order.trans)

lemma run_process_ok:
  "op_context c (run_process E p) s = (Inr out, t) \<Longrightarrow> answered E (trace t) p out \<and> prefix (trace s) (trace t)"
  by (auto simp: op_context_def with_context_def run_process_def and_then_def ask_def Let_def lift_def fail_def
      answered_def split: selected.splits sum.splits)

definition rev_parse :: "string \<Rightarrow> string \<Rightarrow> process" where
  "rev_parse dir revision = \<lparr> pr_args = [''rev-parse'', revision], pr_dir = dir, pr_env = [] \<rparr>"

text \<open>A revision is pinned when git resolved it to the expected text in this run.\<close>

definition pinned :: "outside \<Rightarrow> history \<Rightarrow> string \<Rightarrow> string \<Rightarrow> string option \<Rightarrow> bool" where
  "pinned E h dir revision expected = (case expected of None \<Rightarrow> True | Some sha \<Rightarrow>
     (\<exists>out. answered E h (rev_parse dir revision) out \<and> success out \<and> trim (from_utf8_lossy (po_stdout out)) = sha))"

lemma pinned_mono: "pinned E h dir revision expected \<Longrightarrow> prefix h h' \<Longrightarrow> pinned E h' dir revision expected"
  by (auto simp: pinned_def intro: answered_mono split: option.splits)

lemma verify_revision_ok:
  assumes "verify_revision E dir revision expected name s = (Inr u, t)"
  shows "pinned E (trace t) dir revision expected \<and> prefix (trace s) (trace t)"
proof (cases expected)
  case None
  with assms show ?thesis by (simp add: verify_revision_def pinned_def ret_def)
next
  case (Some sha)
  with assms obtain out t1 where run: "op_context (''resolve '' @ name) (run_process E (rev_parse dir revision)) s = (Inr out, t1)"
    and "success out" "trim (from_utf8_lossy (po_stdout out)) = sha" "t = t1"
    by (auto simp: verify_revision_def rev_parse_def and_then_ok Let_def fail_def ret_def split: if_splits)
  with run_process_ok [OF run] Some show ?thesis by (auto simp: pinned_def)
qed

lemma git_with_auth_prefix: "git_with_auth E dir token args operation s = (Inr u, t) \<Longrightarrow> prefix (trace s) (trace t)"
  by (auto simp: git_with_auth_def and_then_ok fail_def ret_def split: if_splits dest: run_process_ok)

lemma invoke_prefix: "invoke f c s = (r, t) \<Longrightarrow> prefix (trace s) (trace t)"
  by (auto simp: invoke_iff)

lemma prepare_git_ok:
  assumes "prepare_git E dir g s = (Inr u, t)"
  shows "pinned E (trace t) dir ''HEAD'' (gw_head_sha g) \<and>
    pinned E (trace t) dir (remote_ref (gw_base_branch g)) (gw_base_sha g) \<and>
    (\<exists>out. answered E (trace t) (clone_process g dir) out \<and> success out)"
proof -
  from assms obtain out s1 s2 s3 where
    clone: "op_context ''clone git workspace'' (run_process E (clone_process g dir)) s = (Inr out, s1)" "success out"
    and fetch: "prefix (trace s1) (trace s2)"
    and hd: "verify_revision E dir ''HEAD'' (gw_head_sha g) ''head_sha'' s2 = (Inr (), s3)"
    and base: "verify_revision E dir (remote_ref (gw_base_branch g)) (gw_base_sha g) ''base_sha'' s3 = (Inr u, t)"
    by (auto simp: prepare_git_def and_then_ok fail_def ret_def split: if_splits dest: git_with_auth_prefix)
  from fetch run_process_ok [OF clone(1)] verify_revision_ok [OF hd] verify_revision_ok [OF base] clone(2)
  show ?thesis by (meson answered_mono pinned_mono prefix_order.trans)
qed

text \<open>
  C31: A git workspace is prepared only after a successful clone, and with every revision the
  job pins: when a head or base commit is given, git resolved \<^verbatim>\<open>HEAD\<close>, respectively the base
  branch, in the prepared directory to exactly that commit during the preparation.
\<close>

theorem prepared_revisions_match:
  assumes "prepare E (Git g) config deadline s = (Inr w, t)"
  shows "pinned E (trace t) (pw_dir w) ''HEAD'' (gw_head_sha g) \<and>
    pinned E (trace t) (pw_dir w) (remote_ref (gw_base_branch g)) (gw_base_sha g) \<and>
    (\<exists>out. answered E (trace t) (clone_process g (pw_dir w)) out \<and> success out) \<and>
    pw_container_path w = ''/workspace''"
proof -
  from assms obtain s1 s2 s3 where git: "prepare_git E (pw_dir w) g s1 = (Inr (), s2)"
    and s3: "s3 = with_calls s2 [IsDir (path_join (pw_dir w) ''.git'')]"
    and ex: "t = s3 \<or> exclude_runner_files E (pw_dir w) s3 = (Inr (), t)"
    and w: "pw_container_path w = ''/workspace''"
    by (auto simp: prepare_def and_then_ok ret_def ask_ok split: if_splits)
  have "prefix (trace s3) (trace t)"
    using ex by (auto simp: exclude_runner_files_def Let_def and_then_ok ask_ok invoke_iff)
  then have "prefix (trace s2) (trace t)" using s3 by (auto intro: append_prefixD)
  with prepare_git_ok [OF git] w show ?thesis by (meson answered_mono pinned_mono)
qed

lemma sample_process: "run_process sample_outside p s = (Inr sample_output, with_calls s [RunProcess p])"
  by (simp add: run_process_def and_then_def ask_def lift_def Let_def sample_outside_def)

lemma sample_git_steps:
  "fst (op_context c (run_process sample_outside p) s) = Inr sample_output"
  "fst (git_with_auth sample_outside dir token args operation s) = Inr ()"
  "fst (verify_revision sample_outside dir revision (Some ''abc123'') name s) = Inr ()"
  "fst (exclude_runner_files sample_outside dir s) = Inr ()"
proof -
  have sha: "trim (from_utf8_lossy ''abc123'') = ''abc123''" by code_simp
  show run: "fst (op_context c (run_process sample_outside p) s) = Inr sample_output" for c p s
    by (simp add: op_context_def with_context_def sample_process)
  show "fst (git_with_auth sample_outside dir token args operation s) = Inr ()"
    by (simp add: git_with_auth_def and_then_fst [where m = "op_context _ _", OF run] success_def sample_output_def ret_def)
  show "fst (verify_revision sample_outside dir revision (Some ''abc123'') name s) = Inr ()"
    by (simp add: verify_revision_def and_then_fst [where m = "op_context _ _", OF run] success_def sample_output_def
        ret_def Let_def sha del: from_utf8_lossy.simps)
  show "fst (exclude_runner_files sample_outside dir s) = Inr ()"
    by (simp add: exclude_runner_files_def and_then_def ask_def invoke_def Let_def sample_outside_def)
qed

lemma sample_clone: "fst (prepare_git sample_outside dir sample_git s) = Inr ()"
  unfolding prepare_git_def
  by (simp add: and_then_fst [OF sample_git_steps(1)] and_then_fst [OF sample_git_steps(2)]
      and_then_fst [OF sample_git_steps(3)] success_def sample_output_def sample_git_def verify_revision_def [where expected = None] ret_def)

lemma sample_prepare:
  "fst (prepare sample_outside (Git sample_git) sample_config 100 sample_host)
     = Inr \<lparr> pw_dir = ''/tmp/job'', pw_container_path = ''/workspace'' \<rparr>"
proof -
  have dir: "fst (op_context c (invoke (o_temp_dir sample_outside) TempDir) s) = Inr ''/tmp/job''" for c and s :: host
    by (simp add: op_context_def with_context_def invoke_def Let_def sample_outside_def)
  have isdir: "fst (ask (o_is_dir sample_outside) x s) = Inr True" for x and s :: host
    by (simp add: ask_def Let_def sample_outside_def)
  show ?thesis
    unfolding prepare_def
    by (simp add: and_then_fst [OF dir] and_then_fst [OF sample_clone] and_then_fst [OF isdir]
        and_then_fst [OF sample_git_steps(4)] ret_def)
qed

theorem prepared_revisions_match_witness:
  "pinned sample_outside (trace (snd (prepare sample_outside (Git sample_git) sample_config 100 sample_host)))
     ''/tmp/job'' ''HEAD'' (Some ''abc123'')"
proof -
  have "prepare sample_outside (Git sample_git) sample_config 100 sample_host =
      (Inr \<lparr> pw_dir = ''/tmp/job'', pw_container_path = ''/workspace'' \<rparr>,
       snd (prepare sample_outside (Git sample_git) sample_config 100 sample_host))"
    using sample_prepare by (simp add: prod_eq_iff)
  from prepared_revisions_match [OF this] show ?thesis by (simp add: sample_git_def)
qed

section \<open>The exclude list\<close>

lemma add_pattern_lines:
  assumes "CHR 0x0A \<notin> set p"
  shows "trimmed_lines (add_pattern t p) =
     (if p \<in> set (trimmed_lines t) then trimmed_lines t else trimmed_lines t @ [trim p])"
proof -
  have ends: "ends_with t [CHR 0x0A] \<longleftrightarrow> t \<noteq> [] \<and> last t = CHR 0x0A"
    by (cases t rule: rev_cases) auto
  have present: "list_ex (\<lambda>line. trim line = p) (lines t) \<longleftrightarrow> p \<in> set (trimmed_lines t)"
    by (auto simp: trimmed_lines_def list_ex_iff)
  show ?thesis
  proof (cases "t = [] \<or> last t = CHR 0x0A")
    case True
    then show ?thesis
      using trimmed_lines_append [OF True assms] by (auto simp: add_pattern_def ends present)
  next
    case False
    then have "trimmed_lines ((t @ [CHR 0x0A]) @ p @ [CHR 0x0A]) = trimmed_lines t @ [trim p]"
      using trimmed_lines_append [of "t @ [CHR 0x0A]" p] trimmed_lines_newline assms by simp
    with False show ?thesis by (simp add: add_pattern_def ends present)
  qed
qed

lemma foldl_add_pattern_lines:
  assumes "distinct ps" and "list_all (\<lambda>p. CHR 0x0A \<notin> set p \<and> trim p = p) ps"
  shows "trimmed_lines (foldl add_pattern t ps) =
    trimmed_lines t @ filter (\<lambda>p. p \<notin> set (trimmed_lines t)) ps"
  using assms
proof (induction ps arbitrary: t)
  case (Cons p ps)
  have lines: "trimmed_lines (add_pattern t p) =
      (if p \<in> set (trimmed_lines t) then trimmed_lines t else trimmed_lines t @ [p])"
    using Cons.prems by (simp add: add_pattern_lines)
  have "filter (\<lambda>q. q \<notin> set (trimmed_lines t @ [p])) ps = filter (\<lambda>q. q \<notin> set (trimmed_lines t)) ps"
    using Cons.prems(1) by (intro filter_cong) auto
  with Cons lines show ?case by auto
qed simp

lemma runner_patterns_clean:
  "distinct runner_patterns" "list_all (\<lambda>p. CHR 0x0A \<notin> set p \<and> trim p = p) runner_patterns"
  by code_simp+

lemma add_pattern_present: "p \<in> set (trimmed_lines t) \<Longrightarrow> add_pattern t p = t"
  by (auto simp: add_pattern_def trimmed_lines_def list_ex_iff)

lemma foldl_add_pattern_present: "set ps \<subseteq> set (trimmed_lines t) \<Longrightarrow> foldl add_pattern t ps = t"
  by (induction ps) (auto simp: add_pattern_present)

lemma prefix_add_pattern: "prefix t (add_pattern t p)"
  by (simp add: add_pattern_def)

lemma prefix_foldl_add_pattern: "prefix t (foldl add_pattern t ps)"
  by (induction ps arbitrary: t) (auto intro: prefix_order.trans prefix_add_pattern)

text \<open>
  Writing the exclude list keeps the existing text as it is and appends exactly the
  runner's patterns that no line has yet (up to surrounding white space), in order; doing it
  again, as preparation and publication both do, changes nothing.
\<close>

theorem excluded_text_correct:
  "prefix existing (excluded_text existing) \<and>
   trimmed_lines (excluded_text existing) =
     trimmed_lines existing @ filter (\<lambda>p. p \<notin> set (trimmed_lines existing)) runner_patterns \<and>
   excluded_text (excluded_text existing) = excluded_text existing"
proof -
  have lines: "trimmed_lines (excluded_text existing) =
     trimmed_lines existing @ filter (\<lambda>p. p \<notin> set (trimmed_lines existing)) runner_patterns"
    unfolding excluded_text_def by (rule foldl_add_pattern_lines [OF runner_patterns_clean])
  then have "set runner_patterns \<subseteq> set (trimmed_lines (excluded_text existing))" by auto
  then have "excluded_text (excluded_text existing) = excluded_text existing"
    unfolding excluded_text_def [of "excluded_text existing"] by (rule foldl_add_pattern_present)
  with lines show ?thesis by (simp add: excluded_text_def prefix_foldl_add_pattern)
qed

section \<open>Publication\<close>

text \<open>The processes run by some calls, in order, each with the answer it got.\<close>

fun runs_of :: "outside \<Rightarrow> history \<Rightarrow> call list \<Rightarrow> (process \<times> process_output result selected) list" where
  "runs_of E h [] = []"
| "runs_of E h (c # cs) =
     (case c of RunProcess p \<Rightarrow> [(p, o_process E (h @ [c]))] | _ \<Rightarrow> []) @ runs_of E (h @ [c]) cs"

lemma runs_of_append: "runs_of E h (as @ bs) = runs_of E h as @ runs_of E (h @ as) bs"
  by (induction "as" arbitrary: h) simp_all

definition executes ::
  "outside \<Rightarrow> ('h host_scheme, 'a) op \<Rightarrow> ((process \<times> process_output result selected) list \<Rightarrow> 'a result \<Rightarrow> bool) \<Rightarrow> bool" where
  "executes E m R \<longleftrightarrow> (\<forall>s r t. m s = (r, t) \<longrightarrow> (\<exists>cs. trace t = trace s @ cs \<and> R (runs_of E (trace s) cs) r))"

lemma executes_mono: "executes E m Q \<Longrightarrow> (\<And>ps r. Q ps r \<Longrightarrow> R ps r) \<Longrightarrow> executes E m R"
  unfolding executes_def by blast

lemma executes_ret: "R [] (Inr x) \<Longrightarrow> executes E (ret x) R"
  and executes_fail: "R [] (Inl e) \<Longrightarrow> executes E (fail e) R"
  unfolding executes_def ret_def fail_def by (auto intro!: exI [of _ "[]"])

lemma executes_bind:
  assumes m: "executes E m Q"
    and err: "\<And>ps e. Q ps (Inl e) \<Longrightarrow> R ps (Inl e)"
    and ok: "\<And>ps x. Q ps (Inr x) \<Longrightarrow> executes E (k x) (\<lambda>ps' r. R (ps @ ps') r)"
  shows "executes E (and_then m k) R"
  unfolding executes_def
proof (intro allI impI)
  fix s r t
  assume run: "and_then m k s = (r, t)"
  obtain r1 u where first: "m s = (r1, u)" by (cases "m s")
  with m obtain as where u: "trace u = trace s @ as" and as: "Q (runs_of E (trace s) as) r1"
    unfolding executes_def by blast
  show "\<exists>cs. trace t = trace s @ cs \<and> R (runs_of E (trace s) cs) r"
  proof (cases r1)
    case (Inl e)
    with run first have "r = Inl e" "t = u" by (auto simp: and_then_def)
    with Inl u as err show ?thesis by blast
  next
    case (Inr x)
    with run first have "k x u = (r, t)" by (auto simp: and_then_def)
    with ok [OF as [unfolded Inr]] obtain bs
      where "trace t = trace u @ bs" and "R (runs_of E (trace s) as @ runs_of E (trace u) bs) r"
      unfolding executes_def by blast
    with u show ?thesis by (intro exI [of _ "as @ bs"]) (simp add: runs_of_append)
  qed
qed

lemma executes_if:
  "(b \<Longrightarrow> executes E m R) \<Longrightarrow> (\<not> b \<Longrightarrow> executes E n R) \<Longrightarrow> executes E (if b then m else n) R"
  by simp

definition git_process :: "string \<Rightarrow> string list \<Rightarrow> process" where
  "git_process dir args = \<lparr> pr_args = args, pr_dir = dir, pr_env = [(''GIT_TERMINAL_PROMPT'', ''0'')] \<rparr>"

definition exit_code_of :: "process_output result selected \<Rightarrow> int option" where
  "exit_code_of a = (case a of Ready (Inr out) \<Rightarrow> po_code out | _ \<Rightarrow> None)"

definition answered_with :: "process_output result selected \<Rightarrow> process_output result \<Rightarrow> bool" where
  "answered_with a r \<longleftrightarrow> (case r of Inr out \<Rightarrow> a = Ready (Inr out) | Inl _ \<Rightarrow> exit_code_of a = None)"

lemma run_process_executes:
  "executes E (op_context c (run_process E p)) (\<lambda>ps r. \<exists>a. ps = [(p, a)] \<and> answered_with a r)"
  unfolding executes_def
proof (intro allI impI)
  fix s r t
  assume run: "op_context c (run_process E p) s = (r, t)"
  let ?a = "o_process E (trace s @ [RunProcess p])"
  from run have "trace t = trace s @ [RunProcess p]" "answered_with ?a r"
    by (auto simp: op_context_def run_process_def and_then_def ask_def Let_def lift_def fail_def with_context_def
        answered_with_def exit_code_of_def split: selected.splits sum.splits)
  then show "\<exists>cs. trace t = trace s @ cs \<and>
      (\<exists>a. runs_of E (trace s) cs = [(p, a)] \<and> answered_with a r)"
    by (intro exI [of _ "[RunProcess p]"]) simp
qed

lemma run_git_output_executes:
  "executes E (run_git_output E dir args operation)
     (\<lambda>ps r. \<exists>a. ps = [(git_process dir args, a)] \<and> answered_with a r)"
  using run_process_executes unfolding run_git_output_def git_process_def .

text \<open>A command that succeeds exactly when git exits with zero.\<close>

abbreviation exits_zero :: "process \<Rightarrow> (process \<times> process_output result selected) list \<Rightarrow> unit result \<Rightarrow> bool" where
  "exits_zero p ps r \<equiv> \<exists>a. ps = [(p, a)] \<and> (r = Inr () \<longleftrightarrow> exit_code_of a = Some 0)"

lemma run_git_command_executes:
  "executes E (run_git_command E dir args operation) (exits_zero (git_process dir args))"
  unfolding run_git_command_def
  by (rule executes_bind [OF run_git_output_executes])
     (auto intro!: executes_ret executes_fail simp: answered_with_def exit_code_of_def success_def)

lemma git_with_auth_executes:
  "executes E (git_with_auth E dir token args operation) (exits_zero (git_process dir (bearer_args token @ args)))"
  unfolding git_with_auth_def git_process_def
  by (rule executes_bind [OF run_process_executes])
     (auto intro!: executes_ret executes_fail simp: answered_with_def exit_code_of_def success_def)

lemma exclude_runner_files_executes: "executes E (exclude_runner_files E dir) (\<lambda>ps r. ps = [])"
  unfolding executes_def exclude_runner_files_def Let_def
  by (auto simp: and_then_def ask_def invoke_def Let_def)

text \<open>The git commands of a full publication, in order.\<close>

definition diff_process :: "string \<Rightarrow> process" where
  "diff_process dir = git_process dir [''diff'', ''--cached'', ''--quiet'', ''--exit-code'']"

definition publication :: "git_workspace \<Rightarrow> string \<Rightarrow> process list" where
  "publication g dir =
     [git_process dir [''config'', ''user.name'', ''AI Kodu Runner''],
      git_process dir [''config'', ''user.email'', ''runner@ai-kodu.local''],
      git_process dir [''add'', ''-A''], diff_process dir,
      git_process dir [''commit'', ''-m'', gw_commit_message g],
      git_process dir (bearer_args (gw_token g) @ [''push'', ''origin'', gw_branch g])]"

text \<open>What a command has to answer for the next one to be run: the diff reports changes by one.\<close>

definition goes_on :: "string \<Rightarrow> process \<times> process_output result selected \<Rightarrow> bool" where
  "goes_on dir run \<longleftrightarrow> exit_code_of (snd run) = Some (if fst run = diff_process dir then 1 else 0)"

definition publish_allowed ::
  "git_workspace \<Rightarrow> string \<Rightarrow> (process \<times> process_output result selected) list \<Rightarrow> unit result \<Rightarrow> bool" where
  "publish_allowed g dir ps r \<longleftrightarrow>
     prefix (map fst ps) (publication g dir) \<and> list_all (goes_on dir) (butlast ps) \<and>
     (r = Inr () \<longleftrightarrow>
        (length ps = 6 \<and> exit_code_of (snd (last ps)) = Some 0) \<or>
        (length ps = 4 \<and> exit_code_of (snd (last ps)) = Some 0 \<and> gw_publish_mode g = IfChanged))"

lemma publish_git_executes:
  assumes "gw_publish_mode g \<noteq> Disabled"
  shows "executes E (publish_git E (Git g) dir) (publish_allowed g dir)"
proof -
  note R = publish_allowed_def publication_def goes_on_def diff_process_def git_process_def
  show ?thesis
    unfolding publish_git_def workspace_spec.case if_not_P [OF assms]
    apply (rule executes_bind [OF run_git_command_executes])
     apply (auto simp: R) [1]
    apply (elim exE conjE, hypsubst, rule executes_bind [OF exclude_runner_files_executes])
     apply (auto simp: R) [1]
    apply (hypsubst, rule executes_bind [OF run_git_command_executes])
     apply (auto simp: R) [1]
    apply (elim exE conjE, hypsubst, rule executes_bind [OF run_git_command_executes])
     apply (auto simp: R) [1]
    apply (elim exE conjE, hypsubst, rule executes_bind [OF run_git_output_executes])
     apply (auto simp: R answered_with_def) [1]
    apply (elim exE conjE, hypsubst)
    apply (intro executes_if executes_fail executes_ret)
       apply (auto simp: R answered_with_def exit_code_of_def) [1]
    subgoal by (cases "gw_publish_mode g") (use assms in \<open>auto simp: R answered_with_def exit_code_of_def\<close>)
     apply (rule executes_bind [OF run_git_command_executes])
      apply (auto simp: R answered_with_def exit_code_of_def) [1]
     apply (elim exE conjE, hypsubst, rule executes_mono [OF git_with_auth_executes])
     apply (auto simp: R answered_with_def exit_code_of_def) [1]
    apply (auto simp: R answered_with_def exit_code_of_def) [1]
    done
qed

text \<open>
  C32: Publication runs nothing for other workspaces and for a disabled publish mode. Otherwise
  the git commands are an initial part of configure, configure, stage, diff, commit, push in
  this order, and each is run only after the ones before it exited with zero, the diff with
  one, which reports staged changes. The publication succeeds exactly when the push exits with
  zero, or, in the mode \<^verbatim>\<open>IfChanged\<close>, when the diff exits with zero.
\<close>

theorem publish_git_order:
  assumes "publish_git E spec dir s = (r, t)"
  shows "case spec of
      Git g \<Rightarrow>
        if gw_publish_mode g = Disabled then r = Inr () \<and> t = s
        else publish_allowed g dir (runs_of E (trace s) (new_calls s t)) r
    | _ \<Rightarrow> r = Inr () \<and> t = s"
proof (cases spec)
  case (Git g)
  show ?thesis
  proof (cases "gw_publish_mode g = Disabled")
    case False
    with publish_git_executes [OF False, of E dir] assms Git obtain cs where
      "trace t = trace s @ cs" "publish_allowed g dir (runs_of E (trace s) cs) r"
      unfolding executes_def by blast
    with Git False show ?thesis by simp
  qed (use Git assms in \<open>simp add: publish_git_def ret_def\<close>)
qed (use assms in \<open>simp_all add: publish_git_def ret_def\<close>)

theorem publish_git_order_witness:
  "publish_allowed sample_git ''/tmp/job''
     (runs_of sample_outside [] (trace (snd (publish_git sample_outside (Git sample_git) ''/tmp/job'' sample_host))))
     (fst (publish_git sample_outside (Git sample_git) ''/tmp/job'' sample_host))"
proof -
  have "gw_publish_mode sample_git \<noteq> Disabled" by (simp add: sample_git_def)
  with publish_git_order [OF surjective_pairing, of sample_outside "Git sample_git" "''/tmp/job''" sample_host]
  show ?thesis by (simp add: sample_host_def)
qed

end
