(* ===== verification/Diagnostics.thy ===== *)
theory Diagnostics
  imports Workspace_Safety
begin

text \<open>
  The failure classification, the redaction of diagnostics and the helpers of the Docker
  executor that build commands, environments and mounts
  (\<^verbatim>\<open>crates/executor-docker/src/lib.rs\<close>, lines 45 to 342).
\<close>

section \<open>Redaction of structured diagnostics\<close>

definition sensitive_key :: "string \<Rightarrow> bool" where
  "sensitive_key normalized =
     (contains_str normalized ''token'' \<or> contains_str normalized ''password'' \<or>
      contains_str normalized ''secret'' \<or> contains_str normalized ''authorization'' \<or>
      ends_with normalized ''apikey'' \<or> ends_with normalized ''api_key'' \<or> ends_with normalized ''_key'')"

definition redacted :: json where
  "redacted = JStr ''<redacted>''"

definition redacted_command :: json where
  "redacted_command = JArr [JStr ''<redacted: command may contain credentials>'']"

definition mark_secret :: "json \<Rightarrow> json" where
  "mark_secret secret = (case secret of
     JObj ms \<Rightarrow> JObj (map (\<lambda>(k, v). (k, if k = ''value'' then redacted else v)) ms)
   | _ \<Rightarrow> secret)"

definition mark_secrets :: "json \<Rightarrow> json" where
  "mark_secrets value = (case value of JArr secrets \<Rightarrow> JArr (map mark_secret secrets) | _ \<Rightarrow> value)"

text \<open>The nesting depth bounds the recursion; marking secrets does not deepen a value.\<close>

fun jdepth :: "json \<Rightarrow> nat" where
  "jdepth (JArr vs) = Suc (foldr max (map jdepth vs) 0)"
| "jdepth (JObj ms) = Suc (foldr max (map (\<lambda>m. jdepth (snd m)) ms) 0)"
| "jdepth v = 0"

lemma foldr_max_ge: "x \<in> set xs \<Longrightarrow> x \<le> foldr max xs (0::nat)"
  by (induction xs) auto

lemma foldr_max_mono:
  "list_all2 (\<le>) xs ys \<Longrightarrow> foldr max xs (0::nat) \<le> foldr max ys 0"
  by (induction rule: list_all2_induct) auto

lemma jdepth_mark_secret: "jdepth (mark_secret v) \<le> jdepth v"
  by (cases v) (auto simp: mark_secret_def redacted_def list_all2_map1 list_all2_map2 list_all2_same
      intro!: foldr_max_mono)

lemma jdepth_mark_secrets: "jdepth (mark_secrets v) \<le> jdepth v"
  by (cases v) (auto simp: mark_secrets_def list_all2_map1 list_all2_map2 list_all2_same jdepth_mark_secret
      intro!: foldr_max_mono)

function (sequential) redact_diagnostic_value :: "json \<Rightarrow> json" where
  "redact_diagnostic_value (JObj ms) =
     JObj (map (\<lambda>m. (fst m,
       let normalized = to_ascii_lowercase (fst m) in
       if normalized = ''command'' then redacted_command
       else if normalized = ''secrets'' then redact_diagnostic_value (mark_secrets (snd m))
       else if sensitive_key normalized then redacted
       else redact_diagnostic_value (snd m))) ms)"
| "redact_diagnostic_value (JArr vs) = JArr (map redact_diagnostic_value vs)"
| "redact_diagnostic_value v = v"
  by pat_completeness auto
termination
proof (relation "measure jdepth", goal_cases)
  case (2 ms m x)
  then have "jdepth (snd m) < jdepth (JObj ms)" by (auto intro!: le_imp_less_Suc foldr_max_ge)
  then show ?case using jdepth_mark_secrets [of "snd m"] by simp
next
  case (3 ms m x)
  then show ?case by (auto intro!: le_imp_less_Suc foldr_max_ge)
next
  case (4 vs v)
  then show ?case by (auto intro!: le_imp_less_Suc foldr_max_ge)
qed simp

definition sanitize_docker_error :: "string \<Rightarrow> string" where
  "sanitize_docker_error message =
     (case redact_diagnostic_value (JStr message) of
        JStr text \<Rightarrow> take_chars 500 text
      | _ \<Rightarrow> take_chars 500 ''Docker operation failed'')"

definition image_pull :: "string \<Rightarrow> docker_failure" where
  "image_pull e = \<lparr> df_code = ''image_pull_failed'', df_phase = ''image_pull'',
     df_message = sanitize_docker_error e, df_retryable = True \<rparr>"

definition docker_failure_info :: "docker_failure \<Rightarrow> failure_info" where
  "docker_failure_info f = \<lparr> fi_kind = Infrastructure, fi_code = df_code f,
     fi_message = df_message f @ '' (phase: '' @ df_phase f @ '')'' \<rparr>"

section \<open>Redaction of output\<close>

definition max_diagnostic_bytes :: nat where
  "max_diagnostic_bytes = 64 * 1024"

definition known_secrets :: "(string \<Rightarrow> string option) \<Rightarrow> job_spec \<Rightarrow> string list" where
  "known_secrets env spec =
     (case js_workspace spec of Git g \<Rightarrow> [gw_token g] | _ \<Rightarrow> []) @
     map ss_value (js_secrets spec) @
     List.map_filter env (js_environment_from_runner spec)"

definition redact_secret :: "string \<Rightarrow> string \<Rightarrow> string" where
  "redact_secret text secret = (if secret \<noteq> [] then replace_all text secret ''<redacted>'' else text)"

definition redact_diagnostic_bytes :: "(string \<Rightarrow> string option) \<Rightarrow> job_spec \<Rightarrow> string \<Rightarrow> string" where
  "redact_diagnostic_bytes env spec bytes =
     (let output = foldl redact_secret (from_utf8_lossy bytes) (known_secrets env spec) in
      if length output > max_diagnostic_bytes
      then take max_diagnostic_bytes output @ CHR 0x0A # ''[diagnostic output truncated]'' @ [CHR 0x0A]
      else output)"

definition meta_json :: "job_spec \<Rightarrow> string option \<Rightarrow> json" where
  "meta_json spec phase = JObj
     [(''job_id'', JStr (js_id spec)),
      (''attempt'', JNum (NInt (int (unat (js_attempt spec))))),
      (''image'', JStr (js_image spec)),
      (''network'', JStr (js_network_mode spec)),
      (''phase'', case phase of Some p \<Rightarrow> JStr p | None \<Rightarrow> JNull)]"

definition write_failure_diagnostics ::
  "outside \<Rightarrow> string \<Rightarrow> job_spec \<Rightarrow> string option \<Rightarrow> string \<Rightarrow> string \<Rightarrow> ('h host_scheme, unit) op" where
  "write_failure_diagnostics E workspace spec phase stdout stderr =
     (let dir = path_join workspace ''.runner/diagnostics'' in
      and_then (invoke (o_unit E) (CreateDirAll dir)) (\<lambda>_.
      and_then (lift (o_to_value E spec)) (\<lambda>job.
      and_then (lift (o_pretty E (redact_diagnostic_value job))) (\<lambda>job.
      and_then (invoke (o_unit E) (WriteText (path_join dir ''job.json'') job)) (\<lambda>_.
      and_then (lift (o_pretty E (meta_json spec phase))) (\<lambda>meta.
      and_then (invoke (o_unit E) (WriteText (path_join dir ''meta.json'') meta)) (\<lambda>_.
      and_then (invoke (o_unit E) (WriteText (path_join dir ''stdout.log'')
                  (redact_diagnostic_bytes (o_env E) spec stdout))) (\<lambda>_.
      invoke (o_unit E) (WriteText (path_join dir ''stderr.log'')
                  (redact_diagnostic_bytes (o_env E) spec stderr))))))))))"

section \<open>Bounded output\<close>

definition append_bounded :: "string \<Rightarrow> string \<Rightarrow> u64 \<Rightarrow> string \<times> bool" where
  "append_bounded buffer data limit =
     (let remaining = unat limit - length buffer; amount = min (length data) remaining in
      (buffer @ take amount data, amount < length data))"

section \<open>Commands, environment and mounts\<close>

definition runtime_tmpfs :: "(string \<times> string) list" where
  "runtime_tmpfs =
     [(''/tmp'', ''rw,noexec,nosuid,size=256m''),
      (''/home/opencode/.opencode'', ''rw,nosuid,nodev,uid=10001,gid=10001,mode=0700,size=64m''),
      (''/home/opencode/.config/opencode'', ''rw,nosuid,nodev,uid=10001,gid=10001,mode=0700,size=512m''),
      (''/home/opencode/.local/share/opencode'', ''rw,nosuid,nodev,uid=10001,gid=10001,mode=0700,size=1g''),
      (''/home/opencode/.local/state'', ''rw,nosuid,nodev,uid=10001,gid=10001,mode=0700,size=32m''),
      (''/home/opencode/.cache/npm'', ''rw,nosuid,nodev,uid=10001,gid=10001,mode=0700,size=1g''),
      (''/home/opencode/.cache/opencode'', ''rw,nosuid,nodev,uid=10001,gid=10001,mode=0700,size=128m''),
      (''/home/opencode/.pub-cache'', ''rw,nosuid,nodev,uid=10001,gid=10001,mode=0700,size=1g'')]"

definition nl :: string where
  "nl = [CHR 0x0A]"

definition retry_script :: "string \<Rightarrow> string" where
  "retry_script script =
     ''set +e'' @ nl @ ''('' @ nl @ script @ nl @ '')'' @ nl @
     ''runner_rc=$?'' @ nl @
     ''if [ \"$runner_rc\" -ne 0 ] && grep -Fq '' @ [CHR 0x27] @ ''Unexpected server error'' @ [CHR 0x27] @
       '' .ai-kodu-runner/results/opencode.json 2>/dev/null; then'' @ nl @
     ''    echo '' @ [CHR 0x27] @ ''OpenCode reported an unexpected error; retrying once in 2 seconds'' @ [CHR 0x27] @ '' >&2'' @ nl @
     ''    sleep 2'' @ nl @ ''    ('' @ nl @ script @ nl @ ''    )'' @ nl @
     ''    runner_rc=$?'' @ nl @ ''fi'' @ nl @ ''exit \"$runner_rc\"''"

definition command_with_opencode_retry :: "string list \<Rightarrow> string list" where
  "command_with_opencode_retry command =
     (case command of
        [shell, flag, line] \<Rightarrow>
          if shell \<noteq> ''bash'' \<or> flag \<noteq> ''-lc'' \<or> \<not> contains_str line ''opencode run ''
             \<or> \<not> contains_str line ''.ai-kodu-runner/results/opencode.json''
          then command
          else [shell, flag, retry_script
                  (replace_first line ''opencode run '' ''opencode run --print-logs --log-level INFO '')]
      | _ \<Rightarrow> command)"

definition headless_opencode_environment :: "string list \<Rightarrow> string list \<Rightarrow> string list" where
  "headless_opencode_environment env command =
     (if \<not> list_ex (\<lambda>arg. contains_str arg ''opencode run '') command then env
      else env @ [''OPENCODE_CONFIG_CONTENT={\"agent\":{\"title\":{\"disable\":true}}}'',
                  ''OPENCODE_DISABLE_MODELS_FETCH=true''])"

section \<open>The feedback path on disk\<close>

fun make_parents :: "outside \<Rightarrow> string \<Rightarrow> component list \<Rightarrow> ('h host_scheme, unit) op" where
  "make_parents E current [] = ret ()"
| "make_parents E current (c # cs) =
     (let current = path_join current (component_str c) in
      and_then (ask (o_lstat E) (Lstat current)) (\<lambda>metadata.
      case metadata of
        LstatOk kind \<Rightarrow>
          if kind = IsSymlink then fail (Bail ''feedback_file parent must not be a symlink'')
          else if kind \<noteq> IsDirectory then fail (Bail ''feedback_file parent is not a directory'')
          else make_parents E current cs
      | LstatNotFound \<Rightarrow> and_then (invoke (o_unit E) (CreateDir current)) (\<lambda>_. make_parents E current cs)
      | LstatError e \<Rightarrow> fail e))"

definition safe_feedback_path :: "outside \<Rightarrow> string \<Rightarrow> string \<Rightarrow> ('h host_scheme, string) op" where
  "safe_feedback_path E base feedback_file =
     and_then (lift (validate_feedback_file feedback_file)) (\<lambda>relative.
     and_then (op_context ''canonicalize feedback workspace'' (invoke (o_canonicalize E) (Canonicalize base))) (\<lambda>base.
     and_then (case path_parent relative of
                 Some parent \<Rightarrow> make_parents E base (filter (\<lambda>c. c \<noteq> CurDir) (components parent))
               | None \<Rightarrow> ret ()) (\<lambda>_.
     let target = path_join base relative in
     and_then (ask (o_lstat E) (Lstat target)) (\<lambda>metadata.
     if metadata = LstatOk IsSymlink then fail (Bail ''feedback_file must not be a symlink'')
     else
     and_then (lift (ok_or (path_parent target) (Bail ''feedback_file has no parent directory''))) (\<lambda>parent.
     and_then (invoke (o_canonicalize E) (Canonicalize parent)) (\<lambda>parent.
     if \<not> path_starts_with parent base then fail (Bail ''feedback_file escapes workspace'')
     else ret target))))))"

text \<open>The histories that end with a call made between two states.\<close>

definition between :: "'h host_scheme \<Rightarrow> 'h host_scheme \<Rightarrow> history set" where
  "between s t = {h. prefix h (trace t) \<and> length (trace s) < length h}"

text \<open>The directories on the way from a directory to a file below it.\<close>

fun parent_chain :: "string \<Rightarrow> component list \<Rightarrow> string list" where
  "parent_chain dir [] = []"
| "parent_chain dir (c # cs) = path_join dir (component_str c) # parent_chain (path_join dir (component_str c)) cs"

definition parents_of :: "string \<Rightarrow> component list" where
  "parents_of relative = (case path_parent relative of
     Some parent \<Rightarrow> filter (\<lambda>c. c \<noteq> CurDir) (components parent) | None \<Rightarrow> [])"

text \<open>
  Between two states a path was looked at without following links and was a directory, or did
  not exist and was created as one; respectively it was not a symbolic link.
\<close>

definition checked_directory :: "outside \<Rightarrow> 'h host_scheme \<Rightarrow> 'h host_scheme \<Rightarrow> string \<Rightarrow> bool" where
  "checked_directory E s t p \<longleftrightarrow> (\<exists>h\<in>between s t. last h = Lstat p \<and>
     (o_lstat E h = LstatOk IsDirectory \<or>
      o_lstat E h = LstatNotFound \<and> h @ [CreateDir p] \<in> between s t \<and> o_unit E (h @ [CreateDir p]) = Inr ()))"

definition checked_no_link :: "outside \<Rightarrow> 'h host_scheme \<Rightarrow> 'h host_scheme \<Rightarrow> string \<Rightarrow> bool" where
  "checked_no_link E s t p \<longleftrightarrow> (\<exists>h\<in>between s t. last h = Lstat p \<and> o_lstat E h \<noteq> LstatOk IsSymlink)"

lemma between_mono:
  "prefix (trace s) (trace s') \<Longrightarrow> prefix (trace t') (trace t) \<Longrightarrow> between s' t' \<subseteq> between s t"
  unfolding between_def by (auto dest: prefix_length_le intro: prefix_order.trans)

lemma checked_directory_mono:
  "checked_directory E s' t' p \<Longrightarrow> prefix (trace s) (trace s') \<Longrightarrow> prefix (trace t') (trace t) \<Longrightarrow> checked_directory E s t p"
  unfolding checked_directory_def using between_mono by blast

lemma between_calls: "cs \<noteq> [] \<Longrightarrow> prefix (trace s @ cs) (trace t) \<Longrightarrow> trace s @ cs \<in> between s t"
  by (simp add: between_def)

lemma make_parents_checked:
  "make_parents E current cs s = (Inr u, t) \<Longrightarrow>
     prefix (trace s) (trace t) \<and> list_all (checked_directory E s t) (parent_chain current cs)"
proof (induction cs arbitrary: current s)
  case (Cons c cs)
  let ?cur = "path_join current (component_str c)"
  let ?h = "trace s @ [Lstat ?cur]"
  have step: "prefix (trace s) (trace t) \<and> list_all (checked_directory E s t) (parent_chain current (c # cs))"
    if "make_parents E ?cur cs s' = (Inr u, t)" "prefix ?h (trace s')" "checked_directory E s t ?cur" for s'
  proof -
    from that(2) have p: "prefix (trace s) (trace s')" by (auto intro: append_prefixD)
    with Cons.IH [OF that(1)] that(3) show ?thesis
      by (auto simp: list_all_iff intro: checked_directory_mono prefix_order.trans)
  qed
  show ?case
  proof (cases "o_lstat E ?h")
    case (LstatOk k)
    with Cons.prems have k: "k = IsDirectory" and go: "make_parents E ?cur cs (with_calls s [Lstat ?cur]) = (Inr u, t)"
      by (auto simp: Let_def and_then_ok ask_ok fail_def split: if_splits)
    from Cons.IH [OF go] have "?h \<in> between s t" by (intro between_calls) simp_all
    with LstatOk k have "checked_directory E s t ?cur"
      unfolding checked_directory_def by (intro bexI [of _ ?h]) simp_all
    then show ?thesis by (rule step [OF go, rotated]) simp
  next
    case LstatNotFound
    let ?s2 = "with_calls (with_calls s [Lstat ?cur]) [CreateDir ?cur]"
    from LstatNotFound Cons.prems have made: "o_unit E (?h @ [CreateDir ?cur]) = Inr ()"
      and go: "make_parents E ?cur cs ?s2 = (Inr u, t)"
      by (auto simp: Let_def and_then_ok ask_ok invoke_iff)
    from Cons.IH [OF go] have p: "prefix (trace s @ [Lstat ?cur, CreateDir ?cur]) (trace t)" by simp
    then have "?h \<in> between s t" by (intro between_calls) (auto intro: append_prefixD)
    moreover have "?h @ [CreateDir ?cur] \<in> between s t" using between_calls [OF _ p] by simp
    ultimately have "checked_directory E s t ?cur"
      unfolding checked_directory_def using LstatNotFound made by (intro bexI [of _ ?h]) simp_all
    then show ?thesis by (rule step [OF go, rotated]) simp
  next
    case (LstatError e)
    with Cons.prems show ?thesis by (auto simp: Let_def and_then_ok ask_ok fail_def)
  qed
qed (simp add: ret_def)

section \<open>Properties\<close>

text \<open>
  C37: When the feedback path is accepted, it is the validated relative path joined to the
  canonical workspace, so it stays below it by names alone. Every directory on the way to it
  was looked at and is a directory, or did not exist and was created; the file itself was
  looked at and is no symbolic link; and the canonical form of its directory lies in the
  workspace.
\<close>

theorem feedback_path_safe:
  assumes "safe_feedback_path E base feedback_file s = (Inr target, t)"
  shows "\<exists>real relative parent inside. o_canonicalize E (trace s @ [Canonicalize base]) = Inr real \<and>
    validate_feedback_file feedback_file = Inr relative \<and> target = path_join real relative \<and>
    list_all (checked_directory E s t) (parent_chain real (parents_of relative)) \<and> checked_no_link E s t target \<and>
    path_parent target = Some parent \<and> last (trace t) = Canonicalize parent \<and>
    o_canonicalize E (trace t) = Inr inside \<and> path_starts_with inside real \<and>
    (real = [] \<or> ends_with real ''/'' \<or> contained real target)"
proof -
  from assms obtain relative real s1 s2 parent inside where
    rel: "validate_feedback_file feedback_file = Inr relative"
    and real: "o_canonicalize E (trace s @ [Canonicalize base]) = Inr real"
    and s1: "s1 = with_calls s [Canonicalize base]"
    and mk: "(case path_parent relative of
                 Some parent \<Rightarrow> make_parents E real (filter (\<lambda>c. c \<noteq> CurDir) (components parent))
               | None \<Rightarrow> ret ()) s1 = (Inr (), s2)"
    and ls: "o_lstat E (trace s2 @ [Lstat target]) \<noteq> LstatOk IsSymlink" and target: "target = path_join real relative"
    and t: "t = with_calls (with_calls s2 [Lstat target]) [Canonicalize parent]"
    and parent: "path_parent target = Some parent" "o_canonicalize E (trace t) = Inr inside" "path_starts_with inside real"
    by (auto simp: safe_feedback_path_def and_then_ok lift_def op_context_def with_context_def invoke_def ask_ok
        Let_def fail_def ret_def ok_or_def split: if_splits sum.splits option.splits)
  have "prefix (trace s1) (trace s2) \<and> list_all (checked_directory E s1 s2) (parent_chain real (parents_of relative))"
    using mk by (cases "path_parent relative") (auto simp: parents_of_def ret_def dest: make_parents_checked)
  then have dirs: "prefix (trace s) (trace s2)" "list_all (checked_directory E s t) (parent_chain real (parents_of relative))"
    unfolding s1 t by (auto simp: list_all_iff intro: append_prefixD checked_directory_mono)
  from dirs(1) have "trace s2 @ [Lstat target] \<in> between s t"
    by (auto simp: between_def t dest: prefix_length_le)
  with ls have "checked_no_link E s t target"
    unfolding checked_no_link_def by (intro bexI [of _ "trace s2 @ [Lstat target]"]) simp_all
  moreover have "contained real target" if "real \<noteq> []" "\<not> ends_with real ''/''"
  proof -
    note ok = validate_feedback_file_ok [OF rel]
    from ok(1) have "ParentDir \<notin> set (components relative)"
      by (auto simp: stays_below_def list_all_iff dest!: bspec)
    then show ?thesis unfolding target by (rule contained_join [OF ok(2) _ that])
  qed
  ultimately show ?thesis using rel real target dirs(2) parent t by force
qed

lemma sample_feedback_path:
  "fst (safe_feedback_path sample_outside ''/srv/job'' ''/workspace/.runner/feedback.md'' sample_host)
     = Inr ''/srv/job/.runner/feedback.md''"
proof -
  have "path_parent ''.runner/feedback.md'' = Some ''.runner''" "components ''.runner'' = [Normal ''.runner'']"
    "path_join ''/srv/job'' ''.runner'' = ''/srv/job/.runner''" "path_parent ''/srv/job/.runner/feedback.md'' = Some ''/srv/job/.runner''"
    "path_join ''/srv/job'' ''.runner/feedback.md'' = ''/srv/job/.runner/feedback.md''"
    "path_starts_with ''/srv/job/.runner'' ''/srv/job''" by code_simp+
  then show ?thesis
    by (simp add: safe_feedback_path_def sample_feedback and_then_def lift_def op_context_def with_context_def invoke_def ask_def
        Let_def ret_def fail_def ok_or_def sample_outside_def sample_host_def)
qed

theorem feedback_path_safe_witness:
  "\<exists>t. safe_feedback_path sample_outside ''/srv/job'' ''/workspace/.runner/feedback.md'' sample_host =
      (Inr ''/srv/job/.runner/feedback.md'', t) \<and>
     checked_no_link sample_outside sample_host t ''/srv/job/.runner/feedback.md''"
proof -
  have run: "safe_feedback_path sample_outside ''/srv/job'' ''/workspace/.runner/feedback.md'' sample_host =
      (Inr ''/srv/job/.runner/feedback.md'', snd (safe_feedback_path sample_outside ''/srv/job'' ''/workspace/.runner/feedback.md'' sample_host))"
    using sample_feedback_path by (simp add: prod_eq_iff)
  from feedback_path_safe [OF run] show ?thesis using run by blast
qed

text \<open>The state of the object members that diagnostics may show.\<close>

fun clean_json :: "json \<Rightarrow> bool" where
  "clean_json (JObj ms) = list_all (\<lambda>m.
     let normalized = to_ascii_lowercase (fst m) in
     if normalized = ''command'' then snd m = redacted_command
     else if normalized = ''secrets'' then clean_json (snd m) \<and> mark_secrets (snd m) = snd m
     else if sensitive_key normalized then snd m = redacted
     else clean_json (snd m)) ms"
| "clean_json (JArr vs) = list_all clean_json vs"
| "clean_json v = True"

lemma value_key_shown: "to_ascii_lowercase ''value'' = ''value''" "\<not> sensitive_key ''value''"
  by code_simp+

lemma mark_secret_redact:
  "mark_secret (redact_diagnostic_value (mark_secret v)) = redact_diagnostic_value (mark_secret v)"
proof (cases v)
  case (JObj ms)
  have "redact_diagnostic_value redacted = redacted" by (simp add: redacted_def)
  then show ?thesis
    using JObj value_key_shown by (auto simp: mark_secret_def split_beta)
qed (simp_all add: mark_secret_def)

lemma mark_secrets_redact:
  "mark_secrets (redact_diagnostic_value (mark_secrets v)) = redact_diagnostic_value (mark_secrets v)"
  by (cases v) (simp_all add: mark_secrets_def mark_secret_redact)

lemma redact_clean: "clean_json (redact_diagnostic_value v)"
  by (induction v rule: redact_diagnostic_value.induct)
     (auto simp: list_all_iff Let_def mark_secrets_redact redacted_command_def redacted_def)

lemma clean_redact: "clean_json v \<Longrightarrow> redact_diagnostic_value v = v"
proof (induction v rule: clean_json.induct)
  case (1 ms)
  have "(fst m, let normalized = to_ascii_lowercase (fst m) in
       if normalized = ''command'' then redacted_command
       else if normalized = ''secrets'' then redact_diagnostic_value (mark_secrets (snd m))
       else if sensitive_key normalized then redacted
       else redact_diagnostic_value (snd m)) = m" if "m \<in> set ms" for m
    using that 1 by (auto simp: list_all_iff Let_def prod_eq_iff split: if_splits)
  then show ?case by (simp add: map_idI)
next
  case (2 vs)
  then show ?case by (simp add: list_all_iff map_idI)
qed simp_all

text \<open>The members of a value at any depth.\<close>

fun members :: "json \<Rightarrow> (string \<times> json) list" where
  "members (JObj ms) = ms @ concat (map (\<lambda>m. members (snd m)) ms)"
| "members (JArr vs) = concat (map members vs)"
| "members v = []"

text \<open>Names that say that the value may be a credential.\<close>

definition credential_name :: "string \<Rightarrow> bool" where
  "credential_name k \<longleftrightarrow>
     list_ex (contains_str (to_ascii_lowercase k)) [''token'', ''password'', ''secret'', ''authorization''] \<or>
     list_ex (ends_with (to_ascii_lowercase k)) [''apikey'', ''api_key'', ''_key'']"

text \<open>The value of no object in a list of secrets is shown.\<close>

fun values_hidden :: "json \<Rightarrow> bool" where
  "values_hidden (JArr es) = list_all (\<lambda>e. case e of
     JObj ms \<Rightarrow> list_all (\<lambda>m. fst m = ''value'' \<longrightarrow> snd m = JStr ''<redacted>'') ms | _ \<Rightarrow> True) es"
| "values_hidden v = True"

text \<open>What diagnostics may show of one member.\<close>

definition hidden :: "string \<times> json \<Rightarrow> bool" where
  "hidden m \<longleftrightarrow>
     (if to_ascii_lowercase (fst m) = ''command''
      then snd m = JArr [JStr ''<redacted: command may contain credentials>'']
      else if to_ascii_lowercase (fst m) = ''secrets'' then values_hidden (snd m)
      else credential_name (fst m) \<longrightarrow> snd m = JStr ''<redacted>'')"

definition credential_free :: "json \<Rightarrow> bool" where
  "credential_free v \<longleftrightarrow> list_all hidden (members v)"

lemma credential_free_simps:
  "credential_free (JObj ms) \<longleftrightarrow> list_all (\<lambda>m. hidden m \<and> credential_free (snd m)) ms"
  "credential_free (JArr vs) \<longleftrightarrow> list_all credential_free vs"
  "credential_free (JStr x)"
  by (auto simp: credential_free_def list_all_iff)

lemma credential_name_sensitive: "credential_name k \<longleftrightarrow> sensitive_key (to_ascii_lowercase k)"
  by (auto simp: credential_name_def sensitive_key_def)

lemma mark_secret_same:
  "mark_secret e = e \<longleftrightarrow> (case e of
     JObj ms \<Rightarrow> list_all (\<lambda>m. fst m = ''value'' \<longrightarrow> snd m = JStr ''<redacted>'') ms | _ \<Rightarrow> True)"
proof (cases e)
  case (JObj ms)
  have "map f ms = ms \<longleftrightarrow> list_all (\<lambda>m. f m = m) ms" for f by (induction ms) auto
  with JObj show ?thesis by (auto simp: mark_secret_def redacted_def list_all_iff split_beta prod_eq_iff)
qed (simp_all add: mark_secret_def)

lemma mark_secrets_same: "mark_secrets v = v \<longleftrightarrow> values_hidden v"
proof (cases v)
  case (JArr es)
  have "map mark_secret es = es \<longleftrightarrow> list_all (\<lambda>e. mark_secret e = e) es" by (induction es) auto
  with JArr show ?thesis by (simp add: mark_secrets_def mark_secret_same)
qed (simp_all add: mark_secrets_def)

lemma clean_json_iff: "clean_json v \<longleftrightarrow> credential_free v"
proof (induction v rule: clean_json.induct)
  case (1 ms)
  have "(let normalized = to_ascii_lowercase (fst m) in
     if normalized = ''command'' then snd m = redacted_command
     else if normalized = ''secrets'' then clean_json (snd m) \<and> mark_secrets (snd m) = snd m
     else if sensitive_key normalized then snd m = redacted
     else clean_json (snd m)) \<longleftrightarrow> hidden m \<and> credential_free (snd m)" if "m \<in> set ms" for m
    using that 1 by (auto simp: hidden_def Let_def redacted_def redacted_command_def mark_secrets_same
        credential_name_sensitive credential_free_simps)
  then show ?case by (simp add: credential_free_simps list_all_iff)
next
  case (2 vs)
  then show ?case by (simp add: credential_free_simps list_all_iff)
qed (simp_all add: credential_free_def)

text \<open>
  C38: In redacted diagnostics, at any depth and in any case of the letters, every member
  called command is the fixed marker, every other member whose name contains token, password,
  secret or authorization, or ends in apikey, api_key or _key, is the marker, and in a list
  called secrets the \<^verbatim>\<open>value\<close> of every object is the marker (a member called secrets that is no
  such list is shown, see below). A value without such members is not changed, so redacting
  again changes nothing.
\<close>

theorem redaction_is_complete:
  "credential_free (redact_diagnostic_value v) \<and>
   (credential_free v \<longrightarrow> redact_diagnostic_value v = v) \<and>
   redact_diagnostic_value (redact_diagnostic_value v) = redact_diagnostic_value v"
  by (simp add: clean_json_iff [symmetric] redact_clean clean_redact)

theorem redaction_is_complete_witness:
  "redact_diagnostic_value (JObj [(''image'', JStr ''alpine''), (''Api_Key'', JStr ''<redacted>'')]) =
     JObj [(''image'', JStr ''alpine''), (''Api_Key'', JStr ''<redacted>'')]"
proof -
  have "credential_free (JObj [(''image'', JStr ''alpine''), (''Api_Key'', JStr ''<redacted>'')])" by code_simp
  then show ?thesis using redaction_is_complete by blast
qed

text \<open>Text that a member called secrets holds directly is shown.\<close>

theorem secrets_text_is_shown:
  "redact_diagnostic_value (JObj [(''secrets'', JStr text)]) = JObj [(''secrets'', JStr text)]"
proof -
  have "to_ascii_lowercase ''secrets'' = ''secrets''" by code_simp
  then show ?thesis by (simp add: mark_secrets_def)
qed

section \<open>Output\<close>

interpretation redaction_marker: marker "CHR ''<''" "''redacted''" "CHR ''>''" "''<redacted>''"
  by unfold_locales simp

text \<open>Secrets that are no part of the marker, respectively of the notice either.\<close>

definition evades_marker :: "string \<Rightarrow> bool" where
  "evades_marker q \<longleftrightarrow> q \<noteq> [] \<and> CHR ''<'' \<notin> set q \<and> CHR ''>'' \<notin> set q \<and> \<not> contains_str ''redacted'' q"

definition evades_notices :: "string \<Rightarrow> bool" where
  "evades_notices q \<longleftrightarrow> evades_marker q \<and> CHR 0x0A \<notin> set q \<and> \<not> contains_str ''[diagnostic output truncated]'' q"

lemma evades_marker_locale: "evades_marker q \<Longrightarrow> redaction_marker.evades q"
  by (simp add: evades_marker_def redaction_marker.evades_def)

lemma foldl_redact_keeps: "redaction_marker.evades q \<Longrightarrow> \<not> contains_str m q \<Longrightarrow> \<not> contains_str (foldl redact_secret m ss) q"
proof (induction ss arbitrary: m)
  case (Cons a ss)
  have "\<not> contains_str (redact_secret m a) q"
    using redaction_marker.replace_all_keeps_absent [OF Cons.prems(1) refl, of "[]" m a] Cons.prems(2)
    by (simp add: redact_secret_def)
  with Cons show ?case by simp
qed simp

lemma foldl_redact_removes:
  "q \<in> set ss \<Longrightarrow> redaction_marker.evades q \<Longrightarrow> \<not> contains_str (foldl redact_secret m ss) q"
proof (induction ss arbitrary: m)
  case (Cons a ss)
  show ?case
  proof (cases "q \<in> set ss")
    case False
    with Cons.prems have "\<not> contains_str (redact_secret m a) q"
      using redaction_marker.replace_all_removes [of q m]
      by (auto simp: redact_secret_def redaction_marker.evades_def)
    then show ?thesis using foldl_redact_keeps [OF Cons.prems(2)] by simp
  qed (use Cons in simp)
qed simp

text \<open>
  C39: The output kept in diagnostics is at most 64 KiB, with a fixed notice after it only
  when that limit is reached. What is kept contains none of the secrets the runner knows of the
  job (git token, secret values, forwarded variables), as long as they are not empty, have no
  angle bracket and are no part of the marker's word \<^verbatim>\<open>redacted\<close>; with the notice included
  this holds for those that moreover have no line break and are no part of the notice.
\<close>

theorem diagnostic_output_redacted:
  "\<exists>kept. length kept \<le> 65536 \<and>
     redact_diagnostic_bytes env spec bytes \<in>
       {kept, kept @ CHR 0x0A # ''[diagnostic output truncated]'' @ [CHR 0x0A]} \<and>
     (redact_diagnostic_bytes env spec bytes = kept \<or> length kept = 65536) \<and>
     list_all (\<lambda>secret. \<not> contains_str kept secret) (filter evades_marker (known_secrets env spec)) \<and>
     list_all (\<lambda>secret. \<not> contains_str (redact_diagnostic_bytes env spec bytes) secret)
       (filter evades_notices (known_secrets env spec))"
proof -
  let ?out = "foldl redact_secret (from_utf8_lossy bytes) (known_secrets env spec)"
  let ?kept = "take max_diagnostic_bytes ?out" and ?notice = "''[diagnostic output truncated]''"
  have kept: "\<not> contains_str ?kept q" if "q \<in> set (known_secrets env spec)" "evades_marker q" for q
    using foldl_redact_removes [OF that(1) evades_marker_locale [OF that(2)]]
    by (meson sublist_order.order.trans sublist_take)
  have out: "\<not> contains_str (?kept @ CHR 0x0A # ?notice @ CHR 0x0A # []) q"
    if q: "q \<in> set (known_secrets env spec)" and e: "evades_notices q" for q
  proof -
    have nl: "CHR 0x0A \<notin> set q" using e by (simp add: evades_notices_def)
    have "\<not> contains_str ?kept q" "\<not> contains_str ?notice q" "\<not> contains_str [] q"
      using kept [OF q] e by (auto simp: evades_notices_def evades_marker_def)
    then show ?thesis
      by (simp only: redaction_marker.sublist_sep [OF nl] de_Morgan_disj simp_thms)
  qed
  have whole: "redact_diagnostic_bytes env spec bytes =
      (if length ?out > max_diagnostic_bytes then ?kept @ CHR 0x0A # ?notice @ CHR 0x0A # [] else ?kept)"
    by (simp add: redact_diagnostic_bytes_def Let_def)
  have "\<not> contains_str (redact_diagnostic_bytes env spec bytes) q"
    if "q \<in> set (known_secrets env spec)" "evades_notices q" for q
  proof (cases "length ?out > max_diagnostic_bytes")
    case True
    show ?thesis unfolding whole if_P [OF True] by (rule out [OF that])
  next
    case False
    from that(2) have "evades_marker q" by (simp only: evades_notices_def)
    then show ?thesis unfolding whole if_not_P [OF False] by (rule kept [OF that(1)])
  qed
  then have "list_all (\<lambda>secret. \<not> contains_str (redact_diagnostic_bytes env spec bytes) secret)
       (filter evades_notices (known_secrets env spec))"
    by (simp only: list_all_iff set_filter mem_Collect_eq) blast
  moreover have "list_all (\<lambda>secret. \<not> contains_str ?kept secret) (filter evades_marker (known_secrets env spec))"
    using kept by (simp only: list_all_iff set_filter mem_Collect_eq) blast
  moreover have "length ?kept \<le> 65536" by (simp add: max_diagnostic_bytes_def)
  moreover have "redact_diagnostic_bytes env spec bytes \<in> {?kept, ?kept @ CHR 0x0A # ?notice @ [CHR 0x0A]}"
    unfolding whole by (cases "length ?out > max_diagnostic_bytes") simp_all
  moreover have "redact_diagnostic_bytes env spec bytes = ?kept \<or> length ?kept = 65536"
    unfolding whole by (cases "length ?out > max_diagnostic_bytes") (simp_all add: max_diagnostic_bytes_def)
  ultimately show ?thesis by blast
qed

text \<open>
  The message of an image-pull failure is not redacted: wrapped as a JSON string it has no
  members, so sanitizing only cuts it to 500 characters and the classification shown to the
  control plane repeats the registry's text.
\<close>

theorem image_pull_message_is_not_redacted:
  "fi_message (docker_failure_info (image_pull e)) = take_chars 500 e @ '' (phase: image_pull)'' \<and>
   fi_kind (docker_failure_info (image_pull e)) = Infrastructure"
  by (simp add: docker_failure_info_def image_pull_def sanitize_docker_error_def)

definition append_all :: "u64 \<Rightarrow> string list \<Rightarrow> string \<times> bool" where
  "append_all limit chunks = foldl (\<lambda>(buffer, truncated) data.
     case append_bounded buffer data limit of (buffer', t) \<Rightarrow> (buffer', truncated \<or> t)) ([], False) chunks"

text \<open>
  Collecting output chunk by chunk keeps exactly the first bytes up to the limit, and the
  truncation flag is raised exactly when something was lost.
\<close>

theorem bounded_output_is_a_prefix:
  "append_all limit chunks = (take (unat limit) (concat chunks), length (concat chunks) > unat limit)"
proof (induction chunks rule: rev_induct)
  case (snoc c cs)
  let ?n = "unat limit" and ?x = "concat cs"
  have "append_all limit (cs @ [c]) = (case append_bounded (take ?n ?x) c limit of (b, t) \<Rightarrow> (b, ?n < length ?x \<or> t))"
    using snoc by (simp add: append_all_def)
  also have "\<dots> = (take ?n (?x @ c), ?n < length (?x @ c))"
  proof (cases "?n \<le> length ?x")
    case True
    then show ?thesis by (cases c) (auto simp: append_bounded_def Let_def min_def)
  next
    case False
    then show ?thesis by (auto simp: append_bounded_def Let_def min_def)
  qed
  finally show ?case by simp
qed (simp add: append_all_def)

end
