(* ===== verification/Admission_Policy.thy ===== *)
theory Admission_Policy
  imports Runner_Config
begin

text \<open>
  The local admission policy of \<^verbatim>\<open>crates/runner-core/src/policy.rs\<close>: clamping the requested
  resources, validating a job against the runner's configuration and building the container
  environment. \<open>canonicalize\<close> is \<^verbatim>\<open>Path::canonicalize\<close> (\<open>None\<close> when the file system refuses)
  and \<open>env\<close> is \<^verbatim>\<open>std::env::var\<close>.
\<close>

section \<open>Operations\<close>

datatype validation_context = LocalContext | DaemonContext

definition requires_digest :: "validation_context \<Rightarrow> bool" where
  "requires_digest c = (c = DaemonContext)"

text \<open>The double nearest to 0.01.\<close>

definition min_cpu :: f64 where
  "min_cpu = Fin (5764607523034235 / 576460752303423488)"

definition clamp :: "resources \<Rightarrow> runner_config \<Rightarrow> resources" where
  "clamp r c =
     \<lparr> cpu = f64_max (f64_min (cpu r) (max_cpu (rc_limits c))) min_cpu,
       memory_mb = max (min (memory_mb r) (max_memory_mb (rc_limits c))) 16,
       pids = max (min (pids r) (max_pids (rc_limits c))) 1,
       timeout_seconds = max (min (timeout_seconds r) (max_timeout_seconds (rc_limits c))) 1 \<rparr>"

definition is_within :: "(string \<Rightarrow> string option) \<Rightarrow> string \<Rightarrow> string \<Rightarrow> bool" where
  "is_within canonicalize path base =
     (case canonicalize path of Some p \<Rightarrow> path_starts_with p base | None \<Rightarrow> False)"

text \<open>\<open>names\<close> is the hash set of the names seen so far.\<close>

fun check_environment_names :: "string list \<Rightarrow> string list \<Rightarrow> string list result" where
  "check_environment_names names [] = Inr names"
| "check_environment_names names (name # rest) =
     bail_if (name \<in> set names) (''duplicate secret name: '' @ name)
       (check_environment_names (name # names) rest)"

fun check_secrets :: "string list \<Rightarrow> string list \<Rightarrow> secret_spec list \<Rightarrow> unit result" where
  "check_secrets allowed names [] = Inr ()"
| "check_secrets allowed names (secret # rest) =
     bail_if (ss_name secret \<notin> set allowed)
       (''secret is not allowed by local policy: '' @ ss_name secret)
     (bail_if (ss_secret_ref secret \<noteq> None)
       ''secret_ref is not resolvable by the Community executor''
     (bail_if (ss_name secret \<in> set names) (''duplicate secret name: '' @ ss_name secret)
       (check_secrets allowed (ss_name secret # names) rest)))"

definition check_workspace :: "(string \<Rightarrow> string option) \<Rightarrow> string \<Rightarrow> workspace_spec \<Rightarrow> unit result" where
  "check_workspace canonicalize work_dir workspace =
     (let base = (case canonicalize work_dir of Some d \<Rightarrow> d | None \<Rightarrow> work_dir) in
      case workspace of
        Local path \<Rightarrow>
          (let resolved = (if is_absolute path then path else path_join base path) in
           bail_if (\<not> is_within canonicalize resolved base)
             ''local workspace must be inside configured work_dir'' (Inr ()))
      | ArchiveUrl url \<Rightarrow> Inr ()
      | Git git \<Rightarrow> Inr ())"

definition validate_with_context ::
  "(string \<Rightarrow> string option) \<Rightarrow> job_spec \<Rightarrow> runner_config \<Rightarrow> validation_context \<Rightarrow> resources result" where
  "validate_with_context canonicalize spec c context =
     bind_result (validate_job spec (requires_digest context)) (\<lambda>_.
     bail_if (\<not> allow_network (rc_security c) \<and> js_network_mode spec = ''bridge'')
       ''network disabled by local policy''
     (bail_if (list_ex (\<lambda>x. x \<notin> set (allowed_environment (rc_security c))) (js_environment_from_runner spec))
       ''job requests an environment variable not allowed by policy''
     (bind_result (check_environment_names [] (js_environment_from_runner spec)) (\<lambda>names.
      bind_result (check_secrets (allowed_environment (rc_security c)) names (js_secrets spec)) (\<lambda>_.
      let r = clamp (js_resources spec) c in
      bind_result (check_workspace canonicalize (rc_work_dir c) (js_workspace spec)) (\<lambda>_.
      Inr r))))))"

definition validate :: "(string \<Rightarrow> string option) \<Rightarrow> job_spec \<Rightarrow> runner_config \<Rightarrow> bool \<Rightarrow> resources result" where
  "validate canonicalize spec c daemon =
     validate_with_context canonicalize spec c (if daemon then DaemonContext else LocalContext)"

fun environment_from_runner :: "env \<Rightarrow> string list \<Rightarrow> string list result" where
  "environment_from_runner env [] = Inr []"
| "environment_from_runner env (key # rest) =
     bind_result (ok_or (env key) (Bail (''missing environment secret: '' @ key))) (\<lambda>value.
     bind_result (environment_from_runner env rest) (\<lambda>vars. Inr ((key @ ''='' @ value) # vars)))"

fun environment_from_secrets :: "string list \<Rightarrow> secret_spec list \<Rightarrow> string list result" where
  "environment_from_secrets allowed [] = Inr []"
| "environment_from_secrets allowed (secret # rest) =
     bail_if (ss_name secret \<notin> set allowed)
       (''secret is not allowed by local policy: '' @ ss_name secret)
     (bail_if (ss_secret_ref secret \<noteq> None)
       ''secret_ref is not resolvable by the Community executor''
     (bind_result (environment_from_secrets allowed rest)
        (\<lambda>vars. Inr ((ss_name secret @ ''='' @ ss_value secret) # vars))))"

definition environment_for_job :: "env \<Rightarrow> job_spec \<Rightarrow> runner_config \<Rightarrow> string list result" where
  "environment_for_job env spec c =
     bind_result (environment_from_runner env (js_environment_from_runner spec)) (\<lambda>vars.
     bind_result (environment_from_secrets (allowed_environment (rc_security c)) (js_secrets spec))
       (\<lambda>secrets. Inr (vars @ secrets)))"

section \<open>What the loops accept\<close>

lemma check_environment_names_ok:
  "check_environment_names names xs = Inr ns \<longleftrightarrow>
     distinct xs \<and> set xs \<inter> set names = {} \<and> ns = rev xs @ names"
  by (induction xs arbitrary: names) (auto simp: bail_if_ok)

lemma check_secrets_ok:
  "check_secrets allowed names xs = Inr u \<longleftrightarrow>
     list_all (\<lambda>s. ss_name s \<in> set allowed \<and> ss_secret_ref s = None) xs \<and>
     distinct (map ss_name xs) \<and> set (map ss_name xs) \<inter> set names = {}"
  by (induction xs arbitrary: names) (auto simp: bail_if_ok)

lemma environment_from_runner_ok:
  "environment_from_runner env ks = Inr vars \<longleftrightarrow>
     (\<exists>vs. map env ks = map Some vs \<and> vars = map2 (\<lambda>k v. k @ ''='' @ v) ks vs)"
proof (induction ks arbitrary: vars)
  case (Cons k ks)
  show ?case
    by (cases "env k") (auto simp: Cons.IH ok_or_def bind_result_ok Cons_eq_map_conv map_eq_Cons_conv)
qed auto

lemma environment_from_secrets_ok:
  "environment_from_secrets allowed xs = Inr vars \<longleftrightarrow>
     list_all (\<lambda>s. ss_name s \<in> set allowed \<and> ss_secret_ref s = None) xs \<and>
     vars = map (\<lambda>s. ss_name s @ ''='' @ ss_value s) xs"
  by (induction xs arbitrary: vars) (auto simp: bail_if_ok bind_result_ok)

text \<open>The names a job puts into its container.\<close>

definition injected_names :: "job_spec \<Rightarrow> string list" where
  "injected_names spec = js_environment_from_runner spec @ map ss_name (js_secrets spec)"

definition workspace_admitted :: "(string \<Rightarrow> string option) \<Rightarrow> runner_config \<Rightarrow> workspace_spec \<Rightarrow> bool" where
  "workspace_admitted canonicalize c w = (case w of
     Local path \<Rightarrow>
       (let base = (case canonicalize (rc_work_dir c) of Some d \<Rightarrow> d | None \<Rightarrow> rc_work_dir c) in
        (\<exists>p. canonicalize (path_join base path) = Some p \<and> prefix (components base) (components p)))
   | _ \<Rightarrow> True)"

definition admitted :: "(string \<Rightarrow> string option) \<Rightarrow> runner_config \<Rightarrow> validation_context \<Rightarrow> job_spec \<Rightarrow> bool" where
  "admitted canonicalize c context spec \<longleftrightarrow>
     valid_job (requires_digest context) spec \<and>
     (allow_network (rc_security c) \<or> js_network_mode spec = ''none'') \<and>
     distinct (injected_names spec) \<and>
     set (injected_names spec) \<subseteq> set (allowed_environment (rc_security c)) \<and>
     list_all (\<lambda>s. ss_secret_ref s = None) (js_secrets spec) \<and>
     workspace_admitted canonicalize c (js_workspace spec)"

lemma check_workspace_ok:
  "check_workspace canonicalize (rc_work_dir c) w = Inr u \<longleftrightarrow> workspace_admitted canonicalize c w"
proof (cases w)
  case (Local path)
  have "(if is_absolute path then path else path_join base path) = path_join base path" for base
    by (simp add: path_join_def)
  with Local show ?thesis
    by (auto simp: check_workspace_def workspace_admitted_def Let_def is_within_def path_starts_with_def
        split: option.splits)
qed (auto simp: check_workspace_def workspace_admitted_def Let_def)

lemma validate_with_context_ok:
  "validate_with_context canonicalize spec c context = Inr r \<longleftrightarrow>
     admitted canonicalize c context spec \<and> r = clamp (js_resources spec) c"
proof -
  have net: "valid_job d spec \<Longrightarrow> js_network_mode spec \<noteq> ''bridge'' \<longleftrightarrow> js_network_mode spec = ''none''" for d
    by (auto simp: valid_job_def)
  show ?thesis
    unfolding validate_with_context_def admitted_def injected_names_def Let_def
    by (auto simp: validate_job_ok check_environment_names_ok check_secrets_ok check_workspace_ok
        bind_result_ok bail_if_ok net list_ex_iff list_all_iff)
qed

section \<open>Properties\<close>

text \<open>
  C10: The policy admits a job exactly when it is structurally valid, needs no network the
  runner forbids, injects only allowed and pairwise different variable names, refers to no
  external secret, and its local workspace resolves to a path whose components extend those
  of the work directory; the resources it grants are the clamped ones.
\<close>

theorem validate_iff:
  "validate canonicalize spec c daemon = Inr r \<longleftrightarrow>
     admitted canonicalize c (if daemon then DaemonContext else LocalContext) spec \<and>
     r = clamp (js_resources spec) c"
  unfolding validate_def by (rule validate_with_context_ok)

lemma clamp_idem: "max (min (max (min a h) l) h) l = max (min a h) (l :: 'a::linorder)"
  by (auto simp: max_def min_def)

lemma f64_clamp_idem:
  "lo \<noteq> NaN \<Longrightarrow> f64_max (f64_min (f64_max (f64_min a hi) lo) hi) lo = f64_max (f64_min a hi) lo"
  by (cases a; cases hi; cases lo) (auto simp: f64_max_def f64_min_def)



text \<open>
  For an admitted job the environment is one \<^verbatim>\<open>NAME=value\<close> entry per requested name, in order,
  with names that are pairwise different and all on the runner's allow list; a host variable
  that is not set is an error naming it and never an empty entry.
\<close>

lemma environment_for_admitted_job:
  assumes "validate canonicalize spec c daemon = Inr r"
  shows "distinct (injected_names spec) \<and>
    set (injected_names spec) \<subseteq> set (allowed_environment (rc_security c)) \<and>
    environment_for_job env spec c =
      (case List.find (\<lambda>k. env k = None) (js_environment_from_runner spec) of
         Some k \<Rightarrow> Inl (Bail (''missing environment secret: '' @ k))
       | None \<Rightarrow> Inr (map (\<lambda>k. k @ ''='' @ the (env k)) (js_environment_from_runner spec) @
                     map (\<lambda>s. ss_name s @ ''='' @ ss_value s) (js_secrets spec)))"
proof -
  from assms have adm: "admitted canonicalize c (if daemon then DaemonContext else LocalContext) spec"
    unfolding validate_def by (simp add: validate_with_context_ok)
  have host: "environment_from_runner env ks =
      (case List.find (\<lambda>k. env k = None) ks of
         Some k \<Rightarrow> Inl (Bail (''missing environment secret: '' @ k))
       | None \<Rightarrow> Inr (map (\<lambda>k. k @ ''='' @ the (env k)) ks))" for ks
    by (induction ks) (auto simp: ok_or_def bind_result_def split: option.splits)
  from adm have "environment_from_secrets (allowed_environment (rc_security c)) (js_secrets spec)
      = Inr (map (\<lambda>s. ss_name s @ ''='' @ ss_value s) (js_secrets spec))"
    by (auto simp: environment_from_secrets_ok admitted_def injected_names_def list_all_iff)
  with adm show ?thesis
    by (auto simp: environment_for_job_def host bind_result_def admitted_def split: option.splits)
qed

lemma valid_job_environment:
  "valid_job d (spec\<lparr> js_environment_from_runner := names, js_workspace := w \<rparr>) = valid_job d spec"
  unfolding valid_job_def by (cases "js_workflow spec") simp_all

definition sample_fs :: "string \<Rightarrow> string option" where
  "sample_fs p = (if p \<in> set [''/srv/work'', ''/srv/work/repo''] then Some p else None)"

end
