(* ===== verification/Artifact_Export.thy ===== *)
theory Artifact_Export
  imports Workspace_Safety
begin

text \<open>
  Artifact export of \<^verbatim>\<open>crates/runner-core/src/artifacts.rs\<close>: the glob matcher, the pruning of
  generated directories, the destination directory, and the export loop with its two limits.
  The size counter is a 64-bit word and the addition in the limit check is unchecked, as in
  a release build.
\<close>

section \<open>Operations\<close>

function (sequential) glob_matches :: "string \<Rightarrow> string \<Rightarrow> bool" where
  "glob_matches [] v = (v = [])"
| "glob_matches (c # rest) v =
     (if c = CHR ''*'' then glob_matches rest v \<or> (case v of [] \<Rightarrow> False | b # v' \<Rightarrow> glob_matches (c # rest) v')
      else (case v of [] \<Rightarrow> False | b # v' \<Rightarrow> b = c \<and> glob_matches rest v'))"
  by pat_completeness auto
termination
  by (relation "measures [length \<circ> fst, length \<circ> snd]") auto

definition glob_match :: "string \<Rightarrow> string \<Rightarrow> bool" where
  "glob_match p s = glob_matches p s"

definition unix_separators :: "string \<Rightarrow> string" where
  "unix_separators s = map (\<lambda>c. if c = CHR 0x5C then slash else c) s"

text \<open>The non-empty ancestors of a relative path, the path itself first.\<close>

definition ancestors :: "string \<Rightarrow> string list" where
  "ancestors p = map (\<lambda>n. path_of (take n (components p))) (rev [1..<Suc (length (components p))])"

definition names_root :: "string \<Rightarrow> string \<Rightarrow> bool" where
  "names_root derived_root pattern =
     (let pattern = trim_start_matches ''./'' (length pattern) pattern in
      pattern = derived_root \<or> starts_with pattern (derived_root @ ''/''))"

definition should_visit :: "string \<Rightarrow> string list \<Rightarrow> string \<Rightarrow> bool" where
  "should_visit base patterns path =
     (case strip_path_prefix path base of
        None \<Rightarrow> False
      | Some rel \<Rightarrow>
          rel = [] \<or> \<not> is_derived_path rel \<or>
          list_ex (\<lambda>derived_root. is_derived_path derived_root \<and>
              (let derived_root = unix_separators (from_utf8_lossy derived_root)
               in list_ex (names_root derived_root) patterns))
            (ancestors rel))"

definition safe_char :: "string \<Rightarrow> char" where
  "safe_char g = (case g of
     [c] \<Rightarrow> if is_ascii_alphanumeric c \<or> c \<in> set [CHR ''-'', CHR ''_'', CHR ''.''] then c else CHR ''_''
   | _ \<Rightarrow> CHR ''_'')"

definition safe_component :: "string \<Rightarrow> string" where
  "safe_component value =
     (let component = map safe_char (rust_chars value) in
      if component = [] then ''job'' else component)"

definition destination :: "string \<Rightarrow> string \<Rightarrow> u32 \<Rightarrow> string" where
  "destination base job_id attempt =
     path_join (path_join (path_join base ''artifacts'') (safe_component job_id)) (show_nat (unat attempt))"

definition export_name :: "string \<Rightarrow> string" where
  "export_name rel = unix_separators (from_utf8_lossy rel)"

fun export_entries ::
  "outside \<Rightarrow> string \<Rightarrow> string list \<Rightarrow> string \<Rightarrow> u64 \<Rightarrow> u64 \<Rightarrow> string list \<Rightarrow> u64 \<Rightarrow> walk_entry result list
   \<Rightarrow> ('h host_scheme, string list) op" where
  "export_entries E base patterns dest mx max_files out used [] = ret out"
| "export_entries E base patterns dest mx max_files out used (item # rest) =
     and_then (lift item) (\<lambda>entry.
     if we_kind entry \<noteq> IsFile then export_entries E base patterns dest mx max_files out used rest
     else
     and_then (lift (ok_or (strip_path_prefix (we_path entry) base) strip_prefix_error)) (\<lambda>relative.
     let rel = export_name relative in
     if \<not> list_ex (\<lambda>p. glob_match p rel) patterns
     then export_entries E base patterns dest mx max_files out used rest
     else
     and_then (lift (o_len E (we_path entry))) (\<lambda>bytes.
     if length out \<ge> unat max_files \<or> used + bytes > mx then ret out
     else
     let target = path_join dest rel in
     and_then (case path_parent target of
                 Some parent \<Rightarrow> invoke (o_unit E) (CreateDirAll parent) | None \<Rightarrow> ret ()) (\<lambda>_.
     and_then (invoke (o_unit E) (CopyFile (we_path entry) target)) (\<lambda>_.
     export_entries E base patterns dest mx max_files (out @ [rel]) (used + bytes) rest)))))"

definition export ::
  "outside \<Rightarrow> string \<Rightarrow> string list \<Rightarrow> string \<Rightarrow> u64 \<Rightarrow> u64 \<Rightarrow> ('h host_scheme, string list option) op" where
  "export E base patterns dest mx max_files =
     (if patterns = [] then ret None
      else and_then (ask (o_walk E) (Walk base)) (\<lambda>walk.
        and_then (export_entries E base patterns dest mx max_files [] 0 (walk (should_visit base patterns)))
          (\<lambda>out. ret (Some out))))"

section \<open>Globs\<close>

text \<open>The language of a pattern: a star stands for any text, any other byte for itself.\<close>

fun glob_lang :: "string \<Rightarrow> string set" where
  "glob_lang [] = {[]}"
| "glob_lang (c # p) =
     (if c = CHR ''*'' then {u @ v | u v. v \<in> glob_lang p} else {c # v | v. v \<in> glob_lang p})"

lemma glob_matches_lang: "glob_matches p s \<longleftrightarrow> s \<in> glob_lang p"
proof (induction p s rule: glob_matches.induct)
  case (2 c rest v)
  show ?case
  proof (cases "c = CHR ''*''")
    case True
    have "v \<in> glob_lang (c # rest) \<longleftrightarrow> v \<in> glob_lang rest \<or> (\<exists>b v'. v = b # v' \<and> v' \<in> glob_lang (c # rest))"
    proof
      assume "v \<in> glob_lang (c # rest)"
      then obtain u w where "v = u @ w" "w \<in> glob_lang rest" using True by auto
      then show "v \<in> glob_lang rest \<or> (\<exists>b v'. v = b # v' \<and> v' \<in> glob_lang (c # rest))"
        using True by (cases u) auto
    next
      assume "v \<in> glob_lang rest \<or> (\<exists>b v'. v = b # v' \<and> v' \<in> glob_lang (c # rest))"
      then show "v \<in> glob_lang (c # rest)"
        using True by (auto intro: exI [of _ "[]"]) (metis append_Cons)
    qed
    with 2 True show ?thesis by (cases v) auto
  next
    case False
    with 2 show ?thesis by (cases v) auto
  qed
qed simp

lemma glob_lang_literal: "CHR ''*'' \<notin> set q \<Longrightarrow> glob_lang (q @ p) = {q @ v | v. v \<in> glob_lang p}"
  by (induction q) auto

text \<open>
  C35: The recursive matcher decides the language of the pattern, in which a star stands for
  any text, slashes included. So a literal prefix followed by two stars selects exactly the
  paths with that prefix, and a pattern without stars only itself.
\<close>

theorem glob_match_correct:
  "(glob_match p s \<longleftrightarrow> s \<in> glob_lang p) \<and>
   (CHR ''*'' \<in> set q \<or> (glob_match (q @ ''**'') s \<longleftrightarrow> starts_with s q) \<and> (glob_match q s \<longleftrightarrow> s = q))"
proof -
  have "glob_match (q @ ''**'') s \<longleftrightarrow> starts_with s q" if "CHR ''*'' \<notin> set q"
    using glob_lang_literal [OF that, of "''**''"]
    by (auto simp: glob_match_def glob_matches_lang prefix_def)
  moreover have "glob_match q s \<longleftrightarrow> s = q" if "CHR ''*'' \<notin> set q"
    using glob_lang_literal [OF that, of "[]"] by (simp add: glob_match_def glob_matches_lang)
  ultimately show ?thesis by (auto simp: glob_match_def glob_matches_lang)
qed

section \<open>The export loop\<close>

text \<open>An exported file: its name in the result and the copy made for it.\<close>

definition rel_name :: "string \<Rightarrow> walk_entry \<Rightarrow> string" where
  "rel_name base e = export_name (the (strip_path_prefix (we_path e) base))"

definition export_pair :: "string \<Rightarrow> string \<Rightarrow> walk_entry \<Rightarrow> string \<times> string" where
  "export_pair base dest e = (we_path e, path_join dest (rel_name base e))"

definition file_bytes :: "outside \<Rightarrow> walk_entry \<Rightarrow> nat" where
  "file_bytes E e = (case o_len E (we_path e) of Inr n \<Rightarrow> unat n | Inl _ \<Rightarrow> 0)"

definition exportable :: "string \<Rightarrow> string list \<Rightarrow> walk_entry \<Rightarrow> bool" where
  "exportable base patterns e \<longleftrightarrow> below base e \<and> list_ex (\<lambda>p. glob_match p (rel_name base e)) patterns"

definition within_export_limits ::
  "outside \<Rightarrow> string \<Rightarrow> string list \<Rightarrow> u64 \<Rightarrow> u64 \<Rightarrow> nat \<Rightarrow> u64 \<Rightarrow> walk_entry result list \<Rightarrow> walk_entry list \<Rightarrow> bool" where
  "within_export_limits E base patterns mx max_files n used items es \<longleftrightarrow>
     subseq (map Inr es) items \<and> list_all (exportable base patterns) es \<and>
     n + length es \<le> max n (unat max_files) \<and>
     unat used + sum_list (map (file_bytes E) es) \<le> max (unat used) (unat mx)"

lemma within_export_Nil: "within_export_limits E base patterns mx max_files n used items []"
  by (simp add: within_export_limits_def)

lemma within_export_skip:
  "within_export_limits E base patterns mx max_files n used rest es \<Longrightarrow>
   within_export_limits E base patterns mx max_files n used (item # rest) es"
  by (auto simp: within_export_limits_def)

text \<open>Sizes below 2^63 and a limit of at most 2^63 rule out a wrapped sum.\<close>

definition sizes_fit :: "outside \<Rightarrow> u64 \<Rightarrow> bool" where
  "sizes_fit E mx \<longleftrightarrow> unat mx \<le> 2 ^ 63 \<and> (\<forall>p n. o_len E p = Inr n \<longrightarrow> unat n < 2 ^ 63)"

lemma within_export_copy:
  assumes "within_export_limits E base patterns mx max_files (Suc n) (used + b) rest es"
    and "exportable base patterns e" and "o_len E (we_path e) = Inr b"
    and "\<not> (unat max_files \<le> n \<or> used + b > mx)" and "sizes_fit E mx" and "unat used \<le> unat mx"
  shows "within_export_limits E base patterns mx max_files n used (Inr e # rest) (e # es)"
    and "unat (used + b) \<le> unat mx"
proof -
  have "unat b < 2 ^ 63" "unat mx \<le> 2 ^ 63" using assms(3,5) by (auto simp: sizes_fit_def)
  then have "unat used + unat b < 2 ^ LENGTH(64)" using assms(6) by simp
  then have sum: "unat (used + b) = unat used + unat b" by (simp add: unat_word_ariths)
  moreover show "unat (used + b) \<le> unat mx"
    using assms(4) by (auto simp: word_less_nat_alt not_less)
  ultimately show "within_export_limits E base patterns mx max_files n used (Inr e # rest) (e # es)"
    using assms(1-4) by (auto simp: within_export_limits_def file_bytes_def)
qed

text \<open>The copies \<open>os\<close> and the listed names are those of selected files, within the limits.\<close>

definition exported_within ::
  "outside \<Rightarrow> string \<Rightarrow> string list \<Rightarrow> string \<Rightarrow> u64 \<Rightarrow> u64 \<Rightarrow> walk_entry result list \<Rightarrow> string list \<Rightarrow> u64 \<Rightarrow>
   (string \<times> string) list \<Rightarrow> string list result \<Rightarrow> bool" where
  "exported_within E base patterns dest mx max_files items out used os r \<longleftrightarrow>
     (\<exists>es. os = map (export_pair base dest) es \<and> (\<forall>x. r = Inr x \<longrightarrow> x = out @ map (rel_name base) es) \<and>
        within_export_limits E base patterns mx max_files (length out) used items es)"

lemma exported_within_Nil:
  "r = Inr out \<or> (\<exists>e. r = Inl e) \<Longrightarrow> exported_within E base patterns dest mx max_files items out used [] r"
  unfolding exported_within_def by (intro exI [of _ "[]"]) (auto intro: within_export_Nil)

lemma exported_within_skip:
  "exported_within E base patterns dest mx max_files rest out used os r \<Longrightarrow>
   exported_within E base patterns dest mx max_files (item # rest) out used os r"
  by (auto simp: exported_within_def intro: within_export_skip)

lemma exported_within_copy:
  assumes go: "exported_within E base patterns dest mx max_files rest (out @ [rel_name base e]) (used + b) os r"
    and e: "exportable base patterns e" "o_len E (we_path e) = Inr b"
    and fits: "\<not> (unat max_files \<le> length out \<or> used + b > mx)" "sizes_fit E mx" "unat used \<le> unat mx"
  shows "exported_within E base patterns dest mx max_files (Inr e # rest) out used (export_pair base dest e # os) r"
proof -
  from go obtain es where "os = map (export_pair base dest) es"
    "\<forall>x. r = Inr x \<longrightarrow> x = (out @ [rel_name base e]) @ map (rel_name base) es"
    "within_export_limits E base patterns mx max_files (Suc (length out)) (used + b) rest es"
    by (auto simp: exported_within_def)
  then show ?thesis
    unfolding exported_within_def using within_export_copy(1) [OF _ e fits] by (intro exI [of _ "e # es"]) simp
qed

lemma export_file_observes:
  assumes go: "unat (used + b) \<le> unat mx \<Longrightarrow>
      observes copy_of m (exported_within E base patterns dest mx max_files rest (out @ [export_name rel]) (used + b))"
    and entry: "we_kind e = IsFile" "strip_path_prefix (we_path e) base = Some rel"
      "list_ex (\<lambda>p. glob_match p (export_name rel)) patterns" and len: "o_len E (we_path e) = Inr b"
    and fits: "\<not> (unat max_files \<le> length out \<or> used + b > mx)" "sizes_fit E mx" "unat used \<le> unat mx"
  shows "observes copy_of (and_then (invoke (o_unit E) (CopyFile (we_path e) (path_join dest (export_name rel)))) (\<lambda>_. m))
     (exported_within E base patterns dest mx max_files (Inr e # rest) out used)"
proof (rule observes_invoke_bind)
  have e: "exportable base patterns e" and name: "rel_name base e = export_name rel"
    using entry by (simp_all add: exportable_def below_def rel_name_def)
  note copy = exported_within_copy [OF _ e len fits, unfolded name]
  show "copy_of (CopyFile (we_path e) (path_join dest (export_name rel))) = Some (export_pair base dest e)"
    by (simp add: copy_of_def export_pair_def name)
  show "exported_within E base patterns dest mx max_files (Inr e # rest) out used [export_pair base dest e] (Inl x)" for x
    by (rule copy [OF exported_within_Nil]) simp
  have "unat (used + b) \<le> unat mx" using fits(1) by (simp add: word_less_nat_alt not_less)
  from go [OF this] show "observes copy_of m (\<lambda>os r.
      exported_within E base patterns dest mx max_files (Inr e # rest) out used (export_pair base dest e # os) r)"
    by (rule observes_mono) (rule copy)
qed

lemma export_entries_observes:
  assumes "sizes_fit E mx" and "unat used \<le> unat mx"
  shows "observes copy_of (export_entries E base patterns dest mx max_files out used items :: ('h host_scheme, string list) op)
     (\<lambda>os r. \<exists>es. os = map (export_pair base dest) es \<and> (\<forall>x. r = Inr x \<longrightarrow> x = out @ map (rel_name base) es) \<and>
        within_export_limits E base patterns mx max_files (length out) used items es)"
  unfolding exported_within_def [symmetric] using assms(2)
proof (induction items arbitrary: out used)
  case Nil
  show ?case by (auto intro!: observe_intros exported_within_Nil)
next
  case (Cons item rest)
  let ?R = "exported_within E base patterns dest mx max_files (item # rest) out used"
  have none: "?R [] (Inl e)" for e by (rule exported_within_Nil) simp
  have skip: "observes copy_of (export_entries E base patterns dest mx max_files out used rest :: ('h host_scheme, string list) op) ?R"
    by (rule observes_mono [OF Cons.IH [OF Cons.prems]]) (rule exported_within_skip)
  have tail: "observes copy_of (and_then (invoke (o_unit E) (CopyFile (we_path e) (path_join dest (export_name rel))))
      (\<lambda>_. export_entries E base patterns dest mx max_files (out @ [export_name rel]) (used + b) rest :: ('h host_scheme, string list) op)) ?R"
    if "item = Inr e" "we_kind e = IsFile" "strip_path_prefix (we_path e) base = Some rel"
      "list_ex (\<lambda>p. glob_match p (export_name rel)) patterns" "o_len E (we_path e) = Inr b"
      "\<not> (unat max_files \<le> length out \<or> used + b > mx)" for e rel b
    unfolding that(1) by (rule export_file_observes [OF Cons.IH that(2-6) assms(1) Cons.prems])
  show ?case
    unfolding export_entries.simps Let_def
    by (intro observes_silent_bind [where R = ?R, OF parent_silent none] observes_lift_bind [where R = ?R, OF none]
        observes_if skip observes_ret exported_within_Nil disjI1 refl)
       (rule tail; auto simp: ok_or_def split: option.splits)
qed

lemma export_observes:
  assumes "sizes_fit E mx" and "patterns \<noteq> []"
  shows "observes copy_of (export E base patterns dest mx max_files :: ('h host_scheme, string list option) op)
     (\<lambda>os r. \<exists>h es. os = map (export_pair base dest) es \<and> (\<forall>x. r = Inr x \<longrightarrow> x = Some (map (rel_name base) es)) \<and>
        within_export_limits E base patterns mx max_files 0 0 (o_walk E h (should_visit base patterns)) es)"
  unfolding export_def if_not_P [OF assms(2)]
  by (rule observes_ask_bind, simp add: copy_of_def, rule observes_bind [OF export_entries_observes [OF assms(1)]])
     (auto intro!: observe_intros)

text \<open>
  C34: An export copies, whether it succeeds or stops early, only regular files that a pattern
  matches, at most the configured number and, for sizes that cannot wrap the 64-bit sum, at
  most the configured bytes; the result lists exactly the files copied, under the names they
  have below the destination. A file in a generated directory is exported only when some
  pattern starts with that directory's path. Without patterns nothing is touched.
\<close>

theorem export_bounded:
  assumes "export E base patterns dest mx max_files s = (r, t)"
    and "sizes_fit E mx" and "honest_walk E base"
  shows "(patterns = [] \<and> r = Inr None \<and> t = s) \<or>
    (\<exists>es. List.map_filter copy_of (new_calls s t) = map (export_pair base dest) es \<and>
      (\<forall>x. r = Inr x \<longrightarrow> x = Some (map (rel_name base) es)) \<and>
      list_all (\<lambda>e. we_kind e = IsFile \<and> list_ex (\<lambda>p. glob_match p (rel_name base e)) patterns \<and>
         (\<exists>rel. strip_path_prefix (we_path e) base = Some rel \<and>
            (is_derived_path rel \<longrightarrow> list_ex (\<lambda>d. is_derived_path d \<and>
               list_ex (names_root (export_name d)) patterns) (ancestors rel)))) es \<and>
      length es \<le> unat max_files \<and> sum_list (map (file_bytes E) es) \<le> unat mx)"
proof (cases "patterns = []")
  case False
  from observes_new_calls [OF export_observes [OF assms(2) False] assms(1)] obtain h es where
    os: "List.map_filter copy_of (new_calls s t) = map (export_pair base dest) es"
      "\<forall>x. r = Inr x \<longrightarrow> x = Some (map (rel_name base) es)"
    and lim: "within_export_limits E base patterns mx max_files 0 0 (o_walk E h (should_visit base patterns)) es" by blast
  have "we_kind e = IsFile \<and> list_ex (\<lambda>p. glob_match p (rel_name base e)) patterns \<and>
      (\<exists>rel. strip_path_prefix (we_path e) base = Some rel \<and>
            (is_derived_path rel \<longrightarrow> list_ex (\<lambda>d. is_derived_path d \<and>
               list_ex (names_root (export_name d)) patterns) (ancestors rel)))" if "e \<in> set es" for e
  proof -
    have e: "exportable base patterns e" using lim that by (simp add: within_export_limits_def list_all_iff)
    have "Inr e \<in> set (o_walk E h (should_visit base patterns))"
      using lim that subseq_set [of "map Inr es"] by (auto simp: within_export_limits_def)
    with assms(3) have "should_visit base patterns (we_path e)" unfolding honest_walk_def by blast
    moreover have "\<not> is_derived_path []" by code_simp
    ultimately show ?thesis
      using e by (auto simp: should_visit_def exportable_def below_def export_name_def Let_def split: option.splits)
  qed
  with os lim show ?thesis
    by (intro disjI2 exI [of _ es]) (auto simp: list_all_iff within_export_limits_def)
qed (use assms(1) in \<open>simp add: export_def ret_def\<close>)

theorem export_bounded_witness:
  "\<exists>es. List.map_filter copy_of (new_calls sample_host (snd (export sample_outside ''/src'' [''**''] ''/out'' 1000 10 sample_host)))
     = map (export_pair ''/src'' ''/out'') es \<and> length es \<le> 10"
proof -
  have "sizes_fit sample_outside 1000" by (simp add: sizes_fit_def sample_outside_def)
  from export_bounded [OF surjective_pairing this sample_honest, where s = sample_host and patterns = "[''**'']" and dest = "''/out''"
      and max_files = 10]
  show ?thesis by auto
qed

section \<open>The destination\<close>

lemma safe_char_not_slash: "safe_char g \<noteq> slash"
  by (auto simp: safe_char_def is_ascii_alphanumeric_def split: list.splits)

lemma safe_component_name: "safe_component v \<noteq> [] \<and> slash \<notin> set (safe_component v)"
  using safe_char_not_slash by (auto simp: safe_component_def Let_def) metis

lemma safe_char_dot: "safe_char g = CHR ''.'' \<longleftrightarrow> g = ''.''"
  by (auto simp: safe_char_def is_ascii_alphanumeric_def split: list.splits)

lemma map_safe_char_dots:
  "map safe_char gs = replicate n (CHR ''.'') \<Longrightarrow> gs = replicate n ''.''"
proof (induction n arbitrary: gs)
  case (Suc n)
  then show ?case by (cases gs) (simp_all add: safe_char_dot)
qed simp

lemma rust_chars_dots: "rust_chars (replicate n (CHR ''.'')) = replicate n ''.''"
proof (induction n)
  case (Suc n)
  have "\<not> is_continuation (CHR ''.'')" by code_simp
  with Suc show ?case by (cases n) simp_all
qed simp

lemma safe_component_dots:
  assumes "0 < n"
  shows "safe_component v = replicate n (CHR ''.'') \<longleftrightarrow> v = replicate n (CHR ''.'')"
proof -
  have job: "''job'' \<noteq> replicate n (CHR ''.'')" using assms by (cases n) simp_all
  have "map safe_char (rust_chars v) = replicate n (CHR ''.'') \<longleftrightarrow> v = replicate n (CHR ''.'')"
  proof
    assume "map safe_char (rust_chars v) = replicate n (CHR ''.'')"
    then have "concat (rust_chars v) = concat (replicate n ''.'')" using map_safe_char_dots by metis
    then show "v = replicate n (CHR ''.'')" by (simp add: concat_rust_chars)
  next
    assume "v = replicate n (CHR ''.'')"
    moreover have "safe_char ''.'' = CHR ''.''" by (simp add: safe_char_dot)
    ultimately show "map safe_char (rust_chars v) = replicate n (CHR ''.'')" by (simp add: rust_chars_dots)
  qed
  with job assms show ?thesis by (simp add: safe_component_def Let_def) auto
qed

lemma components_join_name:
  assumes "slash \<notin> set n" and "n \<noteq> []" and "n \<noteq> ''.''" and "base \<noteq> []" and "\<not> ends_with base ''/''"
  shows "components (path_join base n) = components base @ [if n = ''..'' then ParentDir else Normal n]"
    and "path_join base n \<noteq> []" and "\<not> ends_with (path_join base n) ''/''"
proof -
  have abs: "\<not> is_absolute n" using assms(1,2) by (cases n) auto
  then show "components (path_join base n) = components base @ [if n = ''..'' then ParentDir else Normal n]"
    using components_join_segments [OF abs assms(4,5)] assms(1-3) by (simp add: split_on_no_char segment_def)
  have eq: "path_join base n = base @ slash # n" using abs assms(4,5) by (simp add: path_join_def)
  then show "path_join base n \<noteq> []" by simp
  obtain m c where n: "n = m @ [c]" using assms(2) by (cases n rule: rev_cases) auto
  then have "c \<noteq> slash" using assms(1) by auto
  then show "\<not> ends_with (path_join base n) ''/''"
    using snoc_suffix_snoc [of "[]" slash "base @ slash # m" c] eq n by simp
qed

lemma show_nat_name: "slash \<notin> set (show_nat n) \<and> show_nat n \<noteq> [] \<and> show_nat n \<noteq> ''.'' \<and> show_nat n \<noteq> ''..''"
proof -
  have "slash \<notin> set (show_nat n)" "CHR ''.'' \<notin> set (show_nat n)" by (rule show_nat_not; simp)+
  then show ?thesis by auto
qed

lemma destination_components:
  assumes "base \<noteq> []" and "\<not> ends_with base ''/''" and "job_id \<noteq> ''.''"
  shows "components (destination base job_id attempt) = components base @
    [Normal ''artifacts'', if job_id = ''..'' then ParentDir else Normal (safe_component job_id), Normal (show_nat (unat attempt))]"
proof -
  have a: "slash \<notin> set ''artifacts''" "''artifacts'' \<noteq> []" "''artifacts'' \<noteq> ''.''" "''artifacts'' \<noteq> ''..''" by simp_all
  note one = components_join_name [OF a(1-3) assms(1,2)]
  have j: "safe_component job_id \<noteq> ''.''" "safe_component job_id = ''..'' \<longleftrightarrow> job_id = ''..''"
    using safe_component_dots [of 1 job_id] safe_component_dots [of 2 job_id] assms(3) by (simp_all add: numeral_2_eq_2)
  note two = components_join_name [OF conjunct2 [OF safe_component_name] conjunct1 [OF safe_component_name] j(1) one(2,3)]
  have n: "slash \<notin> set (show_nat (unat attempt))" "show_nat (unat attempt) \<noteq> []" "show_nat (unat attempt) \<noteq> ''.''"
    "show_nat (unat attempt) \<noteq> ''..''" using show_nat_name by auto
  note three = components_join_name [OF n(1-3) two(2,3)]
  show ?thesis unfolding destination_def three(1) two(1) one(1) using a(4) n(4) j(2) by simp
qed

text \<open>Ids of letters, digits, dashes, underscores and dots are kept as they are.\<close>

definition safe_name :: "string \<Rightarrow> bool" where
  "safe_name v \<longleftrightarrow> v \<noteq> [] \<and> list_all (\<lambda>b. is_ascii_alphanumeric b \<or> b \<in> set ''-_.'') v"

lemma safe_byte_starts: "is_ascii_alphanumeric b \<or> b \<in> set ''-_.'' \<Longrightarrow> \<not> is_continuation b"
  by (auto simp: is_ascii_alphanumeric_def is_continuation_def)

lemma safe_component_id:
  assumes "safe_name v"
  shows "safe_component v = v"
proof -
  have "map safe_char (rust_chars v) = v" if "list_all (\<lambda>b. is_ascii_alphanumeric b \<or> b \<in> set ''-_.'') v"
    using that
  proof (induction v)
    case (Cons b v)
    from Cons.prems have "takeWhile is_continuation v = []" "dropWhile is_continuation v = v"
      using safe_byte_starts [of "hd v"] by (cases v; simp)+
    with Cons show ?case by (auto simp: safe_char_def)
  qed simp
  with assms show ?thesis by (simp add: safe_component_def safe_name_def Let_def)
qed

text \<open>
  C36: For every job id but the two dot names the destination is the directory of the attempt
  in a directory directly below the artifacts directory, whatever bytes the id has. Two
  attempts share a destination exactly when their numbers and the sanitized ids agree; ids of
  letters, digits, dashes, underscores and dots are their own sanitized form, so different
  ones of these, and different attempts of any id, never share a destination. (The work
  directory is not empty and written without a slash at its end.)
\<close>

theorem destination_contained:
  assumes "base \<noteq> []" and "\<not> ends_with base ''/''" and "job_id \<notin> {''.'', ''..''}" and "job_id' \<notin> {''.'', ''..''}"
  shows "components (destination base job_id attempt) =
      components base @ [Normal ''artifacts'', Normal (safe_component job_id), Normal (show_nat (unat attempt))] \<and>
    (destination base job_id attempt = destination base job_id' attempt' \<longleftrightarrow>
       safe_component job_id = safe_component job_id' \<and> attempt = attempt') \<and>
    (safe_name job_id \<longrightarrow> safe_component job_id = job_id)"
proof -
  have c: "components (destination base j a) =
      components base @ [Normal ''artifacts'', Normal (safe_component j), Normal (show_nat (unat a))]"
    if "j \<notin> {''.'', ''..''}" for j a
    using destination_components [OF assms(1,2)] that by simp
  have "safe_component job_id = safe_component job_id' \<and> attempt = attempt'"
    if "destination base job_id attempt = destination base job_id' attempt'"
  proof -
    from that have "safe_component job_id = safe_component job_id'" "show_nat (unat attempt) = show_nat (unat attempt')"
      using c [OF assms(3), of attempt] c [OF assms(4), of attempt'] by simp_all
    then show ?thesis by (simp only: show_nat_inj word_unat_eq_iff)
  qed
  moreover have "destination base job_id attempt = destination base job_id' attempt'"
    if "safe_component job_id = safe_component job_id'" "attempt = attempt'"
    using that by (simp add: destination_def)
  ultimately show ?thesis using c [OF assms(3)] safe_component_id by blast
qed

lemma sample_base: "\<not> ends_with ''/srv/work'' ''/''"
  by code_simp

theorem destination_contained_witness:
  "destination ''/srv/work'' ''a-b'' 3 \<noteq> destination ''/srv/work'' ''a_b'' 3 \<and>
   components (destination ''/srv/work'' ''a/b'' 3) =
     components ''/srv/work'' @ [Normal ''artifacts'', Normal (safe_component ''a/b''), Normal (show_nat (unat (3::u32)))]"
proof -
  have "safe_component ''a-b'' \<noteq> safe_component ''a_b''" by code_simp
  then show ?thesis
    using destination_contained [OF _ sample_base, of "''a-b''" "''a_b''" 3 3]
      destination_contained [OF _ sample_base, of "''a/b''" "''a/b''" 3 3] by simp
qed

text \<open>The sanitized form is not injective: two jobs can share a directory.\<close>

theorem different_ids_share_a_destination:
  "destination base ''a/b'' attempt = destination base ''a_b'' attempt"
proof -
  have "safe_component ''a/b'' = safe_component ''a_b''" by code_simp
  then show ?thesis by (simp add: destination_def)
qed

text \<open>
  The job id is not checked for the two dot names: the artifacts of a job called \<open>..\<close> go to
  a path that leaves the artifacts directory for its parent.
\<close>

theorem destination_of_dot_dot_escapes:
  "components (destination ''/srv/work'' ''..'' attempt) =
     components ''/srv/work'' @ [Normal ''artifacts'', ParentDir, Normal (show_nat (unat attempt))] \<and>
   \<not> contained (path_join ''/srv/work'' ''artifacts'') (destination ''/srv/work'' ''..'' attempt)"
proof -
  have c: "components (destination ''/srv/work'' ''..'' attempt) =
     components ''/srv/work'' @ [Normal ''artifacts'', ParentDir, Normal (show_nat (unat attempt))]"
    using destination_components [OF _ sample_base, of "''..''" attempt] by simp
  have "components (path_join ''/srv/work'' ''artifacts'') = components ''/srv/work'' @ [Normal ''artifacts'']" by code_simp
  with c show ?thesis by (simp add: contained_def)
qed

text \<open>
  The pruning and the matching read a leading \<open>./\<close> of a pattern differently: pruning strips
  it, so \<^verbatim>\<open>./build/**\<close> makes the walk enter the generated directory, but the matcher compares
  the dot with the first byte of the name and selects no file of it.
\<close>

theorem dot_slash_pattern_selects_nothing:
  "names_root ''build'' ''./build/**'' \<and> \<not> glob_match ''./build/**'' (''build/'' @ name)"
proof
  show "names_root ''build'' ''./build/**''" by code_simp
  show "\<not> glob_match ''./build/**'' (''build/'' @ name)" by (simp add: glob_match_def)
qed

end
