(* ===== verification/Durable_Journal.thy ===== *)
theory Durable_Journal
  imports Lifecycle "HOL-Library.List_Lexorder" "HOL-Library.Char_ord" "HOL-Library.Multiset"
begin

text \<open>
  The SQLite journal of \<^verbatim>\<open>crates/runner-core/src/journal.rs\<close>: the table of job states with
  its event log, and the outbox of completions that the daemon must deliver. A table is the
  list of its rows in insertion order. What SQLite and the connection mutex may do wrong is
  an argument: \<open>faults n\<close> is the error of the \<open>n\<close>-th fallible step of a method (step 0 takes
  the lock). A method returns its result together with the journal it leaves.

  The daemon uses the outbox through the locale \<open>outbox_store\<close>, interpreted below on
  the table operations.
\<close>

section \<open>Tables\<close>

record job_row =
  jw_job_id :: string
  jw_attempt :: u32
  jw_state :: string
  jw_updated_at :: string

record event_row =
  ev_job_id :: string
  ev_attempt :: u32
  ev_state :: string
  ev_at :: string

record outbox_row =
  ob_job_id :: string
  ob_attempt :: u32
  ob_lease_id :: string
  ob_idempotency_key :: string
  ob_payload :: string
  ob_attempts :: nat
  ob_delivered_at :: "string option"
  ob_updated_at :: string

record journal =
  jobs :: "job_row list"
  events :: "event_row list"
  completion_outbox :: "outbox_row list"

type_synonym job_key = "string \<times> u32"
type_synonym faults = "nat \<Rightarrow> string option"

abbreviation no_faults :: faults where
  "no_faults \<equiv> (\<lambda>n. None)"

record pending_completion =
  pc_job_id :: string
  pc_attempt :: u32
  pc_lease_id :: string
  pc_idempotency_key :: string
  pc_payload :: string
  pc_attempts :: u32

definition empty_journal :: journal where
  "empty_journal = \<lparr> jobs = [], events = [], completion_outbox = [] \<rparr>"

section \<open>Statements\<close>

fun upsert_job :: "job_row \<Rightarrow> job_row list \<Rightarrow> job_row list" where
  "upsert_job r [] = [r]"
| "upsert_job r (x # xs) =
     (if jw_job_id x = jw_job_id r \<and> jw_attempt x = jw_attempt r
      then x\<lparr> jw_state := jw_state r, jw_updated_at := jw_updated_at r \<rparr> # xs
      else x # upsert_job r xs)"

definition insert_event :: "string \<Rightarrow> u32 \<Rightarrow> string \<Rightarrow> string \<Rightarrow> event_row list \<Rightarrow> event_row list" where
  "insert_event job_id attempt state now es =
     es @ [\<lparr> ev_job_id = job_id, ev_attempt = attempt, ev_state = state, ev_at = now \<rparr>]"

definition ob_key :: "outbox_row \<Rightarrow> job_key" where
  "ob_key r = (ob_job_id r, ob_attempt r)"

definition insert_outbox :: "outbox_row \<Rightarrow> outbox_row list \<Rightarrow> outbox_row list" where
  "insert_outbox r rows = (if ob_key r \<in> set (map ob_key rows) then rows else rows @ [r])"

definition update_outbox :: "job_key \<Rightarrow> (outbox_row \<Rightarrow> outbox_row) \<Rightarrow> outbox_row list \<Rightarrow> outbox_row list" where
  "update_outbox k f rows = map (\<lambda>r. if ob_key r = k then f r else r) rows"

section \<open>Methods\<close>

text \<open>
  \<open>stored\<close> is what the database file holds, \<open>None\<close> for a new file: the tables are created
  only when they are missing, so the rows of an earlier process stay.
\<close>

definition open_journal :: "string option \<Rightarrow> string option \<Rightarrow> journal option \<Rightarrow> journal result" where
  "open_journal connect_fault batch_fault stored =
     (case connect_fault of Some e \<Rightarrow> Inl (Context ''open journal'' (Bail e)) | None \<Rightarrow>
      (case batch_fault of Some e \<Rightarrow> Inl (Context ''initialize journal'' (Bail e)) | None \<Rightarrow>
       Inr (case stored of Some j \<Rightarrow> j | None \<Rightarrow> empty_journal)))"

definition lock_poisoned :: error where
  "lock_poisoned = Bail ''journal lock poisoned''"

definition execute :: "string option \<Rightarrow> (journal \<Rightarrow> journal) \<Rightarrow> (journal, unit) op" where
  "execute fault statement j =
     (case fault of Some e \<Rightarrow> (Inl (Bail e), j) | None \<Rightarrow> (Inr (), statement j))"

definition locked :: "faults \<Rightarrow> (journal, 'a) op \<Rightarrow> (journal, 'a) op" where
  "locked faults m j = (if faults 0 \<noteq> None then (Inl lock_poisoned, j) else m j)"

definition transition :: "faults \<Rightarrow> string \<Rightarrow> string \<Rightarrow> u32 \<Rightarrow> state \<Rightarrow> (journal, unit) op" where
  "transition faults now job_id attempt state =
     locked faults
       (and_then
         (execute (faults 1) (\<lambda>j. j\<lparr> jobs := upsert_job
            \<lparr> jw_job_id = job_id, jw_attempt = attempt, jw_state = as_str state, jw_updated_at = now \<rparr>
            (jobs j) \<rparr>))
         (\<lambda>_. execute (faults 2)
            (\<lambda>j. j\<lparr> events := insert_event job_id attempt (as_str state) now (events j) \<rparr>)))"

text \<open>\<^verbatim>\<open>COALESCE(MAX(attempt), 0) + 1\<close> is computed in 64 bits and read back as a \<^verbatim>\<open>u32\<close>.\<close>

definition max_attempt :: "string \<Rightarrow> job_row list \<Rightarrow> nat" where
  "max_attempt job_id rows =
     foldr max (map (\<lambda>r. unat (jw_attempt r)) (filter (\<lambda>r. jw_job_id r = job_id) rows)) 0"

definition next_attempt :: "faults \<Rightarrow> string \<Rightarrow> (journal, u32) op" where
  "next_attempt faults job_id =
     locked faults (\<lambda>j. case faults 1 of Some e \<Rightarrow> (Inl (Bail e), j) | None \<Rightarrow>
       let n = max_attempt job_id (jobs j) + 1 in
       if n < 2 ^ 32 then (Inr (of_nat n), j)
       else (Inl (Bail (''Integer '' @ show_nat n @ '' out of range at index 0'')), j))"

definition unfinished :: "faults \<Rightarrow> (journal, job_key list) op" where
  "unfinished faults =
     locked faults (\<lambda>j. case faults 1 of Some e \<Rightarrow> (Inl (Bail e), j) | None \<Rightarrow>
       (Inr (map (\<lambda>r. (jw_job_id r, jw_attempt r))
          (filter (\<lambda>r. jw_state r \<notin> set [''destroyed'', ''completed'', ''failed'', ''cancelled'', ''timed_out''])
            (jobs j))), j))"

definition enqueue_completion ::
  "faults \<Rightarrow> string \<Rightarrow> string \<Rightarrow> u32 \<Rightarrow> string \<Rightarrow> string \<Rightarrow> string \<Rightarrow> (journal, unit) op" where
  "enqueue_completion faults now job_id attempt lease_id idempotency_key payload =
     locked faults (execute (faults 1) (\<lambda>j. j\<lparr> completion_outbox := insert_outbox
       \<lparr> ob_job_id = job_id, ob_attempt = attempt, ob_lease_id = lease_id,
         ob_idempotency_key = idempotency_key, ob_payload = payload, ob_attempts = 0,
         ob_delivered_at = None, ob_updated_at = now \<rparr> (completion_outbox j) \<rparr>))"

definition to_pending :: "outbox_row \<Rightarrow> pending_completion" where
  "to_pending r =
     \<lparr> pc_job_id = ob_job_id r, pc_attempt = ob_attempt r, pc_lease_id = ob_lease_id r,
       pc_idempotency_key = ob_idempotency_key r, pc_payload = ob_payload r,
       pc_attempts = of_nat (ob_attempts r) \<rparr>"

definition pending_rows :: "outbox_row list \<Rightarrow> outbox_row list" where
  "pending_rows rows = sort_key ob_updated_at (filter (\<lambda>r. ob_delivered_at r = None) rows)"

definition pending_completions :: "faults \<Rightarrow> (journal, pending_completion list) op" where
  "pending_completions faults =
     locked faults (\<lambda>j. case faults 1 of Some e \<Rightarrow> (Inl (Bail e), j) | None \<Rightarrow>
       (case List.find (\<lambda>r. 2 ^ 32 \<le> ob_attempts r) (pending_rows (completion_outbox j)) of
          Some r \<Rightarrow> (Inl (Bail (''Integer '' @ show_nat (ob_attempts r) @ '' out of range at index 5'')), j)
        | None \<Rightarrow> (Inr (map to_pending (pending_rows (completion_outbox j))), j)))"

definition mark_completion_delivered :: "faults \<Rightarrow> string \<Rightarrow> string \<Rightarrow> u32 \<Rightarrow> (journal, unit) op" where
  "mark_completion_delivered faults now job_id attempt =
     locked faults (execute (faults 1) (\<lambda>j. j\<lparr> completion_outbox := update_outbox (job_id, attempt)
       (\<lambda>r. r\<lparr> ob_delivered_at := Some now, ob_updated_at := now \<rparr>) (completion_outbox j) \<rparr>))"

definition record_completion_attempt :: "faults \<Rightarrow> string \<Rightarrow> string \<Rightarrow> u32 \<Rightarrow> (journal, unit) op" where
  "record_completion_attempt faults now job_id attempt =
     locked faults (execute (faults 1) (\<lambda>j. j\<lparr> completion_outbox := update_outbox (job_id, attempt)
       (\<lambda>r. r\<lparr> ob_attempts := ob_attempts r + 1, ob_updated_at := now \<rparr>) (completion_outbox j) \<rparr>))"

lemmas journal_op_defs = locked_def execute_def transition_def next_attempt_def unfinished_def
  enqueue_completion_def pending_completions_def mark_completion_delivered_def
  record_completion_attempt_def and_then_def

section \<open>The interface of the outbox\<close>

text \<open>What the daemon knows of a completion: a finite map from attempts to entries.\<close>

record completion_entry =
  ce_lease_id :: string
  ce_idempotency_key :: string
  ce_payload :: string
  ce_attempts :: nat
  ce_delivered :: bool

definition evolved :: "completion_entry option \<Rightarrow> completion_entry option \<Rightarrow> bool" where
  "evolved a b = (case a of None \<Rightarrow> True | Some x \<Rightarrow>
     (case b of None \<Rightarrow> False | Some y \<Rightarrow>
        ce_lease_id x = ce_lease_id y \<and> ce_idempotency_key x = ce_idempotency_key y \<and>
        ce_payload x = ce_payload y \<and> ce_attempts x \<le> ce_attempts y \<and>
        (ce_delivered x \<longrightarrow> ce_delivered y)))"

lemma evolved_refl [simp, intro]: "evolved a a"
  by (auto simp: evolved_def split: option.splits)

lemma evolved_trans [trans]: "evolved a b \<Longrightarrow> evolved b c \<Longrightarrow> evolved a c"
  by (auto simp: evolved_def split: option.splits)

locale outbox_store =
  fixes entry :: "'s \<Rightarrow> job_key \<Rightarrow> completion_entry option"
    and enqueue :: "'w \<Rightarrow> job_key \<Rightarrow> string \<Rightarrow> string \<Rightarrow> string \<Rightarrow> ('s, unit) op"
    and record_attempt :: "'w \<Rightarrow> job_key \<Rightarrow> ('s, unit) op"
    and mark_delivered :: "'w \<Rightarrow> job_key \<Rightarrow> ('s, unit) op"
  assumes enqueue_entry: "enqueue w k l i p s = (r, t) \<Longrightarrow> entry t =
      (if is_ok r \<and> entry s k = None
       then (entry s)(k \<mapsto> \<lparr> ce_lease_id = l, ce_idempotency_key = i, ce_payload = p,
                             ce_attempts = 0, ce_delivered = False \<rparr>)
       else entry s)"
    and record_entry: "record_attempt w k s = (r, t) \<Longrightarrow> entry t =
      (if is_ok r
       then (entry s)(k := map_option (\<lambda>e. e\<lparr> ce_attempts := ce_attempts e + 1 \<rparr>) (entry s k))
       else entry s)"
    and mark_entry: "mark_delivered w k s = (r, t) \<Longrightarrow> entry t =
      (if is_ok r then (entry s)(k := map_option (\<lambda>e. e\<lparr> ce_delivered := True \<rparr>) (entry s k))
       else entry s)"
begin

lemma enqueue_first_wins:
  assumes "enqueue w k l i p s = (r, t)" and "entry s k = Some e"
  shows "entry t k = Some e"
  using enqueue_entry [OF assms(1)] assms(2) by simp

lemma enqueue_stored:
  assumes "enqueue w k l i p s = (Inr u, t)"
  shows "entry t k \<noteq> None"
  using enqueue_entry [OF assms] by (auto simp: is_ok_def)

lemma enqueue_evolves: "enqueue w k l i p s = (r, t) \<Longrightarrow> evolved (entry s q) (entry t q)"
  by (drule enqueue_entry) (auto simp: evolved_def split: option.splits)

lemma record_evolves: "record_attempt w k s = (r, t) \<Longrightarrow> evolved (entry s q) (entry t q)"
  by (drule record_entry) (auto simp: evolved_def split: option.splits)

lemma mark_evolves: "mark_delivered w k s = (r, t) \<Longrightarrow> evolved (entry s q) (entry t q)"
  by (drule mark_entry) (auto simp: evolved_def split: option.splits)

lemmas evolves = enqueue_evolves record_evolves mark_evolves

end

section \<open>The tables implement the interface\<close>

definition ob_entry :: "outbox_row \<Rightarrow> completion_entry" where
  "ob_entry r = \<lparr> ce_lease_id = ob_lease_id r, ce_idempotency_key = ob_idempotency_key r,
     ce_payload = ob_payload r, ce_attempts = ob_attempts r,
     ce_delivered = (ob_delivered_at r \<noteq> None) \<rparr>"

definition outbox_map :: "outbox_row list \<Rightarrow> job_key \<Rightarrow> completion_entry option" where
  "outbox_map rows = map_of (map (\<lambda>r. (ob_key r, ob_entry r)) rows)"

definition journal_entry :: "journal \<Rightarrow> job_key \<Rightarrow> completion_entry option" where
  "journal_entry j = outbox_map (completion_outbox j)"

lemma outbox_map_None: "outbox_map rows k = None \<longleftrightarrow> k \<notin> set (map ob_key rows)"
  by (simp add: outbox_map_def map_of_eq_None_iff image_image)

lemma outbox_map_insert:
  "outbox_map (insert_outbox r rows) =
     (if outbox_map rows (ob_key r) = None then (outbox_map rows)(ob_key r \<mapsto> ob_entry r)
      else outbox_map rows)"
proof (cases "outbox_map rows (ob_key r) = None")
  case True
  then have "insert_outbox r rows = rows @ [r]"
    by (simp only: outbox_map_None insert_outbox_def if_False)
  with True show ?thesis
    by (auto simp: outbox_map_def map_add_def fun_eq_iff split: option.splits)
qed (auto simp: outbox_map_None insert_outbox_def)

lemma outbox_map_update:
  assumes "\<And>r. ob_key (f r) = ob_key r" and "\<And>r. ob_entry (f r) = g (ob_entry r)"
  shows "outbox_map (update_outbox k f rows) =
     (outbox_map rows)(k := map_option g (outbox_map rows k))"
  by (induction rows) (auto simp: outbox_map_def update_outbox_def assms fun_eq_iff)

definition enqueue_at :: "faults \<times> string \<Rightarrow> job_key \<Rightarrow> string \<Rightarrow> string \<Rightarrow> string \<Rightarrow> (journal, unit) op" where
  "enqueue_at w k l i p = enqueue_completion (fst w) (snd w) (fst k) (snd k) l i p"

definition record_at :: "faults \<times> string \<Rightarrow> job_key \<Rightarrow> (journal, unit) op" where
  "record_at w k = record_completion_attempt (fst w) (snd w) (fst k) (snd k)"

definition mark_at :: "faults \<times> string \<Rightarrow> job_key \<Rightarrow> (journal, unit) op" where
  "mark_at w k = mark_completion_delivered (fst w) (snd w) (fst k) (snd k)"

interpretation journal_outbox: outbox_store journal_entry enqueue_at record_at mark_at
proof
  fix w k l i p s r t
  assume "enqueue_at w k l i p s = (r, t)"
  then show "journal_entry t =
      (if is_ok r \<and> journal_entry s k = None
       then (journal_entry s)(k \<mapsto> \<lparr> ce_lease_id = l, ce_idempotency_key = i, ce_payload = p,
                                     ce_attempts = 0, ce_delivered = False \<rparr>)
       else journal_entry s)"
    by (auto simp: enqueue_at_def journal_op_defs journal_entry_def is_ok_def outbox_map_insert
        ob_key_def ob_entry_def split: option.splits if_splits)
next
  fix w k s r t
  assume "record_at w k s = (r, t)"
  then show "journal_entry t =
      (if is_ok r
       then (journal_entry s)
         (k := map_option (\<lambda>e. e\<lparr> ce_attempts := ce_attempts e + 1 \<rparr>) (journal_entry s k))
       else journal_entry s)"
    by (auto simp: record_at_def journal_op_defs journal_entry_def is_ok_def ob_key_def ob_entry_def
        outbox_map_update [where g = "\<lambda>e. e\<lparr> ce_attempts := ce_attempts e + 1 \<rparr>"]
        split: option.splits if_splits)
next
  fix w k s r t
  assume "mark_at w k s = (r, t)"
  then show "journal_entry t =
      (if is_ok r
       then (journal_entry s)(k := map_option (\<lambda>e. e\<lparr> ce_delivered := True \<rparr>) (journal_entry s k))
       else journal_entry s)"
    by (auto simp: mark_at_def journal_op_defs journal_entry_def is_ok_def ob_key_def ob_entry_def
        outbox_map_update [where g = "\<lambda>e. e\<lparr> ce_delivered := True \<rparr>"]
        split: option.splits if_splits)
qed

section \<open>The state of an attempt\<close>

definition jw_key :: "job_row \<Rightarrow> job_key" where
  "jw_key r = (jw_job_id r, jw_attempt r)"

lemma jw_key_row [simp]:
  "jw_key \<lparr> jw_job_id = i, jw_attempt = a, jw_state = s, jw_updated_at = t \<rparr> = (i, a)"
  by (simp add: jw_key_def)

definition job_state :: "journal \<Rightarrow> job_key \<Rightarrow> string option" where
  "job_state j = map_of (map (\<lambda>r. (jw_key r, jw_state r)) (jobs j))"

text \<open>The primary keys of the two keyed tables, and the states the runner writes.\<close>

definition journal_ok :: "journal \<Rightarrow> bool" where
  "journal_ok j \<longleftrightarrow> distinct (map jw_key (jobs j)) \<and> distinct (map ob_key (completion_outbox j)) \<and>
     list_all (\<lambda>r. jw_state r \<in> range as_str) (jobs j)"

lemma upsert_job_keys:
  "map jw_key (upsert_job r xs) =
     (if jw_key r \<in> set (map jw_key xs) then map jw_key xs else map jw_key xs @ [jw_key r])"
  by (induction xs) (auto simp: jw_key_def)

lemma upsert_job_states:
  "map_of (map (\<lambda>r. (jw_key r, jw_state r)) (upsert_job r xs)) =
     (map_of (map (\<lambda>r. (jw_key r, jw_state r)) xs))(jw_key r \<mapsto> jw_state r)"
  by (induction xs) (auto simp: jw_key_def fun_eq_iff)

lemma upsert_job_all:
  "jw_state r \<in> S \<Longrightarrow> list_all (\<lambda>x. jw_state x \<in> S) xs \<Longrightarrow> list_all (\<lambda>x. jw_state x \<in> S) (upsert_job r xs)"
  by (induction xs) auto

lemma update_outbox_keys:
  "(\<And>r. ob_key (f r) = ob_key r) \<Longrightarrow> map ob_key (update_outbox k f rows) = map ob_key rows"
  by (simp add: update_outbox_def)

lemma insert_outbox_distinct:
  "distinct (map ob_key rows) \<Longrightarrow> distinct (map ob_key (insert_outbox r rows))"
  by (auto simp: insert_outbox_def)

text \<open>One call of a method, whatever goes wrong in it.\<close>

inductive journal_call :: "journal \<Rightarrow> journal \<Rightarrow> bool" where
  transition: "transition f now i a s j = (r, j') \<Longrightarrow> journal_call j j'"
| enqueue: "enqueue_at w k l ik p j = (r, j') \<Longrightarrow> journal_call j j'"
| record_attempt: "record_at w k j = (r, j') \<Longrightarrow> journal_call j j'"
| mark: "mark_at w k j = (r, j') \<Longrightarrow> journal_call j j'"

lemma transition_ok_iff:
  "transition f now i a s j = (Inr u, j') \<longleftrightarrow> f 0 = None \<and> f 1 = None \<and> f 2 = None \<and>
     j' = j\<lparr> jobs := upsert_job \<lparr> jw_job_id = i, jw_attempt = a, jw_state = as_str s, jw_updated_at = now \<rparr> (jobs j),
             events := insert_event i a (as_str s) now (events j) \<rparr>"
  by (auto simp: journal_op_defs split: option.splits if_splits)

lemma transition_outbox: "transition f now i a s j = (r, j') \<Longrightarrow> completion_outbox j' = completion_outbox j"
  by (auto simp: journal_op_defs split: option.splits if_splits prod.splits sum.splits)

lemma transition_jobs:
  "transition f now i a s j = (r, j') \<Longrightarrow> jobs j' = jobs j \<or>
     jobs j' = upsert_job \<lparr> jw_job_id = i, jw_attempt = a, jw_state = as_str s, jw_updated_at = now \<rparr> (jobs j)"
  by (auto simp: journal_op_defs split: option.splits if_splits prod.splits sum.splits)

lemma transition_keeps_ok: "transition f now i a s j = (r, j') \<Longrightarrow> journal_ok j \<Longrightarrow> journal_ok j'"
  by (frule transition_outbox, drule transition_jobs)
     (auto simp: journal_ok_def upsert_job_keys intro!: upsert_job_all)

lemma outbox_ops_jobs:
  "enqueue_at w k l ik p j = (r, j') \<Longrightarrow> jobs j' = jobs j"
  "record_at w k j = (r, j') \<Longrightarrow> jobs j' = jobs j"
  "mark_at w k j = (r, j') \<Longrightarrow> jobs j' = jobs j"
  by (auto simp: enqueue_at_def record_at_def mark_at_def journal_op_defs split: option.splits if_splits)

lemma outbox_ops_keys:
  "enqueue_at w k l ik p j = (r, j') \<Longrightarrow> distinct (map ob_key (completion_outbox j)) \<Longrightarrow>
     distinct (map ob_key (completion_outbox j'))"
  "record_at w k j = (r, j') \<Longrightarrow> map ob_key (completion_outbox j') = map ob_key (completion_outbox j)"
  "mark_at w k j = (r, j') \<Longrightarrow> map ob_key (completion_outbox j') = map ob_key (completion_outbox j)"
  by (auto simp: enqueue_at_def record_at_def mark_at_def journal_op_defs update_outbox_keys ob_key_def
      intro!: insert_outbox_distinct update_outbox_keys split: option.splits if_splits)

lemma journal_call_ok: "journal_call j j' \<Longrightarrow> journal_ok j \<Longrightarrow> journal_ok j'"
  by (induction rule: journal_call.induct)
     (auto simp: journal_ok_def dest: outbox_ops_jobs outbox_ops_keys transition_keeps_ok [unfolded journal_ok_def])

lemma journal_calls_ok: "journal_call\<^sup>*\<^sup>* j j' \<Longrightarrow> journal_ok j \<Longrightarrow> journal_ok j'"
  by (induction rule: rtranclp_induct) (auto intro: journal_call_ok)

lemma journal_call_evolves: "journal_call j j' \<Longrightarrow> evolved (journal_entry j k) (journal_entry j' k)"
  by (induction rule: journal_call.induct)
     (auto simp: journal_entry_def dest: transition_outbox journal_outbox.evolves [unfolded journal_entry_def])

lemma journal_calls_evolve: "journal_call\<^sup>*\<^sup>* j j' \<Longrightarrow> evolved (journal_entry j k) (journal_entry j' k)"
  by (induction rule: rtranclp_induct) (auto intro: journal_call_evolves evolved_trans)

lemma empty_journal_ok [simp]: "journal_ok empty_journal"
  by (simp add: journal_ok_def empty_journal_def)

section \<open>Properties\<close>

lemma max_attempt_ge: "r \<in> set rows \<Longrightarrow> jw_job_id r = i \<Longrightarrow> unat (jw_attempt r) \<le> max_attempt i rows"
  by (induction rows) (auto simp: max_attempt_def)

lemma max_attempt_upsert:
  "max_attempt i (upsert_job r rows) =
     (if jw_job_id r = i then max (unat (jw_attempt r)) (max_attempt i rows) else max_attempt i rows)"
  by (induction rows) (auto simp: max_attempt_def max.left_commute)

lemma next_attempt_ok_iff:
  "next_attempt f i j = (Inr n, j') \<longleftrightarrow> f 0 = None \<and> f 1 = None \<and> j' = j \<and>
     max_attempt i (jobs j) + 1 < 2 ^ 32 \<and> n = of_nat (max_attempt i (jobs j) + 1)"
  by (auto simp: next_attempt_def locked_def Let_def split: option.splits if_splits)

lemma job_state_SomeD: "job_state j (i, a) = Some s \<Longrightarrow> unat a \<le> max_attempt i (jobs j)"
  unfolding job_state_def by (drule map_of_SomeD) (auto simp: jw_key_def intro: max_attempt_ge)

text \<open>
  \<open>next_attempt\<close> only reads the journal, and the number it returns is larger than every
  attempt of that job in the journal. Once any state of that attempt is journalled the
  following call returns the successor, so local attempts are never reused; when the
  successor does not fit 32 bits the call is an error instead of a wrapped number.
\<close>

theorem next_attempt_fresh:
  assumes "next_attempt f i j = (Inr n, j')"
  shows "j' = j \<and> 1 \<le> n \<and> (\<forall>a. n \<le> a \<longrightarrow> job_state j (i, a) = None) \<and>
    (transition g now i n s j = (Inr (), j2) \<longrightarrow>
       next_attempt no_faults i j2 =
         (if n = - 1 then (Inl (Bail (''Integer '' @ show_nat (2 ^ 32) @ '' out of range at index 0'')), j2)
          else (Inr (n + 1), j2)))"
proof -
  from assms have n: "unat n = max_attempt i (jobs j) + 1" and j': "j' = j"
    using unat_of_nat_small [where 'a = 32 and m = "max_attempt i (jobs j) + 1"]
    unfolding next_attempt_ok_iff by simp_all
  have "job_state j (i, a) = None" if "n \<le> a" for a
    using that n job_state_SomeD [of j i a] by (cases "job_state j (i, a)") (auto simp: word_le_nat_alt)
  moreover have "1 \<le> n" using n by (simp add: word_le_nat_alt)
  moreover have "next_attempt no_faults i j2 =
         (if n = - 1 then (Inl (Bail (''Integer '' @ show_nat (2 ^ 32) @ '' out of range at index 0'')), j2)
          else (Inr (n + 1), j2))" if "transition g now i n s j = (Inr (), j2)"
  proof -
    from that have m: "max_attempt i (jobs j2) = unat n"
      using n by (simp add: transition_ok_iff max_attempt_upsert)
    show ?thesis
    proof (cases "n = - 1")
      case True
      then have "unat n + 1 = 2 ^ 32" using unat_minus_one [where 'a = 32] by simp
      with True m show ?thesis by (simp add: next_attempt_def locked_def Let_def)
    next
      case False
      then have "unat n + 1 < 2 ^ 32"
        using unat_Suc_bound [of n] by simp
      with False m show ?thesis by (simp add: next_attempt_def locked_def Let_def)
    qed
  qed
  ultimately show ?thesis using j' by simp
qed

definition sample_journal :: journal where
  "sample_journal = \<lparr> jobs = [\<lparr> jw_job_id = ''job-1'', jw_attempt = 2, jw_state = ''running'', jw_updated_at = ''t0'' \<rparr>],
     events = [],
     completion_outbox = [\<lparr> ob_job_id = ''job-1'', ob_attempt = 2, ob_lease_id = ''lease-1'',
       ob_idempotency_key = ''job-1:2'', ob_payload = ''payload-1'', ob_attempts = 0,
       ob_delivered_at = None, ob_updated_at = ''t0'' \<rparr>] \<rparr>"

lemma sample_journal_ok: "journal_ok sample_journal"
  using rangeI [of as_str Running] by (simp add: journal_ok_def sample_journal_def)

lemma sample_next: "next_attempt no_faults ''job-1'' sample_journal = (Inr 3, sample_journal)"
  by (simp add: next_attempt_ok_iff max_attempt_def sample_journal_def)

theorem next_attempt_fresh_witness: "job_state sample_journal (''job-1'', 3) = None"
  using next_attempt_fresh [OF sample_next] by blast

text \<open>
  A state change that succeeds sets the state of that attempt and of no other, and
  appends exactly one event; one that fails appends no event. It never touches the outbox.
\<close>

theorem transition_effect:
  assumes "transition f now i a s j = (r, j')"
  shows "completion_outbox j' = completion_outbox j \<and>
    (if is_ok r
     then job_state j' = (job_state j)((i, a) \<mapsto> as_str s) \<and>
          events j' = events j @ [\<lparr> ev_job_id = i, ev_attempt = a, ev_state = as_str s, ev_at = now \<rparr>]
     else events j' = events j \<and> (\<forall>k. k \<noteq> (i, a) \<longrightarrow> job_state j' k = job_state j k))"
  using assms
  by (auto simp: journal_op_defs job_state_def upsert_job_states insert_event_def
      split: option.splits if_splits)

theorem transition_effect_witness:
  "completion_outbox (snd (transition no_faults ''t1'' ''job-1'' 2 Collecting sample_journal))
     = completion_outbox sample_journal"
  using transition_effect [OF surjective_pairing, of no_faults "''t1''" "''job-1''" 2 Collecting sample_journal]
  by blast

text \<open>
  On a journal in which only the runner's states are written, \<open>unfinished\<close> returns exactly
  the attempts whose state is neither an outcome nor \<open>Destroyed\<close>, each once.
\<close>

theorem unfinished_exact:
  assumes "journal_ok j" and "unfinished f j = (Inr ks, j')"
  shows "j' = j \<and> distinct ks \<and>
    (k \<in> set ks \<longleftrightarrow> (\<exists>s. job_state j k = Some (as_str s) \<and> \<not> is_outcome s \<and> s \<noteq> Destroyed))"
proof -
  define F where "F = set [''destroyed'', ''completed'', ''failed'', ''cancelled'', ''timed_out'']"
  have done_iff: "as_str s \<in> F \<longleftrightarrow> is_outcome s \<or> s = Destroyed" for s
    by (cases s) (simp_all add: is_outcome_def F_def)
  have ks: "ks = map jw_key (filter (\<lambda>r. jw_state r \<notin> F) (jobs j))" and j': "j' = j"
    using assms(2) unfolding F_def
    by (auto simp: unfinished_def locked_def jw_key_def [abs_def] split: option.splits if_splits)
  from assms(1) have d: "distinct (map jw_key (jobs j))" by (simp add: journal_ok_def)
  then have "distinct ks" unfolding ks by (rule distinct_map_filter)
  have row: "job_state j k = Some x \<longleftrightarrow> (\<exists>r\<in>set (jobs j). jw_key r = k \<and> jw_state r = x)" for x
    unfolding job_state_def using d by (subst map_of_eq_Some_iff) (auto simp: comp_def image_iff)
  have name: "\<exists>s. jw_state r = as_str s" if "r \<in> set (jobs j)" for r
    using assms(1) that by (auto simp: journal_ok_def list_all_iff)
  have "k \<in> set ks \<longleftrightarrow> (\<exists>r\<in>set (jobs j). jw_key r = k \<and> jw_state r \<notin> F)"
    unfolding ks by auto
  also have "\<dots> \<longleftrightarrow> (\<exists>s. job_state j k = Some (as_str s) \<and> \<not> is_outcome s \<and> s \<noteq> Destroyed)"
    unfolding row using name done_iff by metis
  finally show ?thesis using j' \<open>distinct ks\<close> by blast
qed

theorem unfinished_exact_witness:
  "\<exists>s. job_state sample_journal (''job-1'', 2) = Some (as_str s) \<and> \<not> is_outcome s \<and> s \<noteq> Destroyed"
proof -
  have "unfinished no_faults sample_journal = (Inr [(''job-1'', 2)], sample_journal)"
    by (simp add: unfinished_def locked_def sample_journal_def)
  from unfinished_exact [OF sample_journal_ok this, of "(''job-1'', 2)"] show ?thesis by simp
qed

lemma set_pending_rows [simp]: "set (pending_rows rows) = {r \<in> set rows. ob_delivered_at r = None}"
  by (simp add: pending_rows_def)

lemma find_None_list_all: "List.find P xs = None \<longleftrightarrow> list_all (\<lambda>x. \<not> P x) xs"
  by (induction xs) auto

lemma pending_ok_iff:
  "pending_completions f j = (Inr ps, j') \<longleftrightarrow> f 0 = None \<and> f 1 = None \<and> j' = j \<and>
     list_all (\<lambda>r. \<not> 2 ^ 32 \<le> ob_attempts r) (pending_rows (completion_outbox j)) \<and>
     ps = map to_pending (pending_rows (completion_outbox j))"
  unfolding find_None_list_all [symmetric]
  by (auto simp: pending_completions_def locked_def split: option.splits)

lemma distinct_pending_rows:
  assumes "distinct (map ob_key rows)"
  shows "distinct (map ob_key (pending_rows rows))"
proof -
  have "mset (map ob_key (pending_rows rows)) = mset (map ob_key (filter (\<lambda>r. ob_delivered_at r = None) rows))"
    by (simp add: pending_rows_def)
  then show ?thesis
    using mset_eq_imp_distinct_iff distinct_map_filter [OF assms] by blast
qed

definition entry_of_pending :: "pending_completion \<Rightarrow> job_key \<times> completion_entry" where
  "entry_of_pending c = ((pc_job_id c, pc_attempt c),
     \<lparr> ce_lease_id = pc_lease_id c, ce_idempotency_key = pc_idempotency_key c, ce_payload = pc_payload c,
       ce_attempts = unat (pc_attempts c), ce_delivered = False \<rparr>)"

lemma entry_of_to_pending:
  "ob_attempts r < 2 ^ 32 \<Longrightarrow> ob_delivered_at r = None \<Longrightarrow> entry_of_pending (to_pending r) = (ob_key r, ob_entry r)"
  by (simp add: entry_of_pending_def to_pending_def ob_key_def ob_entry_def unat_of_nat_small)

lemma pending_entries:
  assumes "journal_ok j" and "pending_completions f j = (Inr ps, j')"
  shows "set (map entry_of_pending ps) = {(k, e). journal_entry j k = Some e \<and> \<not> ce_delivered e}"
proof -
  have d: "distinct (map ob_key (completion_outbox j))" using assms(1) by (simp add: journal_ok_def)
  have "map entry_of_pending ps = map (\<lambda>r. (ob_key r, ob_entry r)) (pending_rows (completion_outbox j))"
    using assms(2) by (auto simp: pending_ok_iff list_all_iff not_le intro!: entry_of_to_pending)
  then show ?thesis
    unfolding journal_entry_def outbox_map_def using d
    by (subst map_of_eq_Some_iff) (auto simp: comp_def ob_entry_def)
qed

lemma pending_keys_distinct:
  assumes "journal_ok j" and "pending_completions f j = (Inr ps, j')"
  shows "distinct (map (fst \<circ> entry_of_pending) ps)"
proof -
  have "map (fst \<circ> entry_of_pending) ps = map ob_key (pending_rows (completion_outbox j))"
    using assms(2) by (auto simp: pending_ok_iff entry_of_pending_def to_pending_def ob_key_def)
  then show ?thesis using assms(1) by (simp add: journal_ok_def distinct_pending_rows)
qed

text \<open>
  C28: The pending completions are exactly the undelivered rows of the outbox, oldest update
  first, and they describe exactly the undelivered entries of the outbox map, each attempt
  once, with the lease, key, payload and attempt count stored; the call changes nothing.
\<close>

theorem pending_completions_exact:
  assumes "journal_ok j" and "pending_completions f j = (Inr ps, j')"
  shows "j' = j \<and> distinct (map (fst \<circ> entry_of_pending) ps) \<and>
    set (map entry_of_pending ps) = {(k, e). journal_entry j k = Some e \<and> \<not> ce_delivered e} \<and>
    (\<exists>rows. ps = map to_pending rows \<and> sorted (map ob_updated_at rows) \<and>
       mset rows = mset (filter (\<lambda>r. ob_delivered_at r = None) (completion_outbox j)))"
proof -
  let ?rows = "pending_rows (completion_outbox j)"
  from assms(2) have "j' = j" and "ps = map to_pending ?rows"
    by (simp_all add: pending_ok_iff)
  moreover have "sorted (map ob_updated_at ?rows)"
    "mset ?rows = mset (filter (\<lambda>r. ob_delivered_at r = None) (completion_outbox j))"
    by (simp_all add: pending_rows_def)
  ultimately show ?thesis
    using pending_entries [OF assms] pending_keys_distinct [OF assms] by blast
qed

lemma sample_pending:
  "pending_completions no_faults sample_journal =
     (Inr (map to_pending (completion_outbox sample_journal)), sample_journal)"
  by (simp add: pending_ok_iff pending_rows_def sample_journal_def)

theorem pending_completions_exact_witness:
  "set (map entry_of_pending (map to_pending (completion_outbox sample_journal))) =
     {(k, e). journal_entry sample_journal k = Some e \<and> \<not> ce_delivered e}"
  using pending_completions_exact [OF sample_journal_ok sample_pending] by blast

text \<open>
  C12: A completion that was put into the outbox is never lost and never changed: after any
  further calls on the journal, with any failures in them (a second enqueue of the same
  attempt included), it is either marked delivered and absent from every later list of
  pending completions, or it is in that list with the lease, idempotency key and payload of
  the first enqueue.
\<close>

theorem completion_is_durable:
  assumes "journal_ok j" and "journal_entry j k = None"
    and "enqueue_at w k lease key payload j = (Inr u, j1)"
    and "journal_call\<^sup>*\<^sup>* j1 j2" and "pending_completions f j2 = (Inr ps, j3)"
  shows "(\<exists>e. journal_entry j2 k = Some e \<and> ce_delivered e \<and>
       (\<forall>j4 g qs j5. journal_call\<^sup>*\<^sup>* j2 j4 \<longrightarrow> pending_completions g j4 = (Inr qs, j5) \<longrightarrow>
          k \<notin> set (map (fst \<circ> entry_of_pending) qs))) \<or>
     (\<exists>n. (k, \<lparr> ce_lease_id = lease, ce_idempotency_key = key, ce_payload = payload,
                ce_attempts = n, ce_delivered = False \<rparr>) \<in> set (map entry_of_pending ps))"
proof -
  have ok1: "journal_ok j1"
    using assms(1,3) by (blast intro: journal_call_ok journal_call.enqueue)
  then have ok2: "journal_ok j2" using assms(4) by (rule journal_calls_ok [rotated])
  have "journal_entry j1 k = Some \<lparr> ce_lease_id = lease, ce_idempotency_key = key,
      ce_payload = payload, ce_attempts = 0, ce_delivered = False \<rparr>"
    using journal_outbox.enqueue_entry [OF assms(3)] assms(2) by simp
  with journal_calls_evolve [OF assms(4), of k] obtain e where e: "journal_entry j2 k = Some e"
    "ce_lease_id e = lease" "ce_idempotency_key e = key" "ce_payload e = payload"
    by (auto simp: evolved_def split: option.splits)
  show ?thesis
  proof (cases "ce_delivered e")
    case True
    have "k \<notin> set (map (fst \<circ> entry_of_pending) qs)"
      if calls: "journal_call\<^sup>*\<^sup>* j2 j4" and qs: "pending_completions g j4 = (Inr qs, j5)" for j4 g qs j5
    proof
      assume "k \<in> set (map (fst \<circ> entry_of_pending) qs)"
      then obtain d where "(k, d) \<in> set (map entry_of_pending qs)"
        by (auto simp: image_iff) (metis prod.collapse)
      then have "journal_entry j4 k = Some d" "\<not> ce_delivered d"
        using pending_entries [OF journal_calls_ok [OF calls ok2] qs] by auto
      with journal_calls_evolve [OF calls, of k] e(1) True show False
        by (simp add: evolved_def)
    qed
    with e(1) True show ?thesis by blast
  next
    case False
    with e have "(k, e) \<in> set (map entry_of_pending ps)"
      using pending_entries [OF ok2 assms(5)] by simp
    moreover have "e = \<lparr> ce_lease_id = lease, ce_idempotency_key = key, ce_payload = payload,
                ce_attempts = ce_attempts e, ce_delivered = False \<rparr>"
      using e False by (cases e) simp
    ultimately show ?thesis by metis
  qed
qed

definition sample_call :: "faults \<times> string" where
  "sample_call = (no_faults, ''t0'')"

lemma sample_enqueue:
  "enqueue_at sample_call (''job-1'', 2) ''lease-1'' ''job-1:2'' ''payload-1'' (sample_journal\<lparr> completion_outbox := [] \<rparr>)
     = (Inr (), sample_journal)"
  by (simp add: sample_call_def enqueue_at_def journal_op_defs insert_outbox_def sample_journal_def)

theorem completion_is_durable_witness:
  "(\<exists>e. journal_entry sample_journal (''job-1'', 2) = Some e \<and> ce_delivered e) \<or>
   (\<exists>n. ((''job-1'', 2), \<lparr> ce_lease_id = ''lease-1'', ce_idempotency_key = ''job-1:2'', ce_payload = ''payload-1'',
          ce_attempts = n, ce_delivered = False \<rparr>)
        \<in> set (map entry_of_pending (map to_pending (completion_outbox sample_journal))))"
proof -
  let ?j = "sample_journal\<lparr> completion_outbox := [] \<rparr>"
  have "journal_ok ?j" using sample_journal_ok by (simp add: journal_ok_def)
  moreover have "journal_entry ?j (''job-1'', 2) = None" by (simp add: journal_entry_def outbox_map_def)
  ultimately show ?thesis
    using completion_is_durable [OF _ _ sample_enqueue rtranclp.rtrancl_refl sample_pending] by blast
qed

end
