(* ===== verification/Docker_Container.thy ===== *)
theory Docker_Container
  imports Diagnostics Admission_Policy Artifact_Export Durable_Journal
begin

text \<open>
  The operations of the Docker executor on single containers
  (\<^verbatim>\<open>crates/executor-docker/src/lib.rs\<close>): the log stream, image pulls, commands executed in a
  container, service containers with their health checks, and removal. The state of the
  executor extends the trace with the journal database and the counters of the log stream.
\<close>

section \<open>State\<close>

datatype execution_termination = ExecCancelled | ExecTimedOut

record exec_result =
  ex_status :: int
  ex_stdout :: string
  ex_stderr :: string
  ex_truncated :: bool
  ex_termination :: "execution_termination option"

text \<open>\<open>ls_sender\<close> says whether the executor was built with a log channel.\<close>

record log_state =
  ls_sender :: bool
  ls_sequence :: u64
  ls_dropped :: u64
  ls_context :: "(string \<times> u32 \<times> string) option"

record world = host +
  w_journal :: journal
  w_log :: log_state

text \<open>Updates of the trace move inside those of the other fields.\<close>

lemma world_update_order [simp]:
  fixes w :: world
  shows "trace_update f (w_log_update g w) = w_log_update g (trace_update f w)"
    and "trace_update f (w_journal_update k w) = w_journal_update k (trace_update f w)"
  by (cases w; simp)+

section \<open>Log stream\<close>

definition begin_log_stream :: "job_spec \<Rightarrow> (world, unit) op" where
  "begin_log_stream spec w = (Inr (), w\<lparr> w_log := (w_log w)
     \<lparr> ls_sequence := 0, ls_dropped := 0, ls_context := Some (js_id spec, js_attempt spec, ''running'') \<rparr> \<rparr>)"

definition set_log_phase :: "string \<Rightarrow> (world, unit) op" where
  "set_log_phase phase w = (Inr (), w\<lparr> w_log := (w_log w)
     \<lparr> ls_context := map_option (\<lambda>(job, attempt, _). (job, attempt, phase)) (ls_context (w_log w)) \<rparr> \<rparr>)"

function chunks :: "nat \<Rightarrow> string \<Rightarrow> string list" where
  "chunks n s = (if s = [] \<or> n = 0 then [] else take n s # chunks n (drop n s))"
  by pat_completeness auto
termination
  by (relation "measure (length \<circ> snd)") auto

declare chunks.simps [simp del]

definition send_chunk :: "outside \<Rightarrow> string \<Rightarrow> u32 \<Rightarrow> string \<Rightarrow> string \<Rightarrow> (world, unit) op" where
  "send_chunk E stream attempt phase chunk w =
     (let sequence = ls_sequence (w_log w) + 1;
          item = \<lparr> lc_attempt = attempt, lc_sequence = sequence, lc_stream = stream, lc_phase = phase,
                   lc_level = Some (if stream = ''stderr'' then ''warn'' else ''info''),
                   lc_message = from_utf8_lossy chunk \<rparr>;
          h = trace w @ [TrySend item];
          w = w\<lparr> trace := h, w_log := (w_log w)\<lparr> ls_sequence := sequence \<rparr> \<rparr>
      in (Inr (), case o_send E h of
            SentFull \<Rightarrow> w\<lparr> w_log := (w_log w)\<lparr> ls_dropped := ls_dropped (w_log w) + 1 \<rparr> \<rparr>
          | _ \<Rightarrow> w))"

fun for_each_op :: "'a list \<Rightarrow> ('a \<Rightarrow> ('s, unit) op) \<Rightarrow> ('s, unit) op" where
  "for_each_op [] f = ret ()"
| "for_each_op (x # xs) f = and_then (f x) (\<lambda>_. for_each_op xs f)"

definition emit_log :: "outside \<Rightarrow> string \<Rightarrow> string \<Rightarrow> (world, unit) op" where
  "emit_log E stream bytes w =
     (if \<not> ls_sender (w_log w) then (Inr (), w)
      else case ls_context (w_log w) of
        None \<Rightarrow> (Inr (), w)
      | Some (_, attempt, phase) \<Rightarrow>
          for_each_op (chunks (64 * 1024) bytes) (send_chunk E stream attempt phase) w)"

section \<open>Journal\<close>

definition journal_transition :: "outside \<Rightarrow> string \<Rightarrow> u32 \<Rightarrow> state \<Rightarrow> (world, unit) op" where
  "journal_transition E job_id attempt st w =
     (let h = trace w @ [Transition job_id attempt st];
          (r, j) = transition (o_faults E h) (o_text E h) job_id attempt st (w_journal w)
      in (r, w\<lparr> trace := h, w_journal := j \<rparr>))"

definition journal_unfinished :: "outside \<Rightarrow> (world, job_key list) op" where
  "journal_unfinished E w =
     (let h = trace w @ [ReadUnfinished]; (r, j) = unfinished (o_faults E h) (w_journal w)
      in (r, w\<lparr> trace := h, w_journal := j \<rparr>))"

section \<open>Containers\<close>

definition stop_container :: "outside \<Rightarrow> string \<Rightarrow> (world, unit) op" where
  "stop_container E container = invoke (o_unit E) (StopContainer container)"

definition remove_container :: "outside \<Rightarrow> string \<Rightarrow> (world, unit) op" where
  "remove_container E container = invoke (o_unit E) (RemoveContainer container)"

definition remove_containers :: "outside \<Rightarrow> string list \<Rightarrow> (world, unit) op" where
  "remove_containers E ids = for_each_op ids (\<lambda>i. ignore (remove_container E i))"

fun pull_items :: "unit result selected list \<Rightarrow> execution_termination option result" where
  "pull_items [] = Inr None"
| "pull_items (item # rest) =
     (case item of
        CancelledFirst \<Rightarrow> Inr (Some ExecCancelled)
      | DeadlineFirst \<Rightarrow> Inr (Some ExecTimedOut)
      | Ready (Inl e) \<Rightarrow> Inl (DockerFailure (image_pull (error_to_string e)))
      | Ready (Inr _) \<Rightarrow> pull_items rest)"

definition pull :: "outside \<Rightarrow> runner_config \<Rightarrow> string \<Rightarrow> nat \<Rightarrow> (world, execution_termination option) op" where
  "pull E config img deadline =
     and_then (ask (o_cancelled E) IsCancelled) (\<lambda>cancelled.
     if cancelled then ret (Some ExecCancelled)
     else and_then (ask (o_now E) Now) (\<lambda>now.
     if deadline \<le> now then ret (Some ExecTimedOut)
     else if dc_pull_policy (rc_docker config) = Some ''always'' then
       and_then (ask (o_pull E) (PullImage img (dc_platform (rc_docker config)))) (\<lambda>items.
       lift (pull_items items))
     else ret None))"

fun termination_error :: "execution_termination \<Rightarrow> error" where
  "termination_error ExecCancelled = Bail ''execution cancelled''"
| "termination_error ExecTimedOut = Bail ''execution timed out''"

section \<open>Commands in a container\<close>

definition terminated ::
  "outside \<Rightarrow> string \<Rightarrow> string \<Rightarrow> string \<Rightarrow> bool \<Rightarrow> execution_termination \<Rightarrow> (world, exec_result) op" where
  "terminated E container stdout stderr truncated reason =
     and_then (ignore (stop_container E container)) (\<lambda>_.
     ret \<lparr> ex_status = - 1, ex_stdout = stdout, ex_stderr = stderr, ex_truncated = truncated,
           ex_termination = Some reason \<rparr>)"

fun read_output ::
  "outside \<Rightarrow> u64 \<Rightarrow> string \<Rightarrow> string \<Rightarrow> string \<Rightarrow> string \<Rightarrow> bool \<Rightarrow> log_output result selected list \<Rightarrow> (world, exec_result) op"
where
  "read_output E limit container exec stdout stderr truncated [] =
     and_then (invoke (o_exec_status E) (InspectExec exec)) (\<lambda>code.
     ret \<lparr> ex_status = (case code of Some c \<Rightarrow> c | None \<Rightarrow> - 1), ex_stdout = stdout, ex_stderr = stderr,
           ex_truncated = truncated, ex_termination = None \<rparr>)"
| "read_output E limit container exec stdout stderr truncated (item # rest) =
     (case item of
        CancelledFirst \<Rightarrow> terminated E container stdout stderr truncated ExecCancelled
      | DeadlineFirst \<Rightarrow> terminated E container stdout stderr truncated ExecTimedOut
      | Ready (Inl e) \<Rightarrow> fail e
      | Ready (Inr (StdOut message)) \<Rightarrow>
          and_then (emit_log E ''stdout'' message) (\<lambda>_.
          case append_bounded stdout message limit of (stdout, t) \<Rightarrow>
          read_output E limit container exec stdout stderr (truncated \<or> t) rest)
      | Ready (Inr (StdErr message)) \<Rightarrow>
          and_then (emit_log E ''stderr'' message) (\<lambda>_.
          case append_bounded stderr message limit of (stderr, t) \<Rightarrow>
          read_output E limit container exec stdout stderr (truncated \<or> t) rest)
      | Ready (Inr OtherOutput) \<Rightarrow> read_output E limit container exec stdout stderr truncated rest)"

definition exec_command ::
  "outside \<Rightarrow> runner_config \<Rightarrow> string \<Rightarrow> command_spec \<Rightarrow> nat \<Rightarrow> (world, exec_result) op" where
  "exec_command E config container command deadline =
     and_then (ask (o_exec_create E) (CreateExec container command deadline)) (\<lambda>event.
     case event of
       CancelledFirst \<Rightarrow> terminated E container [] [] False ExecCancelled
     | DeadlineFirst \<Rightarrow> terminated E container [] [] False ExecTimedOut
     | Ready r \<Rightarrow>
         and_then (lift r) (\<lambda>exec.
         and_then (ask (o_exec_start E) (StartExec exec)) (\<lambda>event.
         case event of
           CancelledFirst \<Rightarrow> terminated E container [] [] False ExecCancelled
         | DeadlineFirst \<Rightarrow> terminated E container [] [] False ExecTimedOut
         | Ready r \<Rightarrow>
             and_then (lift r) (\<lambda>start.
             case start of
               Detached \<Rightarrow> fail (Bail ''workflow exec unexpectedly detached'')
             | Attached items \<Rightarrow>
                 read_output E (max_log_bytes (rc_limits config)) container exec [] [] False items))))"

section \<open>Services\<close>

definition nano_cpus :: "f64 \<Rightarrow> int" where
  "nano_cpus c = f64_as_i64 (f64_mul c (Fin 1000000000))"

definition memory_bytes :: "int \<Rightarrow> int" where
  "memory_bytes mb = i64_wrap (mb * 1024 * 1024)"

definition service_config ::
  "runner_config \<Rightarrow> string \<Rightarrow> string \<Rightarrow> resources \<Rightarrow> string \<Rightarrow> service_spec \<Rightarrow> container_config" where
  "service_config config network_name job_id resources uuid service =
     \<lparr> cc_name = ''ai-kodu-runner-service-'' @ sv_name service @ ''-'' @ uuid,
       cc_platform = dc_platform (rc_docker config),
       cc_image = sv_image service,
       cc_cmd = (if sv_command service \<noteq> [] then Some (sv_command service) else None),
       cc_working_dir = None,
       cc_env = map (\<lambda>(k, v). k @ ''='' @ v) (sv_environment service),
       cc_labels = [(''ai-kodu-runner.managed'', ''true''),
                    (''ai-kodu-runner.runner_id'', rc_runner_id config),
                    (''ai-kodu-runner.job_id'', job_id),
                    (''ai-kodu-runner.service'', sv_name service)],
       cc_endpoint = Some (network_name,
         [case sv_alias service of Some alias \<Rightarrow> alias | None \<Rightarrow> sv_name service]),
       cc_healthcheck = map_option (\<lambda>h. ''CMD'' # hc_command h) (sv_healthcheck service),
       cc_binds = [],
       cc_network_mode = None,
       cc_memory = memory_bytes (memory_mb resources),
       cc_nano_cpus = nano_cpus (cpu resources),
       cc_pids_limit = pids resources,
       cc_cap_drop = [],
       cc_security_opt = [''no-new-privileges:true''],
       cc_readonly_rootfs = False,
       cc_tmpfs = [] \<rparr>"

fun create_services ::
  "outside \<Rightarrow> runner_config \<Rightarrow> string \<Rightarrow> string \<Rightarrow> resources \<Rightarrow> nat \<Rightarrow> string list \<Rightarrow> service_spec list
   \<Rightarrow> (world, string list) op" where
  "create_services E config network_name job_id resources deadline ids [] = ret ids"
| "create_services E config network_name job_id resources deadline ids (service # rest) =
     (if trim (sv_name service) = [] \<or> slash \<in> set (sv_name service) \<or> CHR '':'' \<in> set (sv_name service)
      then fail (Bail (''invalid service name: '' @ sv_name service))
      else if trim (sv_image service) = [] \<or> has_whitespace (sv_image service)
      then fail (Bail (''invalid service image for '' @ sv_name service))
      else
      match_op (and_then (pull E config (sv_image service) deadline) (\<lambda>termination.
                case termination of None \<Rightarrow> ret () | Some reason \<Rightarrow> fail (termination_error reason)))
       (\<lambda>_. and_then (ask (o_text E) NewUuid) (\<lambda>uuid.
        match_op (invoke (o_id E) (CreateContainer
                    (service_config config network_name job_id resources uuid service)))
         (\<lambda>container.
          match_op (invoke (o_unit E) (StartContainer container))
           (\<lambda>_. create_services E config network_name job_id resources deadline (ids @ [container]) rest)
           (\<lambda>e. and_then (ignore (remove_container E container)) (\<lambda>_.
                and_then (remove_containers E ids) (\<lambda>_. fail e))))
         (\<lambda>e. and_then (remove_containers E ids) (\<lambda>_. fail e))))
       (\<lambda>e. and_then (remove_containers E ids) (\<lambda>_. fail e)))"

text \<open>
  The polling loop of one health check. It sleeps half a second between two attempts and ends
  at the health deadline, so \<open>2 * timeout + 1\<close> attempts are enough; the first equation is never
  reached when the clock advances (\<open>health_fuel_enough\<close> below).
\<close>

fun health_loop ::
  "outside \<Rightarrow> runner_config \<Rightarrow> string list \<Rightarrow> string \<Rightarrow> string list \<Rightarrow> string \<Rightarrow> nat \<Rightarrow> nat \<Rightarrow> nat \<Rightarrow> (world, unit) op"
where
  "health_loop E config ids name command container deadline health_deadline 0 =
     fail (Bail ''health check attempts exhausted'')"
| "health_loop E config ids name command container deadline health_deadline (Suc n) =
     and_then (exec_command E config container
        \<lparr> cs_command = command, cs_working_directory = None \<rparr> (min deadline health_deadline)) (\<lambda>result.
     case ex_termination result of
       Some reason \<Rightarrow> and_then (remove_containers E ids) (\<lambda>_. fail (termination_error reason))
     | None \<Rightarrow>
         if ex_status result = 0 then ret ()
         else and_then (ask (o_now E) Now) (\<lambda>now.
           if health_deadline \<le> now then
             and_then (remove_containers E ids) (\<lambda>_.
             fail (Bail (''service '' @ name @ '' did not become healthy: stdout: '' @
                    from_utf8_lossy (ex_stdout result) @ nl @ ''stderr: '' @ from_utf8_lossy (ex_stderr result))))
           else and_then (ask (\<lambda>h. ()) (Sleep 500)) (\<lambda>_.
             health_loop E config ids name command container deadline health_deadline n)))"

definition health_fuel :: "u64 \<Rightarrow> nat" where
  "health_fuel timeout = 2 * unat timeout + 1"

fun await_services ::
  "outside \<Rightarrow> runner_config \<Rightarrow> string list \<Rightarrow> nat \<Rightarrow> (service_spec \<times> string) list \<Rightarrow> (world, unit) op" where
  "await_services E config ids deadline [] = ret ()"
| "await_services E config ids deadline ((service, container) # rest) =
     and_then (case sv_healthcheck service of
         None \<Rightarrow> ret ()
       | Some h \<Rightarrow>
           and_then (ask (o_now E) Now) (\<lambda>now.
           health_loop E config ids (sv_name service) (hc_command h) container deadline
             (now + 1000 * unat (hc_timeout_seconds h)) (health_fuel (hc_timeout_seconds h))))
     (\<lambda>_. await_services E config ids deadline rest)"

definition start_services ::
  "outside \<Rightarrow> runner_config \<Rightarrow> service_spec list \<Rightarrow> string \<Rightarrow> string \<Rightarrow> resources \<Rightarrow> nat \<Rightarrow> (world, string list) op" where
  "start_services E config services network_name job_id resources deadline =
     and_then (create_services E config network_name job_id resources deadline [] services) (\<lambda>ids.
     and_then (await_services E config ids deadline (zip services ids)) (\<lambda>_. ret ids))"

section \<open>Which calls an operation makes\<close>

text \<open>
  \<open>stepped P w w'\<close>: the trace of \<open>w'\<close> extends that of \<open>w\<close> by calls that satisfy \<open>P\<close>; the outbox
  is the same, the journal is unchanged unless one of them is a call to it, and the chunks sent carry the sequence
  numbers that follow the last one. An operation \<open>makes P\<close> when it takes every state to such a
  state.
\<close>

fun journal_call :: "call \<Rightarrow> bool" where
  "journal_call (OpenJournal p) = True"
| "journal_call (Transition j a st) = True"
| "journal_call _ = False"

fun is_send :: "call \<Rightarrow> bool" where
  "is_send (TrySend c) = True"
| "is_send _ = False"

fun numbered :: "u64 \<Rightarrow> call list \<Rightarrow> u64 \<Rightarrow> bool" where
  "numbered s [] s' = (s' = s)"
| "numbered s (TrySend chunk # cs) s' = (lc_sequence chunk = s + 1 \<and> numbered (s + 1) cs s')"
| "numbered s (c # cs) s' = numbered s cs s'"

definition stepped :: "(call \<Rightarrow> bool) \<Rightarrow> world \<Rightarrow> world \<Rightarrow> bool" where
  "stepped P w w' \<longleftrightarrow> (\<exists>cs. trace w' = trace w @ cs \<and> list_all P cs \<and>
     (w_journal w' = w_journal w \<or> list_ex journal_call cs) \<and>
     completion_outbox (w_journal w') = completion_outbox (w_journal w) \<and>
     (journal_ok (w_journal w) \<longrightarrow> journal_ok (w_journal w')) \<and>
     numbered (ls_sequence (w_log w)) cs (ls_sequence (w_log w')))"

definition makes :: "(call \<Rightarrow> bool) \<Rightarrow> (world, 'a) op \<Rightarrow> bool" where
  "makes P m \<longleftrightarrow> (\<forall>w. stepped P w (snd (m w)))"

named_theorems makes_intros \<open>rules for the calls an operation makes\<close>

lemma numbered_append: "numbered s as m \<Longrightarrow> numbered m bs s' \<Longrightarrow> numbered s (as @ bs) s'"
  by (induction s "as" m rule: numbered.induct) auto

lemma numbered_other: "\<not> is_send c \<Longrightarrow> numbered s [c] s' \<longleftrightarrow> s' = s"
  by (cases c) auto

lemma stepped_refl [simp]: "stepped P w w"
  by (auto simp: stepped_def)

lemma stepped_trans: "stepped P u v \<Longrightarrow> stepped P v w \<Longrightarrow> stepped P u w"
  unfolding stepped_def
proof (elim exE conjE, goal_cases)
  case (1 a b)
  then show ?case by (intro exI [of _ "a @ b"]) (auto intro: numbered_append)
qed

lemma stepped_call: "P c \<Longrightarrow> \<not> is_send c \<Longrightarrow> stepped P w (w\<lparr> trace := trace w @ [c] \<rparr>)"
  by (auto simp: stepped_def numbered_other intro!: exI [of _ "[c]"])

lemma stepped_mono: "stepped P w w' \<Longrightarrow> (\<And>c. P c \<Longrightarrow> Q c) \<Longrightarrow> stepped Q w w'"
  unfolding stepped_def by (elim exE conjE) (auto simp: list_all_iff)

lemma makesD: "makes P m \<Longrightarrow> m w = (r, w') \<Longrightarrow> stepped P w w'"
  unfolding makes_def by (metis snd_conv)

lemma makes_mono: "makes P m \<Longrightarrow> (\<And>c. P c \<Longrightarrow> Q c) \<Longrightarrow> makes Q m"
  unfolding makes_def by (blast intro: stepped_mono)

lemma makes_ret [makes_intros]: "makes P (ret x)"
  and makes_fail [makes_intros]: "makes P (fail e)"
  and makes_lift [makes_intros]: "makes P (lift r)"
  by (simp_all add: makes_def op_defs)

lemma makes_ask [makes_intros]: "P c \<Longrightarrow> \<not> is_send c \<Longrightarrow> makes P (ask f c)"
  by (simp add: makes_def ask_def Let_def stepped_call)

lemma makes_invoke [makes_intros]: "P c \<Longrightarrow> \<not> is_send c \<Longrightarrow> makes P (invoke f c)"
  by (simp add: makes_def invoke_def Let_def stepped_call)

lemma makes_bind [makes_intros]: "makes P m \<Longrightarrow> (\<And>x. makes P (k x)) \<Longrightarrow> makes P (and_then m k)"
  by (auto simp: makes_def and_then_def split: prod.splits sum.splits) (metis snd_conv stepped_trans)+

lemma makes_match [makes_intros]:
  "makes P m \<Longrightarrow> (\<And>x. makes P (k x)) \<Longrightarrow> (\<And>e. makes P (h e)) \<Longrightarrow> makes P (match_op m k h)"
  by (auto simp: makes_def match_op_def split: prod.splits sum.splits) (metis snd_conv stepped_trans)+

lemma makes_ignore [makes_intros]: "makes P m \<Longrightarrow> makes P (ignore m)"
  by (simp add: makes_def ignore_def)

lemma makes_context [makes_intros]: "makes P m \<Longrightarrow> makes P (op_context c m)"
  by (auto simp: makes_def op_context_def split: prod.splits) (metis snd_conv)

lemma makes_if [makes_intros]:
  "(b \<Longrightarrow> makes P m) \<Longrightarrow> (\<not> b \<Longrightarrow> makes P n) \<Longrightarrow> makes P (if b then m else n)"
  by simp

lemma makes_let [makes_intros]: "makes P (f x) \<Longrightarrow> makes P (let y = x in f y)"
  by simp

lemma makes_option [makes_intros]:
  "(x = None \<Longrightarrow> makes P m) \<Longrightarrow> (\<And>y. x = Some y \<Longrightarrow> makes P (k y)) \<Longrightarrow> makes P (case x of None \<Rightarrow> m | Some y \<Rightarrow> k y)"
  by (cases x) simp_all

lemma makes_prod [makes_intros]: "(\<And>a b. x = (a, b) \<Longrightarrow> makes P (k a b)) \<Longrightarrow> makes P (case x of (a, b) \<Rightarrow> k a b)"
  by (cases x) simp

lemma makes_selected [makes_intros]:
  "(\<And>y. x = Ready y \<Longrightarrow> makes P (k y)) \<Longrightarrow> makes P m \<Longrightarrow> makes P n \<Longrightarrow>
     makes P (case x of Ready y \<Rightarrow> k y | CancelledFirst \<Rightarrow> m | DeadlineFirst \<Rightarrow> n)"
  by (cases x) simp_all

lemma makes_for_each [makes_intros]: "(\<And>x. x \<in> set xs \<Longrightarrow> makes P (f x)) \<Longrightarrow> makes P (for_each_op xs f)"
  by (induction xs) (auto intro: makes_intros)

end
