(* ===== verification/Executor_Contract.thy ===== *)
theory Executor_Contract
  imports Host
begin

text \<open>
  The executor interface of \<^verbatim>\<open>crates/runner-core/src/executor.rs\<close> and the mock executor of
  \<^verbatim>\<open>crates/runner-core/src/mock.rs\<close>: capabilities, doctor reports, the registry that selects an
  executor for a job, and what every executor promises of the results it returns, as a locale.
\<close>

section \<open>Capabilities and reports\<close>

record executor_capabilities =
  ec_isolation :: isolation_level
  ec_capabilities :: "string set"

record doctor_check =
  dk_name :: string
  dk_healthy :: bool
  dk_message :: string

record doctor_report =
  dr_executor :: string
  dr_healthy :: bool
  dr_capabilities :: executor_capabilities
  dr_checks :: "doctor_check list"

definition new_capabilities :: "string list \<Rightarrow> executor_capabilities" where
  "new_capabilities names = \<lparr> ec_isolation = Container, ec_capabilities = set names \<rparr>"

definition default_capabilities :: executor_capabilities where
  "default_capabilities = \<lparr> ec_isolation = Container, ec_capabilities = {} \<rparr>"

definition supports :: "executor_capabilities \<Rightarrow> string \<Rightarrow> bool" where
  "supports c name = (name \<in> ec_capabilities c)"

fun isolation_debug :: "isolation_level \<Rightarrow> string" where
  "isolation_debug Container = ''Container''"
| "isolation_debug Sandboxed = ''Sandboxed''"
| "isolation_debug Dedicated = ''Dedicated''"

definition satisfies :: "executor_capabilities \<Rightarrow> execution_requirements \<Rightarrow> unit result" where
  "satisfies c requirements =
     bail_if (er_isolation requirements \<noteq> Container \<and> er_isolation requirements \<noteq> ec_isolation c)
       (''executor does not support required isolation: '' @ isolation_debug (er_isolation requirements))
     (for_each (er_capabilities requirements) (\<lambda>capability.
        bail_if (\<not> supports c capability)
          (''executor does not support capability: '' @ capability) (Inr ())))"

section \<open>The registry\<close>

text \<open>The methods of \<^verbatim>\<open>dyn Executor\<close>; whether a cancellation token is passed is part of a run.\<close>

record 's executor =
  xc_capabilities :: executor_capabilities
  xc_doctor :: "('s, doctor_report) op"
  xc_run :: "job_spec \<Rightarrow> bool \<Rightarrow> ('s, job_result) op"
  xc_cleanup :: "('s, unit) op"

type_synonym 's executor_factory = "string \<rightharpoonup> 's executor"

definition register :: "string \<Rightarrow> 's executor \<Rightarrow> 's executor_factory \<Rightarrow> 's executor_factory result" where
  "register name executor factory =
     bail_if (trim name = []) ''executor name must not be empty''
     (bail_if (factory name \<noteq> None) (''executor already registered: '' @ name)
       (Inr (factory(name \<mapsto> executor))))"

definition get_executor :: "'s executor_factory \<Rightarrow> string \<Rightarrow> 's executor result" where
  "get_executor factory name = ok_or (factory name) (Bail (''executor is not registered: '' @ name))"

definition requirements_of :: "job_spec \<Rightarrow> execution_requirements" where
  "requirements_of spec = (case js_execution spec of
     Some r \<Rightarrow> r | None \<Rightarrow> \<lparr> er_isolation = Container, er_capabilities = [] \<rparr>)"

definition select_for :: "'s executor_factory \<Rightarrow> job_spec \<Rightarrow> 's executor result" where
  "select_for factory spec =
     bind_result (get_executor factory (js_executor spec)) (\<lambda>executor.
     case satisfies (xc_capabilities executor) (requirements_of spec) of
       Inl e \<Rightarrow> Inl (Bail (''executor admission failed: '' @ error_to_string e))
     | Inr _ \<Rightarrow> Inr executor)"

lemma satisfies_ok:
  "satisfies c r = Inr u \<longleftrightarrow>
     (er_isolation r = Container \<or> er_isolation r = ec_isolation c) \<and> set (er_capabilities r) \<subseteq> ec_capabilities c"
  by (auto simp: satisfies_def for_each_ok supports_def)

lemma get_executor_ok: "get_executor factory name = Inr x \<longleftrightarrow> factory name = Some x"
  by (simp add: get_executor_def)

lemma register_get:
  "register name x factory = Inr factory' \<Longrightarrow>
     get_executor factory' n = (if n = name then Inr x else get_executor factory n)"
  by (auto simp: register_def get_executor_def ok_or_def)

text \<open>
  C26: A job is given an executor exactly when one is registered under the name the job asks
  for and it offers the isolation level and every capability the job requires, container
  isolation being offered by all; the executor returned is the registered one.
\<close>

theorem select_for_iff:
  "select_for factory spec = Inr x \<longleftrightarrow>
     factory (js_executor spec) = Some x \<and>
     er_isolation (requirements_of spec) \<in> {Container, ec_isolation (xc_capabilities x)} \<and>
     set (er_capabilities (requirements_of spec)) \<subseteq> ec_capabilities (xc_capabilities x)"
proof (cases "factory (js_executor spec)")
  case (Some y)
  then show ?thesis
    using satisfies_ok [of "xc_capabilities y" "requirements_of spec"]
    by (cases "satisfies (xc_capabilities y) (requirements_of spec)")
       (auto simp: select_for_def get_executor_def ok_or_def)
qed (simp add: select_for_def get_executor_def ok_or_def)

section \<open>The contract of a run\<close>

definition outcome_names :: "string list" where
  "outcome_names = [''completed'', ''failed'', ''cancelled'', ''timed_out'']"

text \<open>The parts of a result agree with each other and with the job.\<close>

definition consistent_result :: "job_spec \<Rightarrow> job_result \<Rightarrow> bool" where
  "consistent_result spec r \<longleftrightarrow>
     jr_job_id r = js_id spec \<and> jr_attempt r = js_attempt spec \<and>
     jr_status r \<in> set outcome_names \<and>
     (jr_exit_code r = None \<longleftrightarrow> jr_status r \<in> {''cancelled'', ''timed_out''}) \<and>
     (jr_failure r = None \<longleftrightarrow> jr_status r = ''completed'') \<and>
     (jr_status r = ''completed'' \<longleftrightarrow> jr_exit_code r = Some 0)"

locale executor_contract =
  fixes run :: "job_spec \<Rightarrow> bool \<Rightarrow> ('s, job_result) op"
  assumes consistent: "run spec cancellable s = (Inr r, t) \<Longrightarrow> consistent_result spec r"
begin

text \<open>The state the journal gets for a result is an outcome, and its name is the status.\<close>

lemma status_is_outcome:
  assumes "run spec cancellable s = (Inr r, t)"
  shows "is_outcome (from_str (jr_status r)) \<and> as_str (from_str (jr_status r)) = jr_status r"
  using consistent [OF assms]
  by (auto simp: consistent_result_def outcome_names_def from_str_def is_outcome_def)

lemma completed_iff_no_failure:
  "run spec cancellable s = (Inr r, t) \<Longrightarrow> jr_failure r = None \<longleftrightarrow> jr_exit_code r = Some 0"
  by (drule consistent) (simp add: consistent_result_def)

end

section \<open>The mock executor\<close>

definition mock_capabilities :: executor_capabilities where
  "mock_capabilities = new_capabilities [''artifacts'', ''cancellation'', ''streaming_logs'']"

definition mock_doctor :: "('s, doctor_report) op" where
  "mock_doctor = ret
     \<lparr> dr_executor = ''mock'', dr_healthy = True, dr_capabilities = mock_capabilities,
       dr_checks = [\<lparr> dk_name = ''mock'', dk_healthy = True, dk_message = ''mock executor is ready'' \<rparr>] \<rparr>"

definition mock_result :: "job_spec \<Rightarrow> string \<Rightarrow> bool \<Rightarrow> job_result" where
  "mock_result spec now cancelled =
     \<lparr> jr_job_id = js_id spec,
       jr_attempt = js_attempt spec,
       jr_status = (if cancelled then ''cancelled'' else ''completed''),
       jr_exit_code = (if \<not> cancelled then Some 0 else None),
       jr_started_at = now,
       jr_finished_at = now,
       jr_duration_ms = 0,
       jr_log_truncated = False,
       jr_stdout = [],
       jr_stderr = [],
       jr_error_summary = None,
       jr_failure = (if cancelled then Some \<lparr> fi_kind = Cancellation, fi_code = ''cancelled'',
                       fi_message = ''execution cancelled'' \<rparr> else None),
       jr_failed_phase = None,
       jr_artifacts = [],
       jr_artifact_dir = None,
       jr_sandbox = \<lparr> sb_executor = ''mock'', sb_container_id = [], sb_image_id = None \<rparr> \<rparr>"

definition mock_run :: "outside \<Rightarrow> job_spec \<Rightarrow> bool \<Rightarrow> ('h host_scheme, job_result) op" where
  "mock_run E spec cancellable =
     and_then (ask (o_text E) UtcNow) (\<lambda>now.
     and_then (if cancellable then ask (o_cancelled E) IsCancelled else ret False) (\<lambda>cancelled.
     ret (mock_result spec now cancelled)))"

definition mock_cleanup :: "('s, unit) op" where
  "mock_cleanup = ret ()"

definition mock_executor :: "outside \<Rightarrow> 'h host_scheme executor" where
  "mock_executor E = \<lparr> xc_capabilities = mock_capabilities, xc_doctor = mock_doctor,
     xc_run = mock_run E, xc_cleanup = mock_cleanup \<rparr>"

lemma mock_result_consistent: "consistent_result spec (mock_result spec now cancelled)"
  by (simp add: consistent_result_def mock_result_def outcome_names_def)

interpretation mock: executor_contract "mock_run E :: job_spec \<Rightarrow> bool \<Rightarrow> ('h host_scheme, job_result) op" for E
  by unfold_locales (auto simp: mock_run_def and_then_ok ret_def mock_result_consistent)

end
