(* ===== verification/Docker_Job.thy ===== *)
theory Docker_Job
  imports Docker_Container Executor_Contract
begin

text \<open>
  The steps that command jobs and workflow jobs share in \<^verbatim>\<open>crates/executor-docker/src/lib.rs\<close>
  (the two handlers repeat them line by line): opening the journal and staging the workspace,
  the network, the options of the job container, collecting artifacts, and tearing down.
\<close>

section \<open>Preparation\<close>

definition journal_open :: "outside \<Rightarrow> string \<Rightarrow> (world, unit) op" where
  "journal_open E path w =
     (let h = trace w @ [OpenJournal path]; w = w\<lparr> trace := h \<rparr> in
      case open_journal (o_faults E h 0) (o_faults E h 1) (Some (w_journal w)) of
        Inl e \<Rightarrow> (Inl e, w)
      | Inr j \<Rightarrow> (Inr (), w\<lparr> w_journal := j \<rparr>))"

definition journal_path :: "runner_config \<Rightarrow> string" where
  "journal_path config = path_join (rc_work_dir config) ''runner.db''"

definition prepare_job :: "outside \<Rightarrow> runner_config \<Rightarrow> job_spec \<Rightarrow> nat \<Rightarrow> (world, prepared_workspace) op" where
  "prepare_job E config spec deadline =
     and_then (journal_open E (journal_path config)) (\<lambda>_.
     and_then (journal_transition E (js_id spec) (js_attempt spec) Received) (\<lambda>_.
     and_then (journal_transition E (js_id spec) (js_attempt spec) Preparing) (\<lambda>_.
     and_then (prepare E (js_workspace spec) config deadline) (\<lambda>prepared.
     and_then (pull E config (js_image spec) deadline) (\<lambda>termination.
     case termination of
       Some reason \<Rightarrow> fail (termination_error reason)
     | None \<Rightarrow> ret prepared)))))"

definition managed_labels :: "runner_config \<Rightarrow> job_spec \<Rightarrow> (string \<times> string) list" where
  "managed_labels config spec =
     [(''ai-kodu-runner.managed'', ''true''),
      (''ai-kodu-runner.runner_id'', rc_runner_id config),
      (''ai-kodu-runner.job_id'', js_id spec)]"

text \<open>The name is made before the mode is looked at; the id exists for bridge networking only.\<close>

definition create_job_network ::
  "outside \<Rightarrow> runner_config \<Rightarrow> job_spec \<Rightarrow> (world, string \<times> string option) op" where
  "create_job_network E config spec =
     and_then (ask (o_text E) NewUuid) (\<lambda>uuid.
     let network_name = ''ai-kodu-runner-net-'' @ uuid in
     if js_network_mode spec = ''bridge'' then
       and_then (invoke (o_id E) (CreateNetwork
          \<lparr> nc_name = network_name, nc_labels = managed_labels config spec \<rparr>)) (\<lambda>network.
       ret (network_name, Some network))
     else ret (network_name, None))"

definition remove_network :: "outside \<Rightarrow> string option \<Rightarrow> (world, unit) op" where
  "remove_network E network = (case network of
     Some n \<Rightarrow> ignore (invoke (o_unit E) (RemoveNetwork n))
   | None \<Rightarrow> ret ())"

section \<open>The job container\<close>

definition job_container ::
  "runner_config \<Rightarrow> job_spec \<Rightarrow> resources \<Rightarrow> string \<Rightarrow> string \<times> string option
   \<Rightarrow> string \<Rightarrow> string list \<Rightarrow> string option \<Rightarrow> string list \<Rightarrow> (string \<times> string) list \<Rightarrow> container_config" where
  "job_container config spec resources dir network name cmd working_dir env labels =
     \<lparr> cc_name = name,
       cc_platform = dc_platform (rc_docker config),
       cc_image = js_image spec,
       cc_cmd = Some cmd,
       cc_working_dir = working_dir,
       cc_env = env,
       cc_labels = labels,
       cc_endpoint = None,
       cc_healthcheck = None,
       cc_binds = [dir @ '':/workspace''],
       cc_network_mode = Some (if snd network \<noteq> None then fst network else ''none''),
       cc_memory = memory_bytes (memory_mb resources),
       cc_nano_cpus = nano_cpus (cpu resources),
       cc_pids_limit = pids resources,
       cc_cap_drop = [''ALL''],
       cc_security_opt = [''no-new-privileges:true''],
       cc_readonly_rootfs = (\<not> js_writable_rootfs spec),
       cc_tmpfs = runtime_tmpfs \<rparr>"

section \<open>Collecting and tearing down\<close>

definition collect ::
  "outside \<Rightarrow> runner_config \<Rightarrow> job_spec \<Rightarrow> string \<Rightarrow> string \<Rightarrow> string option \<Rightarrow> string \<Rightarrow> string
   \<Rightarrow> (world, string list \<times> string option) op" where
  "collect E config spec dir final_status phase stdout stderr =
     and_then (if final_status \<noteq> ''completed''
               then write_failure_diagnostics E dir spec phase stdout stderr else ret ()) (\<lambda>_.
     let artifact_patterns = js_artifacts spec @
           (if final_status \<noteq> ''completed'' then [''.runner/diagnostics/**''] else []) in
     if artifact_patterns = [] then ret ([], None)
     else
       let export_dir = destination (rc_work_dir config) (js_id spec) (js_attempt spec) in
       and_then (export E dir artifact_patterns export_dir
          (max_artifact_bytes (rc_limits config)) (max_artifact_files (rc_limits config))) (\<lambda>files.
       ret (case files of Some fs \<Rightarrow> fs | None \<Rightarrow> [], Some export_dir)))"

text \<open>\<open>.ok().and_then(|x| x.image)\<close>: a failed inspection leaves the image unknown.\<close>

definition image_of :: "outside \<Rightarrow> string \<Rightarrow> (world, string option) op" where
  "image_of E container =
     match_op (invoke (o_inspect E) (InspectContainer container)) (\<lambda>info. ret (ci_image info)) (\<lambda>_. ret None)"

definition destroy ::
  "outside \<Rightarrow> job_spec \<Rightarrow> string \<Rightarrow> string \<Rightarrow> string list \<Rightarrow> string option \<Rightarrow> (world, string option) op" where
  "destroy E spec final_status container service_ids network =
     and_then (journal_transition E (js_id spec) (js_attempt spec) (from_str final_status)) (\<lambda>_.
     and_then (journal_transition E (js_id spec) (js_attempt spec) Destroying) (\<lambda>_.
     and_then (image_of E container) (\<lambda>image_id.
     and_then (ignore (remove_container E container)) (\<lambda>_.
     and_then (remove_containers E service_ids) (\<lambda>_.
     and_then (remove_network E network) (\<lambda>_.
     and_then (journal_transition E (js_id spec) (js_attempt spec) Destroyed) (\<lambda>_.
     ret image_id)))))))"

definition failure_of :: "string \<Rightarrow> string \<Rightarrow> string \<Rightarrow> failure_info option" where
  "failure_of code message final_status =
     (if final_status \<noteq> ''completed'' then Some
       (if final_status = ''cancelled'' then
          \<lparr> fi_kind = Cancellation, fi_code = ''cancelled'', fi_message = ''execution cancelled'' \<rparr>
        else if final_status = ''timed_out'' then
          \<lparr> fi_kind = Timeout, fi_code = ''timeout'', fi_message = ''execution timed out'' \<rparr>
        else \<lparr> fi_kind = Execution, fi_code = code, fi_message = message \<rparr>)
      else None)"

text \<open>Both time stamps are read here, after the job, as are the clock and the dropped chunks.\<close>

definition make_result ::
  "outside \<Rightarrow> job_spec \<Rightarrow> string \<Rightarrow> int option \<Rightarrow> nat \<Rightarrow> bool \<Rightarrow> string \<Rightarrow> string \<Rightarrow> failure_info option
   \<Rightarrow> string option \<Rightarrow> string list \<times> string option \<Rightarrow> string \<Rightarrow> string option \<Rightarrow> (world, job_result) op" where
  "make_result E spec final_status exit_code started truncated stdout stderr failure failed_phase files container image_id =
     and_then (ask (o_text E) UtcNow) (\<lambda>started_at.
     and_then (ask (o_text E) UtcNow) (\<lambda>finished_at.
     and_then (ask (o_now E) Now) (\<lambda>now.
     (\<lambda>w. ret
     \<lparr> jr_job_id = js_id spec,
       jr_attempt = js_attempt spec,
       jr_status = final_status,
       jr_exit_code = exit_code,
       jr_started_at = started_at,
       jr_finished_at = finished_at,
       jr_duration_ms = now - started,
       jr_log_truncated = (truncated \<or> ls_dropped (w_log w) > 0),
       jr_stdout = from_utf8_lossy stdout,
       jr_stderr = from_utf8_lossy stderr,
       jr_error_summary = error_summary final_status (from_utf8_lossy stdout) (from_utf8_lossy stderr),
       jr_failure = failure,
       jr_failed_phase = failed_phase,
       jr_artifacts = fst files,
       jr_artifact_dir = snd files,
       jr_sandbox = \<lparr> sb_executor = ''docker'', sb_container_id = container, sb_image_id = image_id \<rparr> \<rparr> w))))"

end
