(* ===== verification/Docker_Workflow.thy ===== *)
theory Docker_Workflow
  imports Docker_Job
begin

text \<open>
  Workflow jobs (\<^verbatim>\<open>run_workflow\<close> in \<^verbatim>\<open>crates/executor-docker/src/lib.rs\<close>): setup and
  initialization commands, the agent and its verifiers for a bounded number of iterations,
  publication, and the result. The mutable locals of the Rust function are a record.
\<close>

section \<open>Locals\<close>

record wf_locals =
  wl_final_status :: string
  wl_setup_ok :: bool
  wl_failed_phase :: "string option"
  wl_stdout :: string
  wl_stderr :: string
  wl_truncated :: bool
  wl_termination :: "execution_termination option"
  wl_all_passed :: bool
  wl_report :: string

definition initial_locals :: wf_locals where
  "initial_locals = \<lparr> wl_final_status = ''failed'', wl_setup_ok = True, wl_failed_phase = None,
     wl_stdout = [], wl_stderr = [], wl_truncated = False, wl_termination = None,
     wl_all_passed = False, wl_report = [] \<rparr>"

text \<open>What every phase does with the output of a command.\<close>

definition absorb :: "u64 \<Rightarrow> exec_result \<Rightarrow> wf_locals \<Rightarrow> wf_locals" where
  "absorb limit result l =
     (let (stdout, t) = append_bounded (wl_stdout l) (ex_stdout result) limit;
          (stderr, t') = append_bounded (wl_stderr l) (ex_stderr result) limit
      in l\<lparr> wl_stdout := stdout, wl_stderr := stderr,
            wl_truncated := (wl_truncated l \<or> ex_truncated result \<or> t \<or> t') \<rparr>)"

definition stopped :: "execution_termination \<Rightarrow> string \<Rightarrow> wf_locals \<Rightarrow> wf_locals" where
  "stopped reason phase l = l\<lparr> wl_termination := Some reason, wl_failed_phase := Some phase \<rparr>"

text \<open>The container, the runner and the deadline that every phase uses.\<close>

record wf_context =
  wc_outside :: outside
  wc_config :: runner_config
  wc_container :: string
  wc_deadline :: nat
  wc_feedback :: string

definition phase_exec ::
  "wf_context \<Rightarrow> string \<Rightarrow> command_spec \<Rightarrow> wf_locals \<Rightarrow> (exec_result \<Rightarrow> wf_locals \<Rightarrow> (world, wf_locals) op)
   \<Rightarrow> (world, wf_locals) op" where
  "phase_exec C phase command l k =
     and_then (set_log_phase phase) (\<lambda>_.
     and_then (exec_command (wc_outside C) (wc_config C) (wc_container C) command (wc_deadline C)) (\<lambda>result.
     let l = absorb (max_log_bytes (rc_limits (wc_config C))) result l in
     case ex_termination result of
       Some reason \<Rightarrow> ret (stopped reason phase l)
     | None \<Rightarrow> k result l))"

definition write_feedback :: "wf_context \<Rightarrow> string \<Rightarrow> (world, unit) op" where
  "write_feedback C message = invoke (o_unit (wc_outside C)) (WriteText (wc_feedback C) message)"

section \<open>Setup\<close>

text \<open>The guard of the setup loop: cancelled or past the deadline, and for which reason.\<close>

definition setup_expired :: "wf_context \<Rightarrow> (world, execution_termination option) op" where
  "setup_expired C =
     and_then (ask (o_cancelled (wc_outside C)) IsCancelled) (\<lambda>cancelled.
     and_then (if cancelled then ret True
               else and_then (ask (o_now (wc_outside C)) Now) (\<lambda>now. ret (wc_deadline C \<le> now))) (\<lambda>expired.
     if expired then
       and_then (ask (o_cancelled (wc_outside C)) IsCancelled) (\<lambda>cancelled.
       ret (Some (if cancelled then ExecCancelled else ExecTimedOut)))
     else ret None))"

fun run_setup :: "wf_context \<Rightarrow> wf_locals \<Rightarrow> command_spec list \<Rightarrow> (world, wf_locals) op" where
  "run_setup C l [] = ret l"
| "run_setup C l (setup # rest) =
     and_then (setup_expired C) (\<lambda>expired.
     case expired of
       Some reason \<Rightarrow> ret (stopped reason ''setup'' l)
     | None \<Rightarrow>
         and_then (phase_exec C ''setup'' setup l (\<lambda>result l. ret
            (if ex_status result \<noteq> 0 then l\<lparr> wl_setup_ok := False, wl_failed_phase := Some ''setup'' \<rparr> else l))) (\<lambda>l.
         if wl_termination l \<noteq> None then ret l else run_setup C l rest))"

definition run_initialize :: "wf_context \<Rightarrow> workflow_spec \<Rightarrow> wf_locals \<Rightarrow> (world, wf_locals) op" where
  "run_initialize C workflow l =
     (if wl_termination l \<noteq> None then ret l
      else and_then (ask (o_cancelled (wc_outside C)) IsCancelled) (\<lambda>cancelled.
      if cancelled \<or> \<not> wl_setup_ok l then ret l
      else case wf_initialize workflow of
        None \<Rightarrow> ret l
      | Some initialize \<Rightarrow>
          phase_exec C ''initialize'' initialize l (\<lambda>result l.
          if ex_status result \<noteq> 0 then
            and_then (write_feedback C
               (''Agent context initialization failed with exit code '' @ show_int (ex_status result) @ ''.'' @ nl @
                from_utf8_lossy (ex_stdout result))) (\<lambda>_.
            ret (l\<lparr> wl_setup_ok := False, wl_failed_phase := Some ''initialize'' \<rparr>))
          else ret l)))"

section \<open>One iteration\<close>

definition report_of :: "string \<Rightarrow> exec_result \<Rightarrow> string" where
  "report_of who result =
     nl @ who @ '' exit code: '' @ show_int (ex_status result) @ nl @
     ''stdout:'' @ nl @ from_utf8_lossy (ex_stdout result) @ nl @
     ''stderr:'' @ nl @ from_utf8_lossy (ex_stderr result) @ nl"

definition run_agent :: "wf_context \<Rightarrow> workflow_spec \<Rightarrow> nat \<Rightarrow> wf_locals \<Rightarrow> (world, wf_locals) op" where
  "run_agent C workflow iteration l =
     phase_exec C ''agent'' (wf_agent workflow) l (\<lambda>agent l. ret (l
       \<lparr> wl_all_passed := (ex_status agent = 0),
         wl_failed_phase := (if ex_status agent \<noteq> 0 then Some ''agent'' else wl_failed_phase l),
         wl_report := ''Iteration '' @ show_nat iteration @ '' agent exit code: '' @ show_int (ex_status agent) @ nl \<rparr>))"

definition verdict :: "string \<Rightarrow> bool \<Rightarrow> exec_result \<Rightarrow> wf_locals \<Rightarrow> wf_locals" where
  "verdict who required result l =
     (let l = l\<lparr> wl_report := wl_report l @ report_of who result \<rparr> in
      if required \<and> ex_status result \<noteq> 0
      then l\<lparr> wl_all_passed := False, wl_failed_phase := Some ''verifier'' \<rparr> else l)"

definition verifier_command :: "verifier_spec \<Rightarrow> command_spec" where
  "verifier_command verifier =
     \<lparr> cs_command = vs_command verifier, cs_working_directory = vs_working_directory verifier \<rparr>"

fun run_verifiers :: "wf_context \<Rightarrow> wf_locals \<Rightarrow> verifier_spec list \<Rightarrow> (world, wf_locals) op" where
  "run_verifiers C l [] = ret l"
| "run_verifiers C l (verifier # rest) =
     and_then (phase_exec C ''verifier'' (verifier_command verifier) l (\<lambda>result l.
       ret (verdict (''Verifier '' @ vs_name verifier) (vs_required verifier) result l))) (\<lambda>l.
     if wl_termination l \<noteq> None then ret l else run_verifiers C l rest)"

fun run_mandatory :: "wf_context \<Rightarrow> wf_locals \<Rightarrow> command_spec list \<Rightarrow> (world, wf_locals) op" where
  "run_mandatory C l [] = ret l"
| "run_mandatory C l (verifier # rest) =
     (if wl_termination l \<noteq> None then ret l
      else and_then (phase_exec C ''verifier'' verifier l (\<lambda>result l.
        ret (verdict (''Mandatory verifier '' @ o_debug (wc_outside C) (cs_command verifier)) True result l))) (\<lambda>l.
      if wl_termination l \<noteq> None then ret l else run_mandatory C l rest))"

definition run_publish :: "wf_context \<Rightarrow> workflow_spec \<Rightarrow> wf_locals \<Rightarrow> (world, wf_locals) op" where
  "run_publish C workflow l =
     (case wf_publish workflow of
        None \<Rightarrow> ret l
      | Some publish \<Rightarrow>
          if wl_termination l = None \<and> wl_all_passed l then
            phase_exec C ''publish'' publish l (\<lambda>result l. ret (l
              \<lparr> wl_all_passed := (ex_status result = 0),
                wl_failed_phase := (if ex_status result \<noteq> 0 then Some ''publish'' else wl_failed_phase l) \<rparr>))
          else ret l)"

definition run_checks :: "wf_context \<Rightarrow> workflow_spec \<Rightarrow> wf_locals \<Rightarrow> (world, wf_locals) op" where
  "run_checks C workflow l =
     and_then (run_verifiers C l (wf_verifiers workflow)) (\<lambda>l.
     and_then (run_mandatory C l (mandatory_verifiers (rc_security (wc_config C)))) (\<lambda>l.
     run_publish C workflow l))"

fun run_iterations :: "wf_context \<Rightarrow> workflow_spec \<Rightarrow> wf_locals \<Rightarrow> nat list \<Rightarrow> (world, wf_locals) op" where
  "run_iterations C workflow l [] = ret l"
| "run_iterations C workflow l (iteration # rest) =
     (if \<not> wl_setup_ok l then ret l
      else and_then (ask (o_cancelled (wc_outside C)) IsCancelled) (\<lambda>cancelled.
      if cancelled \<or> wl_termination l \<noteq> None then ret l
      else and_then (run_agent C workflow iteration l) (\<lambda>l.
      if wl_termination l \<noteq> None then ret l
      else and_then (run_checks C workflow l) (\<lambda>l.
      if wl_termination l = None \<and> wl_all_passed l then ret (l\<lparr> wl_final_status := ''completed'' \<rparr>)
      else and_then (write_feedback C (wl_report l)) (\<lambda>_.
      if iteration = unat (wf_max_iterations workflow) then ret l
      else run_iterations C workflow l rest)))))"

text \<open>The range \<^verbatim>\<open>1..=workflow.max_iterations\<close>.\<close>

definition iterations_of :: "workflow_spec \<Rightarrow> nat list" where
  "iterations_of workflow = [1..<Suc (unat (wf_max_iterations workflow))]"

section \<open>The whole workflow\<close>

text \<open>The last look at the token and the clock, and the status a termination gives.\<close>

fun termination_status :: "execution_termination \<Rightarrow> string" where
  "termination_status ExecCancelled = ''cancelled''"
| "termination_status ExecTimedOut = ''timed_out''"

definition conclude :: "wf_context \<Rightarrow> wf_locals \<Rightarrow> (world, wf_locals) op" where
  "conclude C l =
     and_then (if wl_termination l \<noteq> None then ret l
       else and_then (ask (o_cancelled (wc_outside C)) IsCancelled) (\<lambda>cancelled.
         ret (if cancelled then l\<lparr> wl_termination := Some ExecCancelled \<rparr> else l))) (\<lambda>l.
     and_then (if wl_termination l \<noteq> None then ret l
       else and_then (ask (o_now (wc_outside C)) Now) (\<lambda>now.
         ret (if wc_deadline C \<le> now then l\<lparr> wl_termination := Some ExecTimedOut \<rparr> else l))) (\<lambda>l.
     case wl_termination l of
       None \<Rightarrow> ret l
     | Some reason \<Rightarrow>
         and_then (ignore (invoke (o_unit (wc_outside C)) (StopContainer (wc_container C)))) (\<lambda>_.
         ret (l\<lparr> wl_final_status := termination_status reason,
                 wl_failed_phase := Some (termination_status reason) \<rparr>))))"

definition run_phases :: "wf_context \<Rightarrow> workflow_spec \<Rightarrow> (world, wf_locals) op" where
  "run_phases C workflow =
     and_then (run_setup C initial_locals (wf_setup workflow)) (\<lambda>l.
     and_then (if wl_termination l = None \<and> \<not> wl_setup_ok l
               then write_feedback C (''Workflow setup command failed.'' @ nl) else ret ()) (\<lambda>_.
     and_then (run_initialize C workflow l) (\<lambda>l.
     and_then (run_iterations C workflow l (iterations_of workflow)) (\<lambda>l.
     conclude C l))))"

definition workflow_services ::
  "outside \<Rightarrow> runner_config \<Rightarrow> job_spec \<Rightarrow> workflow_spec \<Rightarrow> resources \<Rightarrow> nat \<Rightarrow> string option \<Rightarrow> (world, string list) op" where
  "workflow_services E config spec workflow resources deadline network =
     (case network of
        Some network_id \<Rightarrow>
          match_op (start_services E config (wf_services workflow) network_id (js_id spec) resources deadline)
            (\<lambda>ids. ret ids)
            (\<lambda>e. and_then (remove_network E network) (\<lambda>_. fail e))
      | None \<Rightarrow>
          if wf_services workflow = [] then ret []
          else and_then (remove_network E network) (\<lambda>_.
            fail (Bail ''workflow services require bridge networking'')))"

definition start_workflow_container ::
  "outside \<Rightarrow> runner_config \<Rightarrow> job_spec \<Rightarrow> resources \<Rightarrow> string \<Rightarrow> string \<times> string option \<Rightarrow> string list \<Rightarrow> string list
   \<Rightarrow> (world, string) op" where
  "start_workflow_container E config spec resources dir network env service_ids =
     and_then (ask (o_text E) NewUuid) (\<lambda>uuid.
     match_op (invoke (o_id E) (CreateContainer
         (job_container config spec resources dir network (''ai-kodu-runner-job-'' @ uuid)
            [''sleep'', ''infinity''] None env
            (managed_labels config spec @ [(''ai-kodu-runner.attempt'', show_nat (unat (js_attempt spec)))]))))
       (\<lambda>container.
        match_op (invoke (o_unit E) (StartContainer container))
          (\<lambda>_. ret container)
          (\<lambda>e. and_then (ignore (remove_container E container)) (\<lambda>_.
               and_then (remove_containers E service_ids) (\<lambda>_.
               and_then (remove_network E (snd network)) (\<lambda>_. fail e)))))
       (\<lambda>e. and_then (remove_containers E service_ids) (\<lambda>_.
            and_then (remove_network E (snd network)) (\<lambda>_. fail e))))"

definition workflow_exit_code :: "string \<Rightarrow> int option" where
  "workflow_exit_code final_status =
     (if final_status \<noteq> ''cancelled'' \<and> final_status \<noteq> ''timed_out''
      then Some (if final_status = ''completed'' then 0 else 1) else None)"

definition finish_workflow ::
  "wf_context \<Rightarrow> job_spec \<Rightarrow> string \<Rightarrow> string option \<Rightarrow> string list \<Rightarrow> nat \<Rightarrow> wf_locals \<Rightarrow> (world, job_result) op" where
  "finish_workflow C spec dir network service_ids started l =
     (let E = wc_outside C; final_status = wl_final_status l in
      and_then (journal_transition E (js_id spec) (js_attempt spec) Collecting) (\<lambda>_.
      and_then (collect E (wc_config C) spec dir final_status (wl_failed_phase l) (wl_stdout l) (wl_stderr l)) (\<lambda>files.
      and_then (destroy E spec final_status (wc_container C) service_ids network) (\<lambda>image_id.
      make_result E spec final_status (workflow_exit_code final_status) started (wl_truncated l)
        (wl_stdout l) (wl_stderr l) (failure_of ''workflow_failed'' ''workflow failed'' final_status)
        (if final_status \<noteq> ''completed''
         then Some (case wl_failed_phase l of Some p \<Rightarrow> p | None \<Rightarrow> ''workflow'') else None)
        files (wc_container C) image_id))))"

definition run_workflow ::
  "outside \<Rightarrow> runner_config \<Rightarrow> job_spec \<Rightarrow> workflow_spec \<Rightarrow> resources \<Rightarrow> nat \<Rightarrow> (world, job_result) op" where
  "run_workflow E config spec workflow resources deadline =
     and_then (prepare_job E config spec deadline) (\<lambda>prepared.
     and_then (create_job_network E config spec) (\<lambda>network.
     and_then (lift (environment_for_job (o_env E) spec config)) (\<lambda>env.
     and_then (workflow_services E config spec workflow resources deadline (snd network)) (\<lambda>service_ids.
     and_then (start_workflow_container E config spec resources (pw_dir prepared) network env service_ids) (\<lambda>container.
     and_then (safe_feedback_path E (pw_dir prepared) (wf_feedback_file workflow)) (\<lambda>feedback.
     let C = \<lparr> wc_outside = E, wc_config = config, wc_container = container, wc_deadline = deadline,
               wc_feedback = feedback \<rparr> in
     and_then (write_feedback C (''No verifier feedback yet.'' @ nl)) (\<lambda>_.
     and_then (journal_transition E (js_id spec) (js_attempt spec) Running) (\<lambda>_.
     and_then (ask (o_now E) Now) (\<lambda>started.
     and_then (run_phases C workflow) (\<lambda>l.
     finish_workflow C spec (pw_dir prepared) (snd network) service_ids started l))))))))))"

end
