(* ===== verification/Docker_Run.thy ===== *)
theory Docker_Run
  imports Docker_Workflow
begin

text \<open>
  The methods of \<^verbatim>\<open>impl Executor for DockerExecutor\<close> in
  \<^verbatim>\<open>crates/executor-docker/src/lib.rs\<close>: construction, doctor, running a job and cleaning up.
\<close>

section \<open>Construction and doctor\<close>

definition connect :: "outside \<Rightarrow> (world, unit) op" where
  "connect E = op_context ''connect to Docker Engine/Desktop'' (invoke (o_unit E) ConnectDocker)"

definition fresh_log :: "bool \<Rightarrow> log_state" where
  "fresh_log sender = \<lparr> ls_sender = sender, ls_sequence = 0, ls_dropped = 0, ls_context = None \<rparr>"

definition with_log_sender :: "outside \<Rightarrow> (string \<Rightarrow> string) \<Rightarrow> runner_config \<Rightarrow> bool \<Rightarrow> (world, unit) op" where
  "with_log_sender E debug config sender =
     and_then (lift (validate_platform debug (dc_platform (rc_docker config)))) (\<lambda>_.
     and_then (connect E) (\<lambda>_.
     (\<lambda>w. (Inr (), w\<lparr> w_log := fresh_log sender \<rparr>))))"

definition docker_capabilities :: executor_capabilities where
  "docker_capabilities = new_capabilities [''artifacts'', ''cancellation'', ''network'', ''streaming_logs'']"

text \<open>The test container has no host options: zero stands for Docker's defaults.\<close>

definition doctor_container :: "string \<Rightarrow> string \<Rightarrow> container_config" where
  "doctor_container name platform =
     \<lparr> cc_name = name, cc_platform = platform, cc_image = ''alpine:3.20'', cc_cmd = Some [''true''],
       cc_working_dir = None, cc_env = [], cc_labels = [], cc_endpoint = None, cc_healthcheck = None,
       cc_binds = [], cc_network_mode = None, cc_memory = 0, cc_nano_cpus = 0, cc_pids_limit = 0,
       cc_cap_drop = [], cc_security_opt = [], cc_readonly_rootfs = False, cc_tmpfs = [] \<rparr>"

definition probe :: "outside \<Rightarrow> string \<Rightarrow> (world, string option) op" where
  "probe E platform =
     and_then (op_context ''Docker ping'' (invoke (o_unit E) Ping)) (\<lambda>_.
     and_then (invoke (o_version E) DockerVersion) (\<lambda>version.
     and_then (ask (o_text E) NewUuid) (\<lambda>uuid.
     and_then (invoke (o_id E) (CreateContainer
        (doctor_container (''ai-kodu-runner-doctor-'' @ uuid) platform))) (\<lambda>test_id.
     and_then (remove_container E test_id) (\<lambda>_.
     ret version)))))"

definition docker_doctor :: "outside \<Rightarrow> runner_config \<Rightarrow> (world, doctor_report) op" where
  "docker_doctor E config =
     and_then (probe E (dc_platform (rc_docker config))) (\<lambda>version.
     ret \<lparr> dr_executor = ''docker'', dr_healthy = True, dr_capabilities = docker_capabilities,
           dr_checks =
             [\<lparr> dk_name = ''docker_ping'', dk_healthy = True, dk_message = ''Docker Engine responded to ping'' \<rparr>,
              \<lparr> dk_name = ''docker_version'', dk_healthy = True,
                dk_message = (case version of Some v \<Rightarrow> v | None \<Rightarrow> ''Docker version unavailable'') \<rparr>,
              \<lparr> dk_name = ''test_container'', dk_healthy = True,
                dk_message = ''Docker can create and remove a test container'' \<rparr>] \<rparr>)"

text \<open>The associated function \<^verbatim>\<open>DockerExecutor::doctor\<close> connects anew and prints its findings.\<close>

definition static_doctor :: "outside \<Rightarrow> (world, unit) op" where
  "static_doctor E =
     and_then (connect E) (\<lambda>_.
     and_then (probe E (platform_from_env (o_env E))) (\<lambda>_. ret ()))"

section \<open>Following the log of a command\<close>

record run_log =
  rl_bytes :: u64
  rl_truncated :: bool
  rl_stdout :: string
  rl_stderr :: string
  rl_cancelled :: bool
  rl_timeout :: bool

definition empty_run_log :: run_log where
  "empty_run_log = \<lparr> rl_bytes = 0, rl_truncated = False, rl_stdout = [], rl_stderr = [],
     rl_cancelled = False, rl_timeout = False \<rparr>"

text \<open>How many bytes of a message still fit; both streams count against one limit.\<close>

definition accepted :: "u64 \<Rightarrow> run_log \<Rightarrow> string \<Rightarrow> nat" where
  "accepted limit l message = min (length message) (unat (limit - rl_bytes l))"

definition log_item ::
  "outside \<Rightarrow> u64 \<Rightarrow> string \<Rightarrow> (string \<Rightarrow> run_log \<Rightarrow> run_log) \<Rightarrow> run_log \<Rightarrow> string \<Rightarrow> (world, run_log) op" where
  "log_item E limit stream push l message =
     (if rl_bytes l < limit then
        let n = accepted limit l message in
        and_then (emit_log E stream (take n message)) (\<lambda>_.
        ret ((push (take n message) l)
          \<lparr> rl_bytes := rl_bytes l + of_nat n, rl_truncated := (rl_truncated l \<or> n < length message) \<rparr>))
      else ret (l\<lparr> rl_truncated := True \<rparr>))"

fun follow_logs :: "outside \<Rightarrow> u64 \<Rightarrow> string \<Rightarrow> run_log \<Rightarrow> log_output result selected list \<Rightarrow> (world, run_log) op" where
  "follow_logs E limit container l [] = ret l"
| "follow_logs E limit container l (item # rest) =
     (case item of
        CancelledFirst \<Rightarrow> and_then (ignore (stop_container E container)) (\<lambda>_. ret (l\<lparr> rl_cancelled := True \<rparr>))
      | DeadlineFirst \<Rightarrow> and_then (ignore (stop_container E container)) (\<lambda>_. ret (l\<lparr> rl_timeout := True \<rparr>))
      | Ready (Inl e) \<Rightarrow> fail e
      | Ready (Inr (StdOut message)) \<Rightarrow>
          and_then (log_item E limit ''stdout'' (\<lambda>m l. l\<lparr> rl_stdout := rl_stdout l @ m \<rparr>) l message)
            (\<lambda>l. follow_logs E limit container l rest)
      | Ready (Inr (StdErr message)) \<Rightarrow>
          and_then (log_item E limit ''stderr'' (\<lambda>m l. l\<lparr> rl_stderr := rl_stderr l @ m \<rparr>) l message)
            (\<lambda>l. follow_logs E limit container l rest)
      | Ready (Inr OtherOutput) \<Rightarrow> follow_logs E limit container l rest)"

section \<open>Command jobs\<close>

definition start_command_container ::
  "outside \<Rightarrow> runner_config \<Rightarrow> job_spec \<Rightarrow> resources \<Rightarrow> string \<Rightarrow> string \<times> string option \<Rightarrow> (world, string \<times> nat) op" where
  "start_command_container E config spec resources dir network =
     and_then (ask (o_text E) NewUuid) (\<lambda>uuid.
     and_then (lift (environment_for_job (o_env E) spec config)) (\<lambda>env.
     and_then (ask (o_text E) (UtcAfter (timeout_seconds resources))) (\<lambda>expires_at.
     match_op (invoke (o_id E) (CreateContainer
         (job_container config spec resources dir network (''ai-kodu-runner-job-'' @ uuid)
            (command_with_opencode_retry (js_command spec)) (Some (js_working_directory spec))
            (headless_opencode_environment env (js_command spec))
            (managed_labels config spec @
               [(''ai-kodu-runner.attempt'', show_nat (unat (js_attempt spec))),
                (''ai-kodu-runner.expires_at'', expires_at)]))))
       (\<lambda>container.
        and_then (journal_transition E (js_id spec) (js_attempt spec) Running) (\<lambda>_.
        and_then (ask (o_now E) Now) (\<lambda>started.
        match_op (invoke (o_unit E) (StartContainer container))
          (\<lambda>_. ret (container, started))
          (\<lambda>e. and_then (ignore (remove_container E container)) (\<lambda>_.
               and_then (remove_network E (snd network)) (\<lambda>_. fail e))))))
       (\<lambda>e. and_then (remove_network E (snd network)) (\<lambda>_. fail e)))))"

definition exit_status :: "outside \<Rightarrow> string \<Rightarrow> string option \<Rightarrow> (world, int) op" where
  "exit_status E container network =
     match_op (invoke (o_inspect E) (InspectContainer container))
       (\<lambda>info. ret (case ci_exit_code info of Some c \<Rightarrow> c | None \<Rightarrow> - 1))
       (\<lambda>e. and_then (ignore (remove_container E container)) (\<lambda>_.
            and_then (remove_network E network) (\<lambda>_.
            fail (Bail (''Docker container inspect failed for '' @ container @ '': '' @ error_to_string e)))))"

text \<open>The status of a command job, and the stderr and exit code after publishing its changes.\<close>

definition decide ::
  "outside \<Rightarrow> nat \<Rightarrow> run_log \<Rightarrow> int \<Rightarrow> (world, bool \<times> bool \<times> string) op" where
  "decide E deadline l status =
     and_then (if rl_cancelled l then ret True else ask (o_cancelled E) IsCancelled) (\<lambda>cancelled.
     and_then (if cancelled then ret False
               else if rl_timeout l then ret True
               else and_then (ask (o_now E) Now) (\<lambda>now. ret (deadline \<le> now))) (\<lambda>timed_out.
     ret (cancelled, timed_out,
       if cancelled then ''cancelled'' else if timed_out then ''timed_out''
       else if status = 0 then ''completed'' else ''failed'')))"

definition publish_result ::
  "outside \<Rightarrow> job_spec \<Rightarrow> string \<Rightarrow> string \<Rightarrow> int \<Rightarrow> string \<Rightarrow> (world, string \<times> int \<times> string) op" where
  "publish_result E spec dir final_status exit_code stderr =
     (if final_status = ''completed'' then
        match_op (publish_git E (js_workspace spec) dir)
          (\<lambda>_. ret (final_status, exit_code, stderr))
          (\<lambda>e. ret (''failed'', 1, stderr @ ''git publish failed: '' @ error_to_string e @ nl))
      else ret (final_status, exit_code, stderr))"

definition finish_command ::
  "outside \<Rightarrow> runner_config \<Rightarrow> job_spec \<Rightarrow> nat \<Rightarrow> string \<Rightarrow> string option \<Rightarrow> string \<Rightarrow> nat \<Rightarrow> run_log \<Rightarrow> int
   \<Rightarrow> (world, job_result) op" where
  "finish_command E config spec deadline dir network container started l status =
     and_then (journal_transition E (js_id spec) (js_attempt spec) Collecting) (\<lambda>_.
     and_then (decide E deadline l status) (\<lambda>(cancelled, timed_out, final_status).
     and_then (publish_result E spec dir final_status status (rl_stderr l)) (\<lambda>(final_status, final_exit_code, stderr).
     and_then (collect E config spec dir final_status (Some ''command'') (rl_stdout l) stderr) (\<lambda>files.
     and_then (destroy E spec final_status container [] network) (\<lambda>image_id.
     make_result E spec final_status
       (if \<not> cancelled \<and> \<not> timed_out then Some final_exit_code else None) started (rl_truncated l)
       (rl_stdout l) stderr (failure_of ''command_failed'' ''Docker command failed'' final_status)
       (if final_status \<noteq> ''completed'' then Some ''command'' else None) files container image_id)))))"

definition run_command ::
  "outside \<Rightarrow> runner_config \<Rightarrow> job_spec \<Rightarrow> resources \<Rightarrow> nat \<Rightarrow> (world, job_result) op" where
  "run_command E config spec resources deadline =
     and_then (prepare_job E config spec deadline) (\<lambda>prepared.
     and_then (create_job_network E config spec) (\<lambda>network.
     and_then (start_command_container E config spec resources (pw_dir prepared) network) (\<lambda>(container, started).
     and_then (ask (o_logs E) (ContainerLogs container)) (\<lambda>items.
     and_then (follow_logs E (max_log_bytes (rc_limits config)) container empty_run_log items) (\<lambda>l.
     and_then (exit_status E container (snd network)) (\<lambda>status.
     finish_command E config spec deadline (pw_dir prepared) (snd network) container started l status))))))"

text \<open>
  \<^verbatim>\<open>Executor::run\<close>. Without a token a fresh one is used that nobody cancels: such a run is one in
  an environment that never reports a cancellation.
\<close>

definition run :: "outside \<Rightarrow> runner_config \<Rightarrow> job_spec \<Rightarrow> (world, job_result) op" where
  "run E config spec =
     and_then (begin_log_stream spec) (\<lambda>_.
     and_then (set_log_phase (if js_workflow spec \<noteq> None then ''prepare'' else ''command'')) (\<lambda>_.
     and_then (lift (validate (o_realpath E) spec config False)) (\<lambda>resources.
     and_then (ask (o_now E) Now) (\<lambda>now.
     let deadline = now + 1000 * unat (timeout_seconds resources) in
     case js_workflow spec of
       Some workflow \<Rightarrow> run_workflow E config spec workflow resources deadline
     | None \<Rightarrow> run_command E config spec resources deadline))))"

section \<open>Cleanup\<close>

definition managed_filter :: "runner_config \<Rightarrow> string list" where
  "managed_filter config =
     [''ai-kodu-runner.managed=true'', ''ai-kodu-runner.runner_id='' @ rc_runner_id config]"

text \<open>A removal whose first error is kept (\<^verbatim>\<open>get_or_insert\<close>).\<close>

definition keep_error :: "(world, unit) op \<Rightarrow> string option \<Rightarrow> (world, string option) op" where
  "keep_error m err = match_op m (\<lambda>_. ret err)
     (\<lambda>e. ret (case err of None \<Rightarrow> Some (error_to_string e) | Some m \<Rightarrow> Some m))"

fun cleanup_containers ::
  "outside \<Rightarrow> string option \<times> bool \<Rightarrow> container_summary list \<Rightarrow> (world, string option \<times> bool) op" where
  "cleanup_containers E (err, active) [] = ret (err, active)"
| "cleanup_containers E (err, active) (container # rest) =
     (if cs_state container = Some ''running'' then cleanup_containers E (err, True) rest
      else and_then (case cs_id container of
             Some i \<Rightarrow> keep_error (remove_container E i) err
           | None \<Rightarrow> ret err) (\<lambda>err.
           cleanup_containers E (err, active) rest))"

fun cleanup_networks ::
  "outside \<Rightarrow> string option \<times> bool \<Rightarrow> network_summary list \<Rightarrow> (world, string option \<times> bool) op" where
  "cleanup_networks E (err, active) [] = ret (err, active)"
| "cleanup_networks E (err, active) (network # rest) =
     (if (case ns_containers network of Some cs \<Rightarrow> cs \<noteq> [] | None \<Rightarrow> False)
      then cleanup_networks E (err, True) rest
      else and_then (case ns_id network of
             Some i \<Rightarrow> keep_error (invoke (o_unit E) (RemoveNetwork i)) err
           | None \<Rightarrow> ret err) (\<lambda>err.
           cleanup_networks E (err, active) rest))"

definition close_unfinished :: "outside \<Rightarrow> (world, unit) op" where
  "close_unfinished E =
     and_then (journal_unfinished E) (\<lambda>keys.
     for_each_op keys (\<lambda>(job, attempt).
       and_then (journal_transition E job attempt Destroying) (\<lambda>_.
       journal_transition E job attempt Destroyed)))"

definition cleanup :: "outside \<Rightarrow> runner_config \<Rightarrow> (world, unit) op" where
  "cleanup E config =
     and_then (invoke (o_containers E) (ListContainers (managed_filter config))) (\<lambda>items.
     and_then (cleanup_containers E (None, False) items) (\<lambda>found.
     and_then (invoke (o_networks E) (ListNetworks (managed_filter config))) (\<lambda>networks.
     and_then (cleanup_networks E found networks) (\<lambda>(cleanup_error, active_resources).
     and_then (journal_open E (journal_path config)) (\<lambda>_.
     case cleanup_error of
       Some e \<Rightarrow> fail (Bail (''cleanup incomplete: '' @ e))
     | None \<Rightarrow> if \<not> active_resources then close_unfinished E else ret ())))))"

end
