(* ===== verification/Docker_Calls.thy ===== *)
theory Docker_Calls
  imports Docker_Run
begin

text \<open>
  Which calls the operations of the executor make, operation by operation: the workspace and
  artifact operations touch files, processes and the clock only, a command in a container adds
  exec and log calls, and only the creation of the network and of the containers creates
  resources. The invariants of whole runs are derived from these lemmas.
\<close>

section \<open>Workspace, artifacts and diagnostics\<close>

fun local_call :: "call \<Rightarrow> bool" where
  "local_call TempDir = True"
| "local_call (RunProcess p) = True"
| "local_call (IsDir p) = True"
| "local_call (ReadText p) = True"
| "local_call (WriteText p t) = True"
| "local_call (CreateDirAll p) = True"
| "local_call (CopyFile p q) = True"
| "local_call (Walk p) = True"
| "local_call IsCancelled = True"
| "local_call Now = True"
| "local_call (HttpGet u) = True"
| "local_call (Unpack p) = True"
| "local_call (Canonicalize p) = True"
| "local_call (Lstat p) = True"
| "local_call (CreateDir p) = True"
| "local_call _ = False"

abbreviation makes_local :: "(world, 'a) op \<Rightarrow> bool" where
  "makes_local m \<equiv> makes local_call m"

lemma ensure_budget_makes [makes_intros]: "makes_local (ensure_budget E d)"
  unfolding ensure_budget_def by (intro makes_intros) simp_all

lemma run_process_makes [makes_intros]: "makes_local (run_process E p)"
  unfolding run_process_def by (intro makes_intros) simp_all

lemma exclude_runner_files_makes [makes_intros]: "makes_local (exclude_runner_files E dir)"
  unfolding exclude_runner_files_def by (intro makes_intros) simp_all

lemma git_makes [makes_intros]:
  "makes_local (run_git_output E dir args operation)"
  "makes_local (run_git_command E dir args operation)"
  "makes_local (git_with_auth E dir token args operation)"
  "makes_local (verify_revision E dir revision expected name)"
  unfolding run_git_command_def run_git_output_def git_with_auth_def verify_revision_def
  by (intro makes_intros)+

lemma copy_entries_makes [makes_intros]: "makes_local (copy_entries E from to l d b f items)"
proof (induction items arbitrary: b f)
  case (Cons item items)
  then show ?case unfolding copy_entries.simps by (intro makes_intros Cons.IH) simp_all
qed (simp add: makes_ret)

lemma unpack_entries_makes [makes_intros]: "makes_local (unpack_entries E to l d x f n items)"
proof (induction items arbitrary: x f n)
  case (Cons item items)
  then show ?case unfolding unpack_entries.simps by (intro makes_intros Cons.IH) simp_all
qed (simp add: makes_ret)

lemma staging_makes [makes_intros]:
  "makes_local (copy_tree E from to l d)"
  "makes_local (download_archive E url to l d)"
  "makes_local (prepare_git E dir g)"
  unfolding copy_tree_def download_archive_def prepare_git_def by ((intro makes_intros; simp)+)

lemma prepare_makes: "makes_local (prepare E spec config d)"
  unfolding prepare_def by (cases spec) ((intro makes_intros; simp add: makes_intros)+)

lemma publish_git_makes: "makes_local (publish_git E spec dir)"
  unfolding publish_git_def by (cases spec) (auto intro!: makes_intros)

lemma export_entries_makes [makes_intros]: "makes_local (export_entries E base ps dest mx mf out used items)"
proof (induction items arbitrary: out used)
  case (Cons item items)
  then show ?case unfolding export_entries.simps by (intro makes_intros Cons.IH) simp_all
qed (simp add: makes_ret)

lemma export_makes: "makes_local (export E base ps dest mx mf)"
  unfolding export_def by (intro makes_intros) simp_all

lemma write_failure_diagnostics_makes: "makes_local (write_failure_diagnostics E dir spec phase out err)"
  unfolding write_failure_diagnostics_def by (intro makes_intros) simp_all

lemma make_parents_makes [makes_intros]: "makes_local (make_parents E base cs)"
proof (induction cs arbitrary: base)
  case (Cons c cs)
  then show ?case unfolding make_parents.simps Let_def
    by (intro makes_bind) (auto intro!: makes_intros Cons.IH split: lstat.splits)
qed (simp add: makes_ret)

lemma safe_feedback_path_makes: "makes_local (safe_feedback_path E base file)"
  unfolding safe_feedback_path_def by (intro makes_intros) simp_all

lemma collect_makes: "makes_local (collect E config spec dir status phase out err)"
  unfolding collect_def
  by (intro makes_intros write_failure_diagnostics_makes export_makes)

section \<open>Commands, images and services\<close>

text \<open>Calls that neither write the journal nor create or remove a container or a network.\<close>

fun inert :: "call \<Rightarrow> bool" where
  "inert (OpenJournal p) = False"
| "inert (Transition j a st) = False"
| "inert (CreateNetwork c) = False"
| "inert (RemoveNetwork n) = False"
| "inert (CreateContainer c) = False"
| "inert (RemoveContainer i) = False"
| "inert _ = True"

lemma local_inert: "local_call c \<Longrightarrow> inert c"
  by (cases c) simp_all

lemma inert_journal: "inert c \<Longrightarrow> \<not> journal_call c"
  by (cases c) simp_all

abbreviation makes_inert :: "(world, 'a) op \<Rightarrow> bool" where
  "makes_inert m \<equiv> makes inert m"

lemmas makes_inert_local = makes_mono [where P = local_call and Q = inert, OF _ local_inert]

lemma set_log_phase_makes [makes_intros]: "makes P (set_log_phase phase)"
  by (simp add: makes_def set_log_phase_def stepped_def)

lemma send_chunk_makes [makes_intros]: "makes is_send (send_chunk E stream attempt phase chunk)"
  by (auto simp: makes_def send_chunk_def stepped_def Let_def split: sent.splits)

lemma emit_log_sends: "makes is_send (emit_log E stream bytes)"
proof -
  have "makes is_send (\<lambda>w. for_each_op (chunks (64 * 1024) bytes) (send_chunk E stream a phase) w)" for a phase
    by (intro makes_intros)
  then show ?thesis
    by (auto simp: makes_def emit_log_def split: option.splits)
qed

lemma emit_log_makes [makes_intros]: "(\<And>c. P (TrySend c)) \<Longrightarrow> makes P (emit_log E stream bytes)"
  by (rule makes_mono [OF emit_log_sends]) (erule is_send.elims; simp)

text \<open>The calls of a command executed in a container.\<close>

fun exec_call :: "string \<Rightarrow> command_spec \<Rightarrow> call \<Rightarrow> bool" where
  "exec_call i cmd (CreateExec j c d) = (j = i \<and> c = cmd)"
| "exec_call i cmd (StartExec x) = True"
| "exec_call i cmd (InspectExec x) = True"
| "exec_call i cmd (TrySend c) = True"
| "exec_call i cmd (StopContainer j) = (j = i)"
| "exec_call i cmd _ = False"

lemma exec_inert: "exec_call i cmd c \<Longrightarrow> inert c"
  by (cases c) simp_all

lemma terminated_makes [makes_intros]: "makes (exec_call i cmd) (terminated E i out err t reason)"
  unfolding terminated_def stop_container_def by (intro makes_intros) simp_all

lemma read_output_makes [makes_intros]:
  "makes (exec_call i cmd) (read_output E limit i x out err t items)"
proof (induction items arbitrary: out err t)
  case Nil
  then show ?case by (simp, intro makes_intros) simp_all
next
  case (Cons item items)
  then show ?case
    by (auto split: selected.splits sum.splits log_output.splits intro!: makes_intros Cons.IH)
qed

lemma exec_command_makes [makes_intros]: "makes (exec_call i cmd) (exec_command E config i cmd d)"
  unfolding exec_command_def
  by (intro makes_intros) (auto intro!: makes_intros split: exec_start.splits)

lemma exec_command_inert: "makes_inert (exec_command E config i cmd d)"
  by (rule makes_mono [OF exec_command_makes exec_inert])

lemma pull_inert: "makes_inert (pull E config img d)"
  unfolding pull_def by (intro makes_intros) simp_all

text \<open>
  The calls of a whole run, with what the options of the containers and of the network it
  creates satisfy; \<open>J\<close> says whether the journal may be called.
\<close>

fun run_call :: "bool \<Rightarrow> (container_config \<Rightarrow> bool) \<Rightarrow> (network_config \<Rightarrow> bool) \<Rightarrow> call \<Rightarrow> bool" where
  "run_call J A B (CreateContainer c) = A c"
| "run_call J A B (CreateNetwork n) = B n"
| "run_call J A B (OpenJournal p) = J"
| "run_call J A B (Transition j a st) = J"
| "run_call J A B (ListContainers f) = False"
| "run_call J A B (ListNetworks f) = False"
| "run_call J A B (SendRequest r) = False"
| "run_call J A B _ = True"

lemma local_run_call: "local_call c \<Longrightarrow> run_call J A B c"
  by (cases c) simp_all

lemma exec_run_call: "exec_call i cmd c \<Longrightarrow> run_call J A B c"
  by (cases c) simp_all

lemmas makes_run_local = makes_mono [where P = local_call and Q = "run_call J A B" for J A B, OF _ local_run_call]

lemma exec_command_run [makes_intros]: "makes (run_call J A B) (exec_command E config i cmd d)"
  by (rule makes_mono [OF exec_command_makes exec_run_call])

lemma pull_run [makes_intros]: "makes (run_call J A B) (pull E config img d)"
  unfolding pull_def by (intro makes_intros) simp_all

lemma removal_run [makes_intros]:
  "makes (run_call J A B) (remove_container E i)"
  "makes (run_call J A B) (remove_containers E ids)"
  "makes (run_call J A B) (remove_network E network)"
  unfolding remove_containers_def remove_container_def remove_network_def by ((intro makes_intros; simp)+)

lemma create_services_run:
  assumes "\<And>uuid service. A (service_config config net job res uuid service)"
  shows "makes (run_call J A B) (create_services E config net job res d ids services)"
proof (induction services arbitrary: ids)
  case (Cons service services)
  then show ?case unfolding create_services.simps by (intro makes_intros Cons.IH) (simp_all add: assms)
qed (simp add: makes_ret)

lemma health_loop_run [makes_intros]: "makes (run_call J A B) (health_loop E config ids name cmd i d limit n)"
proof (induction n)
  case (Suc n)
  then show ?case unfolding health_loop.simps by (intro makes_intros Suc.IH) simp_all
qed (simp add: makes_fail)

lemma await_services_run [makes_intros]: "makes (run_call J A B) (await_services E config ids d services)"
proof (induction services)
  case (Cons s services)
  then show ?case by (cases s) (simp only: await_services.simps, intro makes_intros Cons.IH, simp_all)
qed (simp add: makes_ret)

lemma start_services_run:
  assumes "\<And>uuid service. A (service_config config net job res uuid service)"
  shows "makes (run_call J A B) (start_services E config services net job res d)"
  unfolding start_services_def by (intro makes_intros create_services_run assms)

section \<open>Jobs\<close>

lemma journal_transition_makes [makes_intros]:
  "P (Transition job attempt st) \<Longrightarrow> makes P (journal_transition E job attempt st)"
  by (auto simp: makes_def journal_transition_def stepped_def Let_def dest: transition_outbox transition_keeps_ok split: prod.splits)

lemma journal_open_makes [makes_intros]: "P (OpenJournal path) \<Longrightarrow> makes P (journal_open E path)"
  by (auto simp: makes_def journal_open_def stepped_def Let_def open_journal_def split: sum.splits option.splits)

lemma prepare_job_run [makes_intros]: "makes (run_call True A B) (prepare_job E config spec d)"
  unfolding prepare_job_def by (intro makes_intros makes_run_local [OF prepare_makes]) simp_all

lemma create_job_network_run:
  assumes "\<And>name. js_network_mode spec = ''bridge'' \<Longrightarrow> B \<lparr> nc_name = name, nc_labels = managed_labels config spec \<rparr>"
  shows "makes (run_call J A B) (create_job_network E config spec)"
  unfolding create_job_network_def by (intro makes_intros) (simp_all add: assms)

lemma collect_run [makes_intros]: "makes (run_call J A B) (collect E config spec dir status phase out err)"
  by (rule makes_run_local [OF collect_makes])

lemma destroy_run [makes_intros]: "makes (run_call True A B) (destroy E spec status i ids network)"
  unfolding destroy_def image_of_def by (intro makes_intros) simp_all

lemma with_world: "(\<And>w. makes P (f w)) \<Longrightarrow> makes P (\<lambda>w. f w w)"
  by (simp add: makes_def)

lemma make_result_makes [makes_intros]:
  "P UtcNow \<Longrightarrow> P Now \<Longrightarrow>
     makes P (make_result E spec status code started t out err failure phase files i image_id)"
  unfolding make_result_def
  by (intro makes_bind makes_ask) (assumption | rule with_world, rule makes_ret | simp)+

lemma follow_logs_run: "makes (run_call J A B) (follow_logs E limit i l items)"
proof (induction items arbitrary: l)
  case (Cons item items)
  then show ?case
    by (auto simp: log_item_def Let_def stop_container_def split: selected.splits sum.splits log_output.splits
        intro!: makes_intros Cons.IH)
qed (simp add: makes_ret)

lemma command_steps_run:
  "makes (run_call J A B) (exit_status E i network)"
  "makes (run_call J A B) (decide E d l status)"
  "makes (run_call J A B) (publish_result E spec dir st code err)"
  unfolding exit_status_def decide_def publish_result_def
  by ((intro makes_intros makes_run_local [OF publish_git_makes]; simp)+)

section \<open>Workflows\<close>

lemma phase_exec_run:
  "(\<And>r l. makes (run_call J A B) (k r l)) \<Longrightarrow> makes (run_call J A B) (phase_exec C phase cmd l k)"
  unfolding phase_exec_def by (intro makes_intros)

lemma write_feedback_run [makes_intros]: "makes (run_call J A B) (write_feedback C message)"
  unfolding write_feedback_def by (intro makes_intros) simp_all

lemma run_setup_run [makes_intros]: "makes (run_call J A B) (run_setup C l cmds)"
proof (induction cmds arbitrary: l)
  case (Cons c cmds)
  then show ?case unfolding run_setup.simps setup_expired_def
    by (intro makes_intros phase_exec_run Cons.IH) simp_all
qed (simp add: makes_ret)

lemma run_verifiers_run [makes_intros]: "makes (run_call J A B) (run_verifiers C l vs)"
proof (induction vs arbitrary: l)
  case (Cons v vs)
  then show ?case unfolding run_verifiers.simps by (intro makes_intros phase_exec_run Cons.IH)
qed (simp add: makes_ret)

lemma run_mandatory_run [makes_intros]: "makes (run_call J A B) (run_mandatory C l vs)"
proof (induction vs arbitrary: l)
  case (Cons v vs)
  then show ?case unfolding run_mandatory.simps by (intro makes_intros phase_exec_run Cons.IH)
qed (simp add: makes_ret)

lemma phases_run [makes_intros]:
  "makes (run_call J A B) (run_initialize C workflow l)"
  "makes (run_call J A B) (run_agent C workflow iteration l)"
  "makes (run_call J A B) (run_publish C workflow l)"
  "makes (run_call J A B) (conclude C l)"
  subgoal unfolding run_initialize_def by (intro makes_intros phase_exec_run) simp_all
  subgoal unfolding run_agent_def by (intro makes_intros phase_exec_run)
  subgoal unfolding run_publish_def by (intro makes_intros phase_exec_run)
  subgoal unfolding conclude_def by (intro makes_intros) simp_all
  done

lemma run_checks_run [makes_intros]: "makes (run_call J A B) (run_checks C workflow l)"
  unfolding run_checks_def by (intro makes_intros)

lemma run_iterations_run [makes_intros]: "makes (run_call J A B) (run_iterations C workflow l is)"
proof (induction "is" arbitrary: l)
  case (Cons i "is")
  then show ?case unfolding run_iterations.simps by (intro makes_intros Cons.IH) simp_all
qed (simp add: makes_ret)

lemma run_phases_run [makes_intros]: "makes (run_call J A B) (run_phases C workflow)"
  unfolding run_phases_def by (intro makes_intros)

lemma finish_workflow_run [makes_intros]: "makes (run_call True A B) (finish_workflow C spec dir network ids started l)"
  unfolding finish_workflow_def by (intro makes_intros) simp_all

text \<open>
  The options of the containers of a run that works in the directory \<open>dir\<close> and in a network,
  \<open>f\<close> being what the handler adds to the environment of the job. They are made only when that
  environment exists.
\<close>

definition made_for ::
  "outside \<Rightarrow> runner_config \<Rightarrow> job_spec \<Rightarrow> resources \<Rightarrow> (string list \<Rightarrow> string list) \<Rightarrow> string \<Rightarrow>
   string \<times> string option \<Rightarrow> container_config \<Rightarrow> bool" where
  "made_for E config spec res f dir network c \<longleftrightarrow>
     (\<exists>env. environment_for_job (o_env E) spec config = Inr env \<and>
        ((\<exists>i uuid service. snd network = Some i \<and> c = service_config config i (js_id spec) res uuid service) \<or>
         (\<exists>name cmd wd labels.
            c = job_container config spec res dir network name cmd wd (f env) (managed_labels config spec @ labels))))"

lemma made_for_service:
    "environment_for_job (o_env E) spec config = Inr env \<Longrightarrow> snd network = Some i \<Longrightarrow>
       made_for E config spec res f dir network (service_config config i (js_id spec) res uuid service)"
  and made_for_job:
    "environment_for_job (o_env E) spec config = Inr env \<Longrightarrow>
       made_for E config spec res f dir network
         (job_container config spec res dir network name cmd wd (f env) (managed_labels config spec @ labels))"
  unfolding made_for_def by blast+

abbreviation own_calls ::
  "outside \<Rightarrow> runner_config \<Rightarrow> job_spec \<Rightarrow> resources \<Rightarrow> (string list \<Rightarrow> string list) \<Rightarrow> string \<Rightarrow>
   string \<times> string option \<Rightarrow> call \<Rightarrow> bool" where
  "own_calls E config spec res f dir network \<equiv> run_call True (made_for E config spec res f dir network) (\<lambda>n. False)"

lemma makes_lift_bind: "(\<And>x. r = Inr x \<Longrightarrow> makes P (k x)) \<Longrightarrow> makes P (and_then (lift r) k)"
  by (cases r) (simp_all add: makes_def and_then_def lift_def)

text \<open>Both handlers prepare the job, make its network, and do the rest in it.\<close>

lemma run_workflow_stages:
  obtains k where "run_workflow E config spec workflow res d =
      and_then (prepare_job E config spec d) (\<lambda>p. and_then (create_job_network E config spec) (k p))"
    and "\<And>p network. makes (own_calls E config spec res (\<lambda>env. env) (pw_dir p) network) (k p network)"
proof (rule that [OF run_workflow_def])
  fix p :: prepared_workspace and network :: "string \<times> string option"
  let ?P = "own_calls E config spec res (\<lambda>env. env) (pw_dir p) network"
  have services: "makes ?P (workflow_services E config spec workflow res d (snd network))"
    if "environment_for_job (o_env E) spec config = Inr env" for env
    unfolding workflow_services_def
    by (intro makes_intros start_services_run made_for_service [OF that])
  have container: "makes ?P (start_workflow_container E config spec res (pw_dir p) network env ids)"
    if "environment_for_job (o_env E) spec config = Inr env" for env ids
    unfolding start_workflow_container_def
    by (intro makes_intros) (simp_all add: made_for_job [OF that, where f = "\<lambda>env. env"])
  show "makes ?P
    (and_then (lift (environment_for_job (o_env E) spec config)) (\<lambda>env.
     and_then (workflow_services E config spec workflow res d (snd network)) (\<lambda>service_ids.
     and_then (start_workflow_container E config spec res (pw_dir p) network env service_ids) (\<lambda>container.
     and_then (safe_feedback_path E (pw_dir p) (wf_feedback_file workflow)) (\<lambda>feedback.
     let C = \<lparr> wc_outside = E, wc_config = config, wc_container = container, wc_deadline = d,
               wc_feedback = feedback \<rparr> in
     and_then (write_feedback C (''No verifier feedback yet.'' @ nl)) (\<lambda>_.
     and_then (journal_transition E (js_id spec) (js_attempt spec) Running) (\<lambda>_.
     and_then (ask (o_now E) Now) (\<lambda>started.
     and_then (run_phases C workflow) (\<lambda>l.
     finish_workflow C spec (pw_dir p) (snd network) service_ids started l)))))))))"
    by (rule makes_lift_bind)
      (intro makes_intros services container makes_run_local [OF safe_feedback_path_makes]; simp)
qed

lemma run_command_stages:
  obtains k where "run_command E config spec res d =
      and_then (prepare_job E config spec d) (\<lambda>p. and_then (create_job_network E config spec) (k p))"
    and "\<And>p network. makes (own_calls E config spec res
      (\<lambda>env. headless_opencode_environment env (js_command spec)) (pw_dir p) network) (k p network)"
proof (rule that [OF run_command_def])
  fix p :: prepared_workspace and network :: "string \<times> string option"
  let ?f = "\<lambda>env. headless_opencode_environment env (js_command spec)"
  let ?P = "own_calls E config spec res ?f (pw_dir p) network"
  have start: "makes ?P (start_command_container E config spec res (pw_dir p) network)"
    unfolding start_command_container_def
    by (rule makes_bind makes_lift_bind | (intro makes_intros; simp add: made_for_job [where f = ?f]))+
  have finish: "makes ?P (finish_command E config spec d (pw_dir p) n i started l status)" for n i started l status
    unfolding finish_command_def by (intro makes_intros command_steps_run) simp_all
  show "makes ?P
    (and_then (start_command_container E config spec res (pw_dir p) network) (\<lambda>(container, started).
     and_then (ask (o_logs E) (ContainerLogs container)) (\<lambda>items.
     and_then (follow_logs E (max_log_bytes (rc_limits config)) container empty_run_log items) (\<lambda>l.
     and_then (exit_status E container (snd network)) (\<lambda>status.
     finish_command E config spec d (pw_dir p) (snd network) container started l status)))))"
    by (intro makes_intros start follow_logs_run command_steps_run finish) simp_all
qed

lemma run_call_any: "run_call True A B c \<Longrightarrow> run_call True (\<lambda>_. True) (\<lambda>_. True) c"
  by (cases c) simp_all

lemma any_network: "makes (run_call True (\<lambda>_. True) (\<lambda>_. True)) (create_job_network E config spec)"
  by (rule create_job_network_run) simp

lemmas makes_any = makes_mono [OF _ run_call_any]

lemma run_workflow_run: "makes (run_call True (\<lambda>_. True) (\<lambda>_. True)) (run_workflow E config spec workflow res d)"
  by (rule run_workflow_stages [of E config spec workflow res d])
     (simp only:, rule makes_bind [OF prepare_job_run makes_bind [OF any_network makes_any]], blast)

lemma run_command_run: "makes (run_call True (\<lambda>_. True) (\<lambda>_. True)) (run_command E config spec res d)"
  by (rule run_command_stages [of E config spec res d])
     (simp only:, rule makes_bind [OF prepare_job_run makes_bind [OF any_network makes_any]], blast)

section \<open>Answers within a stretch of the trace\<close>

text \<open>Between the histories \<open>h\<close> and \<open>h'\<close> the call was made and the answer to it was \<open>x\<close>.\<close>

definition responded :: "(history \<Rightarrow> 'a) \<Rightarrow> call \<Rightarrow> 'a \<Rightarrow> history \<Rightarrow> history \<Rightarrow> bool" where
  "responded f c x h h' \<longleftrightarrow> (\<exists>g. prefix h g \<and> prefix (g @ [c]) h' \<and> f (g @ [c]) = x)"

lemma responded_mono: "responded f c x h h' \<Longrightarrow> prefix h0 h \<Longrightarrow> prefix h' h1 \<Longrightarrow> responded f c x h0 h1"
  unfolding responded_def by (metis prefix_order.trans)

lemma responded_invoke: "invoke f c w = (r, w') \<Longrightarrow> responded f c r (trace w) (trace w')"
  unfolding responded_def by (auto simp: invoke_iff intro: exI [of _ "trace w"])

lemma makes_prefix: "makes P m \<Longrightarrow> m w = (r, w') \<Longrightarrow> prefix (trace w) (trace w')"
  by (auto dest!: makesD simp: stepped_def)

text \<open>The directory of a prepared job is the temporary one made for it.\<close>

lemma prepare_job_directory:
  assumes "prepare_job E config spec d w = (Inr p, w')"
  shows "responded (o_temp_dir E) TempDir (Inr (pw_dir p)) (trace w) (trace w')"
proof -
  from assms obtain u1 u2 u3 u4 where steps: "journal_open E (journal_path config) w = (Inr (), u1)"
      "journal_transition E (js_id spec) (js_attempt spec) Received u1 = (Inr (), u2)"
      "journal_transition E (js_id spec) (js_attempt spec) Preparing u2 = (Inr (), u3)"
    and prepare: "prepare E (js_workspace spec) config d u3 = (Inr p, u4)"
    and pull: "pull E config (js_image spec) d u4 = (Inr None, w')"
    unfolding prepare_job_def by (elim and_then_okE) (auto simp: ret_def fail_def split: option.splits)
  from prepare obtain v where dir: "invoke (o_temp_dir E) TempDir u3 = (Inr (pw_dir p), v)" and
    rest: "prefix (trace v) (trace u4)"
  proof -
    from prepare obtain dir v where dir: "op_context ''create job directory'' (invoke (o_temp_dir E) TempDir) u3 = (Inr dir, v)"
      and rest: "and_then (case js_workspace spec of
                 Local path \<Rightarrow> copy_tree E path dir (rc_limits config) d
               | ArchiveUrl url \<Rightarrow> download_archive E url dir (rc_limits config) d
               | Git g \<Rightarrow> prepare_git E dir g) (\<lambda>_.
        and_then (ask (o_is_dir E) (IsDir (path_join dir ''.git''))) (\<lambda>git.
        and_then (if git then exclude_runner_files E dir else ret ()) (\<lambda>_.
        ret \<lparr> pw_dir = dir, pw_container_path = ''/workspace'' \<rparr>))) v = (Inr p, u4)"
      unfolding prepare_def by (rule and_then_okE)
    have "makes_local (case js_workspace spec of
                 Local path \<Rightarrow> copy_tree E path dir (rc_limits config) d
               | ArchiveUrl url \<Rightarrow> download_archive E url dir (rc_limits config) d
               | Git g \<Rightarrow> prepare_git E dir g)" by (cases "js_workspace spec") (simp_all add: staging_makes)
    then have "makes_local (and_then (case js_workspace spec of
                 Local path \<Rightarrow> copy_tree E path dir (rc_limits config) d
               | ArchiveUrl url \<Rightarrow> download_archive E url dir (rc_limits config) d
               | Git g \<Rightarrow> prepare_git E dir g) (\<lambda>_.
        and_then (ask (o_is_dir E) (IsDir (path_join dir ''.git''))) (\<lambda>git.
        and_then (if git then exclude_runner_files E dir else ret ()) (\<lambda>_.
        ret \<lparr> pw_dir = dir, pw_container_path = ''/workspace'' \<rparr>))))" by (intro makes_intros) simp_all
    from makes_prefix [OF this rest] have "prefix (trace v) (trace u4)" .
    moreover from rest have "pw_dir p = dir" by (auto simp: and_then_ok ret_def)
    moreover have "invoke (o_temp_dir E) TempDir u3 = (Inr dir, v)"
      using dir by (auto simp: op_context_def split: prod.splits sum.splits)
    ultimately show thesis using that by blast
  qed
  have j: "makes (run_call True A B) (journal_open E path)" "makes (run_call True A B) (journal_transition E job a st)"
    for A B path job a st by (intro makes_intros; simp)+
  have "prefix (trace w) (trace u3)"
    using makes_prefix [OF j(1) steps(1)] makes_prefix [OF j(2) steps(2)] makes_prefix [OF j(2) steps(3)]
    by (meson prefix_order.trans)
  moreover have "prefix (trace v) (trace w')"
    using prefix_order.trans [OF rest makes_prefix [OF pull_inert pull]] .
  ultimately show ?thesis by (rule responded_mono [OF responded_invoke [OF dir]])
qed

end
