(* ===== verification/Docker_Sample.thy ===== *)
theory Docker_Sample
  imports Docker_Run
begin

text \<open>
  One environment in which everything the executor asks for succeeds, and the runs of a command
  job and of a workflow job in it, evaluated step by step. The witnesses of the properties of
  whole runs rest on these two runs.
\<close>

section \<open>The environment\<close>

definition sample_workflow_job :: job_spec where
  "sample_workflow_job = sample_job\<lparr> js_environment_from_runner := [], js_workspace := Local ''/srv/work/repo'' \<rparr>"

definition sample_command_job :: job_spec where
  "sample_command_job = sample_workflow_job\<lparr> js_workflow := None \<rparr>"

definition sample_docker :: outside where
  "sample_docker = sample_outside
     \<lparr> o_walk := (\<lambda>h p. []), o_is_dir := (\<lambda>h. last h = IsDir ''/srv/work/repo''), o_realpath := sample_fs,
       o_now := (\<lambda>h. 0), o_toml := (\<lambda>t. Inr sample_config),
       o_parse := (\<lambda>t. Inr (JObj [(''api_version'', JStr ''ai-kodu-runner.dev/v1alpha1'')])),
       o_decode_alpha := (\<lambda>v. Inr (sample_command_job\<lparr> js_attempt := 0 \<rparr>)) \<rparr>"

definition sample_world :: world where
  "sample_world = \<lparr> trace = [], w_journal = empty_journal, w_log = fresh_log False \<rparr>"

lemma sample_docker_answers [simp]:
  "o_temp_dir sample_docker h = Inr ''/tmp/job''"
  "o_is_dir sample_docker h = (last h = IsDir ''/srv/work/repo'')"
  "o_walk sample_docker h p = []"
  "o_unit sample_docker h = Inr ()"
  "o_cancelled sample_docker h = False"
  "o_now sample_docker h = 0"
  "o_realpath sample_docker = sample_fs"
  "o_canonicalize sample_docker h = (case last h of Canonicalize p \<Rightarrow> Inr p | _ \<Rightarrow> Inr [])"
  "o_lstat sample_docker h = LstatNotFound"
  "o_text sample_docker h = ''now''"
  "o_faults sample_docker h = no_faults"
  "o_id sample_docker h = Inr ''c1''"
  "o_inspect sample_docker h = Inr \<lparr> ci_exit_code = Some 0, ci_image = None \<rparr>"
  "o_logs sample_docker h = [Ready (Inr (StdOut ''done''))]"
  "o_exec_create sample_docker h = Ready (Inr ''x1'')"
  "o_exec_start sample_docker h = Ready (Inr (Attached [Ready (Inr (StdOut ''ok''))]))"
  "o_exec_status sample_docker h = Inr (Some 0)"
  by (simp_all add: sample_docker_def sample_outside_def)

lemma sample_admitted:
  "validate sample_fs sample_workflow_job sample_config False = Inr (clamp sample_resources sample_config)"
  "validate sample_fs sample_command_job sample_config False = Inr (clamp sample_resources sample_config)"
proof -
  have valid: "valid_job True sample_job" using sample_job_valid by (simp add: validate_job_ok)
  then have job: "valid_job False sample_workflow_job"
    unfolding sample_workflow_job_def by (simp only: valid_job_environment valid_job_mono)
  then have cmd: "valid_job False sample_command_job"
    by (simp add: sample_command_job_def valid_job_def sample_workflow_job_def sample_defs)
  have paths: "prefix (components ''/srv/work'') (components ''/srv/work/repo'')"
    "path_join ''/srv/work'' ''/srv/work/repo'' = ''/srv/work/repo''" by code_simp+
  show "validate sample_fs sample_workflow_job sample_config False = Inr (clamp sample_resources sample_config)"
    "validate sample_fs sample_command_job sample_config False = Inr (clamp sample_resources sample_config)"
    unfolding validate_def validate_with_context_ok admitted_def using job cmd paths
    by (simp_all add: requires_digest_def injected_names_def workspace_admitted_def sample_workflow_job_def
        sample_command_job_def sample_defs sample_config_def default_local_def sample_fs_def)
qed

section \<open>Steps\<close>

lemmas sample_ops = and_then_def ask_def invoke_def op_context_def with_context_def ret_def lift_def ignore_def
  match_op_def Let_def

lemma sample_git_dir: "path_join ''/tmp/job'' ''.git'' = ''/tmp/job/.git''"
  by code_simp

lemma sample_prepared:
  "prepare sample_docker (Local ''/srv/work/repo'') sample_config d w =
   (Inr \<lparr> pw_dir = ''/tmp/job'', pw_container_path = ''/workspace'' \<rparr>,
    with_calls w [TempDir, IsDir ''/srv/work/repo'', Walk ''/srv/work/repo'', IsDir ''/tmp/job/.git''])"
  by (simp add: prepare_def copy_tree_def sample_ops sample_git_dir)

lemma sample_open:
  "journal_open sample_docker path w = (Inr (), with_calls w [OpenJournal path])"
  by (simp add: journal_open_def open_journal_def Let_def)

definition sample_record :: "job_spec \<Rightarrow> state \<Rightarrow> journal \<Rightarrow> journal" where
  "sample_record spec st j = snd (transition no_faults ''now'' (js_id spec) (js_attempt spec) st j)"

lemma sample_transition:
  "journal_transition sample_docker (js_id spec) (js_attempt spec) st w =
   (Inr (), w\<lparr> trace := trace w @ [Transition (js_id spec) (js_attempt spec) st],
              w_journal := sample_record spec st (w_journal w) \<rparr>)"
  by (simp add: journal_transition_def Let_def sample_record_def journal_op_defs)

lemma sample_pull:
  "0 < d \<Longrightarrow>
   pull sample_docker sample_config img d w = (Inr None, with_calls w [IsCancelled, Now])"
  by (simp add: pull_def sample_ops sample_config_def default_local_def)

lemma sample_prepare_job:
  assumes "0 < d" and "js_workspace spec = Local ''/srv/work/repo''"
  shows "prepare_job sample_docker sample_config spec d w =
    (Inr \<lparr> pw_dir = ''/tmp/job'', pw_container_path = ''/workspace'' \<rparr>,
     w\<lparr> trace := trace w @ [OpenJournal (journal_path sample_config), Transition (js_id spec) (js_attempt spec) Received,
          Transition (js_id spec) (js_attempt spec) Preparing, TempDir, IsDir ''/srv/work/repo'',
          Walk ''/srv/work/repo'', IsDir ''/tmp/job/.git'', IsCancelled, Now],
        w_journal := sample_record spec Preparing (sample_record spec Received (w_journal w)) \<rparr>)"
  unfolding prepare_job_def and_then_def
  by (simp add: assms sample_open sample_transition sample_prepared sample_pull ret_def)

text \<open>No log channel is open, so emitting a chunk does nothing.\<close>

lemma sample_emit: "\<not> ls_sender (w_log w) \<Longrightarrow> emit_log sample_docker stream bytes w = (Inr (), w)"
  by (simp add: emit_log_def)

definition sample_exec :: exec_result where
  "sample_exec = \<lparr> ex_status = 0, ex_stdout = ''ok'', ex_stderr = [], ex_truncated = False, ex_termination = None \<rparr>"

lemma sample_limit: "unat (max_log_bytes (rc_limits sample_config)) = 52428800"
  by (simp add: sample_config_def default_local_def)

lemma sample_exec_command:
  "\<not> ls_sender (w_log w) \<Longrightarrow>
   exec_command sample_docker sample_config i cmd d w =
     (Inr sample_exec, with_calls w [CreateExec i cmd d, StartExec ''x1'', InspectExec ''x1''])"
  by (simp add: exec_command_def sample_ops sample_emit append_bounded_def sample_limit sample_exec_def)

section \<open>A command job\<close>

definition sample_result :: "job_spec \<Rightarrow> string \<Rightarrow> job_result" where
  "sample_result spec out =
     \<lparr> jr_job_id = js_id spec, jr_attempt = js_attempt spec, jr_status = ''completed'', jr_exit_code = Some 0,
       jr_started_at = ''now'', jr_finished_at = ''now'', jr_duration_ms = 0, jr_log_truncated = False,
       jr_stdout = from_utf8_lossy out, jr_stderr = from_utf8_lossy [],
       jr_error_summary = error_summary ''completed'' (from_utf8_lossy out) (from_utf8_lossy []),
       jr_failure = None, jr_failed_phase = None, jr_artifacts = [], jr_artifact_dir = None,
       jr_sandbox = \<lparr> sb_executor = ''docker'', sb_container_id = ''c1'', sb_image_id = None \<rparr> \<rparr>"

lemma sample_finish:
  "ls_dropped (w_log w) = 0 \<Longrightarrow>
   make_result sample_docker spec ''completed'' (Some 0) 0 False out [] None None ([], None) ''c1'' None w =
     (Inr (sample_result spec out), with_calls w [UtcNow, UtcNow, Now])"
  by (simp add: make_result_def sample_ops sample_result_def)

lemma sample_collect:
  "js_artifacts spec = [] \<Longrightarrow> collect sample_docker config spec dir ''completed'' phase out err w = (Inr ([], None), w)"
  by (simp add: collect_def sample_ops)

lemma sample_destroy:
  "destroy sample_docker spec ''completed'' ''c1'' [] None w =
    (Inr None, w\<lparr> trace := trace w @ [Transition (js_id spec) (js_attempt spec) Completed,
                    Transition (js_id spec) (js_attempt spec) Destroying, InspectContainer ''c1'', RemoveContainer ''c1'',
                    Transition (js_id spec) (js_attempt spec) Destroyed],
                  w_journal := sample_record spec Destroyed (sample_record spec Destroying
                    (sample_record spec Completed (w_journal w))) \<rparr>)"
proof -
  have "from_str ''completed'' = Completed" by (simp add: from_str_def)
  then show ?thesis
    unfolding destroy_def and_then_def
    by (simp add: sample_transition image_of_def remove_container_def remove_containers_def remove_network_def
        match_op_def ignore_def invoke_def ret_def Let_def)
qed

lemma sample_environment:
  "environment_for_job env sample_workflow_job sample_config = Inr [''MODEL_KEY=hunter2'']"
  "environment_for_job env sample_command_job sample_config = Inr [''MODEL_KEY=hunter2'']"
  by (simp_all add: environment_for_job_def sample_workflow_job_def sample_command_job_def sample_defs sample_config_def bail_if_def)

lemma sample_network:
  "js_network_mode spec = ''none'' \<Longrightarrow>
   create_job_network sample_docker config spec w = (Inr (''ai-kodu-runner-net-now'', None), with_calls w [NewUuid])"
  by (simp add: create_job_network_def sample_ops)

lemma sample_fields [simp]:
  "js_workspace sample_workflow_job = Local ''/srv/work/repo''" "js_workspace sample_command_job = Local ''/srv/work/repo''"
  "js_network_mode sample_workflow_job = ''none''" "js_network_mode sample_command_job = ''none''"
  "js_artifacts sample_workflow_job = []" "js_artifacts sample_command_job = []"
  "js_workflow sample_workflow_job = Some sample_workflow" "js_workflow sample_command_job = None"
  "js_command sample_command_job = [''true'']"
  by (simp_all add: sample_command_job_def sample_workflow_job_def sample_defs)

definition sample_command_options :: container_config where
  "sample_command_options = job_container sample_config sample_command_job (clamp sample_resources sample_config)
     ''/tmp/job'' (''ai-kodu-runner-net-now'', None) ''ai-kodu-runner-job-now''
     [''true''] (Some (js_working_directory sample_command_job)) [''MODEL_KEY=hunter2'']
     (managed_labels sample_config sample_command_job @
        [(''ai-kodu-runner.attempt'', show_nat (unat (js_attempt sample_command_job))), (''ai-kodu-runner.expires_at'', ''now'')])"

lemma sample_command_text:
  "command_with_opencode_retry [''true''] = [''true'']" "headless_opencode_environment env [''true''] = env"
proof -
  have "\<not> contains_str ''true'' ''opencode run ''" by code_simp
  then show "command_with_opencode_retry [''true''] = [''true'']" "headless_opencode_environment env [''true''] = env"
    by (simp_all add: command_with_opencode_retry_def headless_opencode_environment_def)
qed

lemma sample_start:
  "start_command_container sample_docker sample_config sample_command_job (clamp sample_resources sample_config) ''/tmp/job''
     (''ai-kodu-runner-net-now'', None) w =
   (Inr (''c1'', 0), w\<lparr> trace := trace w @ [NewUuid, UtcAfter (timeout_seconds (clamp sample_resources sample_config)),
        CreateContainer sample_command_options,
        Transition (js_id sample_command_job) (js_attempt sample_command_job) Running, Now, StartContainer ''c1''],
      w_journal := sample_record sample_command_job Running (w_journal w) \<rparr>)"
  unfolding start_command_container_def
  by (simp add: sample_ops sample_environment sample_command_text sample_transition sample_command_options_def)

lemma sample_logs:
  "\<not> ls_sender (w_log w) \<Longrightarrow>
   follow_logs sample_docker (max_log_bytes (rc_limits sample_config)) ''c1'' empty_run_log [Ready (Inr (StdOut ''done''))] w =
     (Inr (empty_run_log\<lparr> rl_bytes := 4, rl_stdout := ''done'' \<rparr>), w)"
  by (simp add: log_item_def accepted_def sample_ops sample_emit empty_run_log_def sample_config_def default_local_def)

text \<open>The calls of the whole run, and the state it ends in.\<close>

definition sample_command_trace :: history where
  "sample_command_trace =
     (let tr = Transition (js_id sample_command_job) (js_attempt sample_command_job) in
      [Now, OpenJournal (journal_path sample_config), tr Received, tr Preparing, TempDir, IsDir ''/srv/work/repo'',
       Walk ''/srv/work/repo'', IsDir ''/tmp/job/.git'', IsCancelled, Now, NewUuid, NewUuid,
       UtcAfter (timeout_seconds (clamp sample_resources sample_config)), CreateContainer sample_command_options,
       tr Running, Now, StartContainer ''c1'', ContainerLogs ''c1'', InspectContainer ''c1'', tr Collecting, IsCancelled, Now,
       tr Completed, tr Destroying, InspectContainer ''c1'', RemoveContainer ''c1'', tr Destroyed, UtcNow, UtcNow, Now])"

definition sample_records :: "job_spec \<Rightarrow> journal \<Rightarrow> journal" where
  "sample_records spec j = foldl (\<lambda>j st. sample_record spec st j) j
     [Received, Preparing, Running, Collecting, Completed, Destroying, Destroyed]"

lemma sample_finish_command:
  assumes "ls_dropped (w_log w) = 0" and "0 < d"
  shows "finish_command sample_docker sample_config sample_command_job d ''/tmp/job'' None ''c1'' 0
       (empty_run_log\<lparr> rl_bytes := 4, rl_stdout := ''done'' \<rparr>) 0 w =
     (Inr (sample_result sample_command_job ''done''),
      w\<lparr> trace := trace w @ drop 19 sample_command_trace,
         w_journal := sample_record sample_command_job Destroyed (sample_record sample_command_job Destroying
           (sample_record sample_command_job Completed (sample_record sample_command_job Collecting (w_journal w)))) \<rparr>)"
proof -
  have "decide sample_docker d (empty_run_log\<lparr> rl_bytes := 4, rl_stdout := ''done'' \<rparr>) 0 u =
      (Inr (False, False, ''completed''), with_calls u [IsCancelled, Now])" for u
    using assms(2) by (simp add: decide_def sample_ops empty_run_log_def)
  moreover have "publish_result sample_docker sample_command_job dir ''completed'' 0 [] u = (Inr (''completed'', 0, []), u)" for u dir
    by (simp add: publish_result_def publish_git_def sample_ops)
  ultimately show ?thesis
    unfolding finish_command_def and_then_def
    by (simp add: sample_transition sample_collect sample_destroy sample_finish assms(1) empty_run_log_def failure_of_def
        sample_command_trace_def Let_def)
qed

lemma sample_timeout: "timeout_seconds (clamp sample_resources sample_config) = 60"
  by (simp add: clamp_def sample_resources_def sample_config_def default_local_def)

lemma sample_command_run_any:
  assumes "\<not> ls_sender (w_log w)"
  shows "run sample_docker sample_config sample_command_job w =
     (Inr (sample_result sample_command_job ''done''),
      w\<lparr> trace := trace w @ sample_command_trace, w_journal := sample_records sample_command_job (w_journal w),
         w_log := (w_log w)\<lparr> ls_sequence := 0, ls_dropped := 0,
           ls_context := Some (js_id sample_command_job, js_attempt sample_command_job, ''command'') \<rparr> \<rparr>)"
proof -
  have "exit_status sample_docker ''c1'' None w = (Inr 0, with_calls w [InspectContainer ''c1''])" for w
    by (simp add: exit_status_def sample_ops)
  then show ?thesis
    using assms unfolding run_def run_command_def
    by (simp add: begin_log_stream_def set_log_phase_def sample_ops sample_admitted
        sample_timeout sample_prepare_job sample_network sample_start sample_logs sample_finish_command
        sample_command_trace_def sample_records_def del: follow_logs.simps)
qed

lemma sample_command_run:
  "run sample_docker sample_config sample_command_job sample_world =
     (Inr (sample_result sample_command_job ''done''),
      \<lparr> trace = sample_command_trace, w_journal = sample_records sample_command_job empty_journal,
        w_log = \<lparr> ls_sender = False, ls_sequence = 0, ls_dropped = 0,
                 ls_context = Some (js_id sample_command_job, js_attempt sample_command_job, ''command'') \<rparr> \<rparr>)"
  by (simp add: sample_command_run_any sample_world_def fresh_log_def)

section \<open>A workflow job\<close>

definition sample_context :: wf_context where
  "sample_context = \<lparr> wc_outside = sample_docker, wc_config = sample_config, wc_container = ''c1'', wc_deadline = 60000,
     wc_feedback = ''/tmp/job/.runner/feedback.md'' \<rparr>"

lemma sample_phase:
  "\<not> ls_sender (w_log w) \<Longrightarrow> length (wl_stdout l) < 1000 \<Longrightarrow> length (wl_stderr l) < 1000 \<Longrightarrow>
   phase_exec sample_context phase cmd l k w =
     k sample_exec (l\<lparr> wl_stdout := wl_stdout l @ ''ok'' \<rparr>)
       (w\<lparr> trace := trace w @ [CreateExec ''c1'' cmd 60000, StartExec ''x1'', InspectExec ''x1''],
           w_log := w_log (snd (set_log_phase phase w)) \<rparr>)"
  by (simp add: phase_exec_def sample_context_def sample_exec_command set_log_phase_def and_then_def Let_def
      absorb_def append_bounded_def sample_limit sample_exec_def)

definition sample_locals :: wf_locals where
  "sample_locals = initial_locals\<lparr> wl_final_status := ''completed'', wl_stdout := ''okok'', wl_all_passed := True,
     wl_report := ''Iteration 1 agent exit code: 0'' @ nl @ report_of ''Verifier tests'' sample_exec \<rparr>"

definition sample_check :: command_spec where
  "sample_check = \<lparr> cs_command = [''ci''], cs_working_directory = None \<rparr>"

lemma sample_phases:
  assumes "\<not> ls_sender (w_log w)"
  shows "run_phases sample_context sample_workflow w =
     (Inr sample_locals, w\<lparr> trace := trace w @
        [IsCancelled, IsCancelled, CreateExec ''c1'' (wf_agent sample_workflow) 60000, StartExec ''x1'', InspectExec ''x1'',
         CreateExec ''c1'' sample_check 60000, StartExec ''x1'', InspectExec ''x1'', IsCancelled, Now],
        w_log := w_log (snd (set_log_phase ''verifier'' (snd (set_log_phase ''agent'' w)))) \<rparr>)"
proof -
  have "iterations_of sample_workflow = [1, 2, 3]"
    by (simp add: iterations_of_def sample_workflow_def default_max_iterations_def upt_rec)
  moreover have "show_nat 1 = ''1''" "show_int 0 = ''0''" by code_simp+
  ultimately show ?thesis
    using assms
    by (simp add: run_phases_def run_initialize_def run_agent_def run_checks_def run_publish_def conclude_def
        and_then_def ret_def ask_def Let_def sample_phase set_log_phase_def initial_locals_def verdict_def
        sample_context_def [THEN arg_cong [where f = wc_outside]] sample_context_def [THEN arg_cong [where f = wc_config]]
        sample_context_def [THEN arg_cong [where f = wc_deadline]]
        sample_exec_def [THEN arg_cong [where f = ex_status]] sample_locals_def verifier_command_def sample_check_def
        sample_workflow_def sample_config_def default_local_def)
qed

lemma sample_feedback_docker:
  "safe_feedback_path sample_docker ''/tmp/job'' default_feedback_file w =
     (Inr ''/tmp/job/.runner/feedback.md'', with_calls w
        [Canonicalize ''/tmp/job'', Lstat ''/tmp/job/.runner'', CreateDir ''/tmp/job/.runner'',
         Lstat ''/tmp/job/.runner/feedback.md'', Canonicalize ''/tmp/job/.runner''])"
proof -
  have "path_parent ''.runner/feedback.md'' = Some ''.runner''" "components ''.runner'' = [Normal ''.runner'']"
    "path_join ''/tmp/job'' ''.runner'' = ''/tmp/job/.runner''" "path_parent ''/tmp/job/.runner/feedback.md'' = Some ''/tmp/job/.runner''"
    "path_join ''/tmp/job'' ''.runner/feedback.md'' = ''/tmp/job/.runner/feedback.md''"
    "path_starts_with ''/tmp/job/.runner'' ''/tmp/job''" by code_simp+
  then show ?thesis
    by (simp add: safe_feedback_path_def sample_feedback default_feedback_file_def sample_ops fail_def ok_or_def)
qed

definition sample_workflow_options :: container_config where
  "sample_workflow_options = job_container sample_config sample_workflow_job (clamp sample_resources sample_config)
     ''/tmp/job'' (''ai-kodu-runner-net-now'', None) ''ai-kodu-runner-job-now''
     [''sleep'', ''infinity''] None [''MODEL_KEY=hunter2'']
     (managed_labels sample_config sample_workflow_job @
        [(''ai-kodu-runner.attempt'', show_nat (unat (js_attempt sample_workflow_job)))])"

lemma sample_start_workflow:
  "start_workflow_container sample_docker sample_config sample_workflow_job (clamp sample_resources sample_config) ''/tmp/job''
     (''ai-kodu-runner-net-now'', None) [''MODEL_KEY=hunter2''] [] w =
   (Inr ''c1'', with_calls w [NewUuid, CreateContainer sample_workflow_options, StartContainer ''c1''])"
  by (simp add: start_workflow_container_def sample_ops sample_workflow_options_def)

definition sample_workflow_trace :: history where
  "sample_workflow_trace =
     (let tr = Transition (js_id sample_workflow_job) (js_attempt sample_workflow_job) in
      [Now, OpenJournal (journal_path sample_config), tr Received, tr Preparing, TempDir, IsDir ''/srv/work/repo'',
       Walk ''/srv/work/repo'', IsDir ''/tmp/job/.git'', IsCancelled, Now, NewUuid, NewUuid,
       CreateContainer sample_workflow_options, StartContainer ''c1'',
       Canonicalize ''/tmp/job'', Lstat ''/tmp/job/.runner'', CreateDir ''/tmp/job/.runner'',
       Lstat ''/tmp/job/.runner/feedback.md'', Canonicalize ''/tmp/job/.runner'',
       WriteText ''/tmp/job/.runner/feedback.md'' (''No verifier feedback yet.'' @ nl), tr Running, Now,
       IsCancelled, IsCancelled, CreateExec ''c1'' (wf_agent sample_workflow) 60000, StartExec ''x1'', InspectExec ''x1'',
       CreateExec ''c1'' sample_check 60000, StartExec ''x1'', InspectExec ''x1'', IsCancelled, Now,
       tr Collecting, tr Completed, tr Destroying, InspectContainer ''c1'', RemoveContainer ''c1'', tr Destroyed,
       UtcNow, UtcNow, Now])"

lemma sample_finish_workflow:
  assumes "ls_dropped (w_log w) = 0"
  shows "finish_workflow sample_context sample_workflow_job ''/tmp/job'' None [] 0 sample_locals w =
     (Inr (sample_result sample_workflow_job ''okok''),
      w\<lparr> trace := trace w @ drop 32 sample_workflow_trace,
         w_journal := sample_record sample_workflow_job Destroyed (sample_record sample_workflow_job Destroying
           (sample_record sample_workflow_job Completed (sample_record sample_workflow_job Collecting (w_journal w)))) \<rparr>)"
  unfolding finish_workflow_def and_then_def
  by (simp add: sample_transition sample_collect sample_destroy sample_finish assms workflow_exit_code_def failure_of_def
      sample_locals_def initial_locals_def sample_context_def sample_workflow_trace_def Let_def)

lemma sample_workflow_run:
  "run sample_docker sample_config sample_workflow_job sample_world =
     (Inr (sample_result sample_workflow_job ''okok''),
      \<lparr> trace = sample_workflow_trace, w_journal = sample_records sample_workflow_job empty_journal,
        w_log = \<lparr> ls_sender = False, ls_sequence = 0, ls_dropped = 0,
                 ls_context = Some (js_id sample_workflow_job, js_attempt sample_workflow_job, ''verifier'') \<rparr> \<rparr>)"
proof -
  have ctx: "\<lparr> wc_outside = sample_docker, wc_config = sample_config, wc_container = ''c1'', wc_deadline = 60000,
     wc_feedback = ''/tmp/job/.runner/feedback.md'' \<rparr> = sample_context"
    by (simp add: sample_context_def)
  have feedback: "write_feedback sample_context m w = (Inr (), with_calls w [WriteText ''/tmp/job/.runner/feedback.md'' m])" for m w
    by (simp add: write_feedback_def sample_context_def invoke_def Let_def)
  have wf: "wf_feedback_file sample_workflow = default_feedback_file" "wf_services sample_workflow = []"
    by (simp_all add: sample_workflow_def)
  show ?thesis
    unfolding run_def run_workflow_def workflow_services_def
    by (simp add: begin_log_stream_def set_log_phase_def sample_world_def fresh_log_def sample_ops sample_admitted
        sample_timeout sample_prepare_job sample_network sample_environment wf sample_start_workflow sample_feedback_docker
        ctx feedback sample_transition sample_phases sample_finish_workflow
        sample_workflow_trace_def sample_records_def)
qed

end
