(* ===== verification/Docker_Safety.thy ===== *)
theory Docker_Safety
  imports Docker_Calls Docker_Sample
begin

text \<open>
  What holds of the containers and networks that a run of the Docker executor creates: the
  network and the workspace they are attached to, their limits and privileges, and the
  environment of the job's own container.
\<close>

section \<open>The calls of a whole run\<close>

text \<open>A run after its log stream has been reset; validation has granted the clamped resources.\<close>

lemma run_unfold:
  assumes "run E config spec w = (r, w')"
  obtains e where "validate (o_realpath E) spec config False = Inl e" and "r = Inl e" and "trace w' = trace w"
    and "w_journal w' = w_journal w"
  | res now u where "validate (o_realpath E) spec config False = Inr res"
    and "u = with_calls (snd (set_log_phase (if js_workflow spec \<noteq> None then ''prepare'' else ''command'')
              (snd (begin_log_stream spec w)))) [Now]"
    and "(case js_workflow spec of
            Some workflow \<Rightarrow> run_workflow E config spec workflow res (now + 1000 * unat (timeout_seconds res))
          | None \<Rightarrow> run_command E config spec res (now + 1000 * unat (timeout_seconds res))) u = (r, w')"
  using assms
  by (cases "validate (o_realpath E) spec config False")
     (auto simp: run_def begin_log_stream_def set_log_phase_def and_then_def lift_def ask_def Let_def)

lemma validated_resources: "validate c spec config daemon = Inr res \<Longrightarrow> res = clamp (js_resources spec) config"
  and validated_network:
    "validate c spec config daemon = Inr res \<Longrightarrow> js_network_mode spec = ''bridge'' \<Longrightarrow> allow_network (rc_security config)"
  by (auto simp: validate_def validate_with_context_ok admitted_def)

section \<open>The network of a run\<close>

text \<open>The labels by which cleanup finds what belongs to a runner and a job.\<close>

definition own_labels :: "runner_config \<Rightarrow> job_spec \<Rightarrow> (string \<times> string) list" where
  "own_labels config spec =
     [(''ai-kodu-runner.managed'', ''true''), (''ai-kodu-runner.runner_id'', rc_runner_id config),
      (''ai-kodu-runner.job_id'', js_id spec)]"

lemma managed_own: "managed_labels config spec = own_labels config spec"
  by (simp add: managed_labels_def own_labels_def)

definition job_network_options :: "runner_config \<Rightarrow> job_spec \<Rightarrow> string \<Rightarrow> network_config" where
  "job_network_options config spec name = \<lparr> nc_name = name, nc_labels = own_labels config spec \<rparr>"

text \<open>
  The network of a run between the histories \<open>h\<close> and \<open>h'\<close>, as its name and its id: a job that
  asks for bridge networking gets the one that Docker made under this name, with the labels of
  the job, and under this id; any other job gets none.
\<close>

definition job_network ::
  "outside \<Rightarrow> runner_config \<Rightarrow> job_spec \<Rightarrow> history \<Rightarrow> history \<Rightarrow> string \<times> string option \<Rightarrow> bool" where
  "job_network E config spec h h' network \<longleftrightarrow> (case snd network of
     None \<Rightarrow> js_network_mode spec \<noteq> ''bridge''
   | Some i \<Rightarrow> js_network_mode spec = ''bridge'' \<and>
       responded (o_id E) (CreateNetwork (job_network_options config spec (fst network))) (Inr i) h h')"

lemma job_network_mono:
  "job_network E config spec h m network \<Longrightarrow> prefix h0 h \<Longrightarrow> prefix m h' \<Longrightarrow> job_network E config spec h0 h' network"
  unfolding job_network_def by (auto split: option.splits intro: responded_mono)

lemma job_network_mode: "job_network E config spec h h' network \<Longrightarrow> snd network \<noteq> None \<longleftrightarrow> js_network_mode spec = ''bridge''"
  unfolding job_network_def by (auto split: option.splits)

lemma create_job_network_effect:
  assumes "create_job_network E config spec w = (Inr network, w')"
  shows "job_network E config spec (trace w) (trace w') network"
proof -
  let ?u = "with_calls w [NewUuid]"
  have "if js_network_mode spec = ''bridge'' then \<exists>i. snd network = Some i \<and>
           invoke (o_id E) (CreateNetwork (job_network_options config spec (fst network))) ?u = (Inr i, w')
         else snd network = None"
    using assms unfolding create_job_network_def job_network_options_def managed_own Let_def
    by (auto simp: and_then_ok ask_ok ret_def split: if_splits)
  moreover have "responded (o_id E) c (Inr i) (trace w) (trace w')" if "invoke (o_id E) c ?u = (Inr i, w')" for c i
    by (rule responded_mono [OF responded_invoke [OF that]]) simp_all
  ultimately show ?thesis
    by (auto simp: job_network_def split: if_splits)
qed

lemma calls_of:
  assumes "makes (run_call J A B) m" and "m w = (r, w')"
  shows "\<exists>cs. trace w' = trace w @ cs \<and> (\<forall>c. CreateContainer c \<in> set cs \<longrightarrow> A c) \<and>
    (\<forall>n. CreateNetwork n \<in> set cs \<longrightarrow> B n)"
  using makesD [OF assms] unfolding stepped_def list_all_iff by (metis run_call.simps(1,2))

text \<open>
  The containers and networks of a handler: the networks carry the labels of the job and are
  made for bridge networking only; and if there are containers at all then they work in the
  temporary directory and in the network of this run.
\<close>

lemma stages_create:
  assumes run: "and_then (prepare_job E config spec d) (\<lambda>p. and_then (create_job_network E config spec) (k p)) w = (r, w')"
    and k: "\<And>p network. makes (own_calls E config spec res f (pw_dir p) network) (k p network)"
  shows "\<exists>cs. trace w' = trace w @ cs \<and>
    (\<forall>n. CreateNetwork n \<in> set cs \<longrightarrow>
       js_network_mode spec = ''bridge'' \<and> nc_labels n = own_labels config spec) \<and>
    ((\<exists>c. CreateContainer c \<in> set cs) \<longrightarrow> (\<exists>dir network.
       responded (o_temp_dir E) TempDir (Inr dir) (trace w) (trace w') \<and>
       job_network E config spec (trace w) (trace w') network \<and>
       (\<forall>c. CreateContainer c \<in> set cs \<longrightarrow> made_for E config spec res f dir network c)))"
proof -
  let ?B = "\<lambda>n. js_network_mode spec = ''bridge'' \<and> nc_labels n = own_labels config spec"
  obtain r1 u where prep: "prepare_job E config spec d w = (r1, u)" by (cases "prepare_job E config spec d w")
  from calls_of [OF prepare_job_run [where A = "\<lambda>_. False" and B = "\<lambda>_. False"] prep] obtain cs1 where
    cs1: "trace u = trace w @ cs1" "\<And>c. CreateContainer c \<notin> set cs1" "\<And>n. CreateNetwork n \<notin> set cs1" by auto
  show ?thesis
  proof (cases r1)
    case (Inl e)
    with run prep cs1 show ?thesis by (auto simp: and_then_def)
  next
    case (Inr p)
    obtain r2 v where net: "create_job_network E config spec u = (r2, v)" by (cases "create_job_network E config spec u")
    have "makes (run_call True (\<lambda>_. False) ?B) (create_job_network E config spec)" by (rule create_job_network_run) (simp add: managed_own)
    from calls_of [OF this net] obtain cs2 where cs2: "trace v = trace u @ cs2" "\<And>c. CreateContainer c \<notin> set cs2"
      "\<forall>n. CreateNetwork n \<in> set cs2 \<longrightarrow> ?B n" by auto
    show ?thesis
    proof (cases r2)
      case (Inl e)
      with run prep \<open>r1 = Inr p\<close> net cs1 cs2 show ?thesis by (auto simp: and_then_def)
    next
      case (Inr network)
      with run prep \<open>r1 = Inr p\<close> net have "k p network v = (r, w')" by (simp add: and_then_def)
      from calls_of [OF k this] obtain cs3 where cs3: "trace w' = trace v @ cs3"
        "\<forall>c. CreateContainer c \<in> set cs3 \<longrightarrow> made_for E config spec res f (pw_dir p) network c"
        "\<And>n. CreateNetwork n \<notin> set cs3" by auto
      have "responded (o_temp_dir E) TempDir (Inr (pw_dir p)) (trace w) (trace w')"
        by (rule responded_mono [OF prepare_job_directory [OF prep [unfolded \<open>r1 = Inr p\<close>]]]) (simp_all add: cs2 cs3)
      moreover have "job_network E config spec (trace w) (trace w') network"
        by (rule job_network_mono [OF create_job_network_effect [OF net [unfolded Inr]]]) (simp_all add: cs1 cs3)
      ultimately have "\<exists>dir network. responded (o_temp_dir E) TempDir (Inr dir) (trace w) (trace w') \<and>
          job_network E config spec (trace w) (trace w') network \<and>
          (\<forall>c. CreateContainer c \<in> set cs3 \<longrightarrow> made_for E config spec res f dir network c)"
        using cs3(2) by blast
      moreover have "CreateContainer c \<in> set (cs1 @ cs2 @ cs3) \<longleftrightarrow> CreateContainer c \<in> set cs3"
        "CreateNetwork n \<in> set (cs1 @ cs2 @ cs3) \<longleftrightarrow> CreateNetwork n \<in> set cs2" for c n
        using cs1(2,3) cs2(2) cs3(3) by simp_all
      moreover have "trace w' = trace w @ cs1 @ cs2 @ cs3" using cs1(1) cs2(1) cs3(1) by simp
      ultimately show ?thesis using cs2(3) by (intro exI [of _ "cs1 @ cs2 @ cs3"]) (simp only:, blast)
    qed
  qed
qed

text \<open>What the handler of the job adds to its environment.\<close>

definition handler_environment :: "job_spec \<Rightarrow> string list \<Rightarrow> string list" where
  "handler_environment spec env =
     (if js_workflow spec = None then headless_opencode_environment env (js_command spec) else env)"

lemma run_creates:
  assumes "run E config spec w = (r, w')"
  shows "(\<forall>n. CreateNetwork n \<in> set (new_calls w w') \<longrightarrow>
       js_network_mode spec = ''bridge'' \<and> allow_network (rc_security config) \<and> nc_labels n = own_labels config spec) \<and>
    ((\<exists>c. CreateContainer c \<in> set (new_calls w w')) \<longrightarrow>
       validate (o_realpath E) spec config False = Inr (clamp (js_resources spec) config) \<and>
       (\<exists>dir network. responded (o_temp_dir E) TempDir (Inr dir) (trace w) (trace w') \<and>
          job_network E config spec (trace w) (trace w') network \<and>
          (\<forall>c. CreateContainer c \<in> set (new_calls w w') \<longrightarrow>
             made_for E config spec (clamp (js_resources spec) config) (handler_environment spec) dir network c)))"
  using assms
proof (cases rule: run_unfold)
  case (2 res now u)
  have res: "res = clamp (js_resources spec) config" using 2(1) by (rule validated_resources)
  have u: "trace u = trace w @ [Now]" by (simp add: 2(2) begin_log_stream_def set_log_phase_def)
  let ?d = "now + 1000 * unat (timeout_seconds res)"
  obtain k where "and_then (prepare_job E config spec ?d) (\<lambda>p. and_then (create_job_network E config spec) (k p)) u = (r, w')"
    and "\<And>p network. makes (own_calls E config spec res (handler_environment spec) (pw_dir p) network) (k p network)"
  proof (cases "js_workflow spec")
    case None
    then have f: "handler_environment spec = (\<lambda>env. headless_opencode_environment env (js_command spec))"
      by (simp add: handler_environment_def fun_eq_iff)
    show thesis
      by (rule run_command_stages [of E config spec res ?d]) (use 2(3) None that in \<open>auto simp: f\<close>)
  next
    case (Some workflow)
    then have f: "handler_environment spec = (\<lambda>env. env)" by (simp add: handler_environment_def fun_eq_iff)
    show thesis
      by (rule run_workflow_stages [of E config spec workflow res ?d]) (use 2(3) Some that in \<open>auto simp: f\<close>)
  qed
  from stages_create [OF this] obtain cs where cs: "trace w' = trace u @ cs"
    "\<And>n. CreateNetwork n \<in> set cs \<Longrightarrow> js_network_mode spec = ''bridge'' \<and> nc_labels n = own_labels config spec"
    and made: "(\<exists>c. CreateContainer c \<in> set cs) \<longrightarrow> (\<exists>dir network.
       responded (o_temp_dir E) TempDir (Inr dir) (trace u) (trace w') \<and>
       job_network E config spec (trace u) (trace w') network \<and>
       (\<forall>c. CreateContainer c \<in> set cs \<longrightarrow> made_for E config spec res (handler_environment spec) dir network c))"
    by blast
  have new: "new_calls w w' = Now # cs" by (simp add: cs(1) u)
  have "prefix (trace w) (trace u)" by (simp add: u)
  then have earlier: "responded f c x (trace u) (trace w') \<Longrightarrow> responded f c x (trace w) (trace w')"
      "job_network E config spec (trace u) (trace w') network \<Longrightarrow> job_network E config spec (trace w) (trace w') network"
    for f :: "history \<Rightarrow> string result" and c x network
    by (auto intro: responded_mono job_network_mono)
  have "(\<exists>c. CreateContainer c \<in> set cs) \<longrightarrow>
       (\<exists>dir network. responded (o_temp_dir E) TempDir (Inr dir) (trace w) (trace w') \<and>
          job_network E config spec (trace w) (trace w') network \<and>
          (\<forall>c. CreateContainer c \<in> set cs \<longrightarrow> made_for E config spec res (handler_environment spec) dir network c))"
    using made earlier by blast
  with 2(1) cs(2) validated_network [OF 2(1)] show ?thesis
    unfolding new res by auto
qed simp

section \<open>Confinement\<close>

text \<open>
  A container of a run, with the directory and the network that are the run's own: the job's
  container has the directory and nothing else of the host mounted, no capabilities, and the
  network by its name or none; a service container has nothing mounted and the network by its id.
\<close>

definition confined ::
  "runner_config \<Rightarrow> job_spec \<Rightarrow> string \<Rightarrow> string \<times> string option \<Rightarrow> container_config \<Rightarrow> bool" where
  "confined config spec dir network c \<longleftrightarrow>
     (let granted = clamp (js_resources spec) config in
      set (own_labels config spec) \<subseteq> set (cc_labels c) \<and>
      cc_security_opt c = [''no-new-privileges:true''] \<and>
      cc_pids_limit c = pids granted \<and> cc_memory c = memory_mb granted * 2 ^ 20 \<and>
      cc_nano_cpus c = f64_as_i64 (f64_mul (cpu granted) (Fin (10 ^ 9))) \<and>
      (if cc_binds c = [] then
         cc_network_mode c = None \<and>
         (\<exists>i alias. snd network = Some i \<and> cc_endpoint c = Some (i, [alias]))
       else
         cc_binds c = [dir @ '':/workspace''] \<and> cc_cap_drop c = [''ALL''] \<and>
         cc_readonly_rootfs c = (\<not> js_writable_rootfs spec) \<and> cc_endpoint c = None \<and>
         cc_network_mode c = Some (if js_network_mode spec = ''bridge'' then fst network else ''none'')))"

lemma memory_bytes_small: "0 \<le> mb \<Longrightarrow> mb < 2 ^ 43 \<Longrightarrow> memory_bytes mb = mb * 2 ^ 20"
  by (simp add: memory_bytes_def i64_wrap_id)

lemma made_for_confined:
  assumes "max_memory_mb (rc_limits config) < 2 ^ 43" and "job_network E config spec h h' network"
    and "made_for E config spec (clamp (js_resources spec) config) f dir network c"
  shows "confined config spec dir network c"
proof -
  have "memory_bytes (memory_mb (clamp (js_resources spec) config)) = memory_mb (clamp (js_resources spec) config) * 2 ^ 20"
    using assms(1) by (intro memory_bytes_small) (auto simp: clamp_def)
  with assms(3) job_network_mode [OF assms(2)] show ?thesis
    by (auto simp: made_for_def confined_def service_config_def job_container_def managed_own own_labels_def nano_cpus_def Let_def)
qed

text \<open>What a whole run promises of the containers and networks it creates.\<close>

definition creates_confined :: "outside \<Rightarrow> runner_config \<Rightarrow> job_spec \<Rightarrow> world \<Rightarrow> world \<Rightarrow> bool" where
  "creates_confined E config spec w w' \<longleftrightarrow>
     ((\<exists>c. CreateContainer c \<in> set (new_calls w w')) \<longrightarrow> (\<exists>dir network.
        responded (o_temp_dir E) TempDir (Inr dir) (trace w) (trace w') \<and>
        job_network E config spec (trace w) (trace w') network \<and>
        (\<forall>c. CreateContainer c \<in> set (new_calls w w') \<longrightarrow> confined config spec dir network c))) \<and>
     (\<forall>n. CreateNetwork n \<in> set (new_calls w w') \<longrightarrow>
        js_network_mode spec = ''bridge'' \<and> allow_network (rc_security config) \<and> nc_labels n = own_labels config spec)"

lemma run_confined:
  assumes "run E config spec w = (r, w')" and "max_memory_mb (rc_limits config) < 2 ^ 43"
  shows "creates_confined E config spec w w'"
  unfolding creates_confined_def
  using run_creates [OF assms(1)] made_for_confined [OF assms(2)] by meson

text \<open>
  C5: Every container a run creates, for commands, workflows and services, carries the labels
  of this runner and job, may not gain privileges, and has exactly the processes, memory and
  CPU time that the policy grants. The container of the job has one host directory, the
  temporary one that this run has made, mounted at \<^verbatim>\<open>/workspace\<close>, no capabilities, and a
  read-only root file system unless the job asks for a writable one; service containers have
  nothing mounted. With bridge networking the job's container is on the network that Docker
  made for this run, by its name, and the services are on it by its id; without, the job's
  container has the network mode \<^verbatim>\<open>none\<close> and there are no services. A network is created only
  for a job that asks for one on a runner that allows it. (The memory limit of the
  configuration has to be below \<open>2 ^ 43\<close> megabytes, where the byte count would wrap.)
\<close>

theorem containers_are_confined:
  assumes "run E config spec w = (r, w')" and "max_memory_mb (rc_limits config) < 2 ^ 43"
  shows "((\<exists>c. CreateContainer c \<in> set (new_calls w w')) \<longrightarrow> (\<exists>dir network.
        responded (o_temp_dir E) TempDir (Inr dir) (trace w) (trace w') \<and>
        job_network E config spec (trace w) (trace w') network \<and>
        (\<forall>c. CreateContainer c \<in> set (new_calls w w') \<longrightarrow> confined config spec dir network c))) \<and>
     (\<forall>n. CreateNetwork n \<in> set (new_calls w w') \<longrightarrow>
        js_network_mode spec = ''bridge'' \<and> allow_network (rc_security config) \<and> nc_labels n = own_labels config spec)"
  using run_confined [OF assms] unfolding creates_confined_def .

theorem containers_are_confined_witness:
  "\<exists>network. confined sample_config sample_command_job ''/tmp/job'' network sample_command_options \<and>
     cc_network_mode sample_command_options = Some ''none'' \<and> cc_pids_limit sample_command_options = 64"
proof -
  have limit: "max_memory_mb (rc_limits sample_config) < 2 ^ 43"
    by (simp add: sample_config_def default_local_def)
  have "CreateContainer sample_command_options \<in> set sample_command_trace"
    by (simp add: sample_command_trace_def Let_def)
  with containers_are_confined [OF sample_command_run limit] obtain dir network where
    "responded (o_temp_dir sample_docker) TempDir (Inr dir) [] sample_command_trace"
    and c: "confined sample_config sample_command_job dir network sample_command_options"
    by (auto simp: sample_world_def)
  then have "dir = ''/tmp/job''" by (simp add: responded_def)
  moreover have "cc_binds sample_command_options \<noteq> []" by (simp add: sample_command_options_def job_container_def)
  moreover have "pids (clamp (js_resources sample_command_job) sample_config) = 64"
    by (simp add: clamp_def sample_command_job_def sample_workflow_job_def sample_defs sample_config_def default_local_def)
  ultimately show ?thesis using c unfolding confined_def Let_def by auto
qed

section \<open>The environment of the job\<close>

text \<open>
  C27: The container of an admitted job gets one \<^verbatim>\<open>NAME=value\<close> entry per name the job requests,
  first the variables of the runner's host and then the job's secrets, in order; these names are
  pairwise different and all on the runner's allow list, and if one of the host variables is not
  set then the run creates no container at all. Only a command job whose command has an argument
  with \<^verbatim>\<open>opencode run \<close> in it gets more: the two fixed settings of the agent follow the requested
  entries, whether or not the allow list or the job has their names.
\<close>

theorem container_environment_is_allowed:
  assumes "run E config spec w = (r, w')" and "CreateContainer c \<in> set (new_calls w w')"
  shows "distinct (injected_names spec) \<and> set (injected_names spec) \<subseteq> set (allowed_environment (rc_security config)) \<and>
    (\<forall>name \<in> set (js_environment_from_runner spec). o_env E name \<noteq> None) \<and>
    (cc_binds c \<noteq> [] \<longrightarrow> cc_env c =
       map (\<lambda>name. name @ ''='' @ the (o_env E name)) (js_environment_from_runner spec) @
       map (\<lambda>s. ss_name s @ ''='' @ ss_value s) (js_secrets spec) @
       (if js_workflow spec = None \<and> list_ex (\<lambda>arg. contains_str arg ''opencode run '') (js_command spec)
        then [''OPENCODE_CONFIG_CONTENT={\"agent\":{\"title\":{\"disable\":true}}}'', ''OPENCODE_DISABLE_MODELS_FETCH=true'']
        else []))"
proof -
  let ?g = "clamp (js_resources spec) config"
  from run_creates [OF assms(1)] assms(2) obtain dir network where
    ok: "validate (o_realpath E) spec config False = Inr ?g"
    and "made_for E config spec ?g (handler_environment spec) dir network c" by blast
  then obtain env where env: "environment_for_job (o_env E) spec config = Inr env"
    and c: "cc_binds c \<noteq> [] \<longrightarrow> cc_env c = handler_environment spec env"
    unfolding made_for_def by (auto simp: service_config_def job_container_def)
  note admitted = environment_for_admitted_job [OF ok, of "o_env E"]
  with env have "List.find (\<lambda>k. o_env E k = None) (js_environment_from_runner spec) = None"
    by (auto split: option.splits)
  with admitted env c show ?thesis
    by (auto simp: find_None_iff handler_environment_def headless_opencode_environment_def)
qed

theorem container_environment_is_allowed_witness:
  "cc_env sample_command_options = [''MODEL_KEY=hunter2'']"
proof -
  have "CreateContainer sample_command_options \<in> set (new_calls sample_world
      \<lparr> trace = sample_command_trace, w_journal = sample_records sample_command_job empty_journal,
        w_log = \<lparr> ls_sender = False, ls_sequence = 0, ls_dropped = 0,
                 ls_context = Some (js_id sample_command_job, js_attempt sample_command_job, ''command'') \<rparr> \<rparr>)"
    by (simp add: sample_command_trace_def sample_world_def Let_def)
  moreover have "\<not> contains_str ''true'' ''opencode run ''" by code_simp
  moreover have "cc_binds sample_command_options \<noteq> []" by (simp add: sample_command_options_def job_container_def)
  moreover have "js_environment_from_runner sample_command_job = []"
    "js_secrets sample_command_job = [\<lparr> ss_name = ''MODEL_KEY'', ss_value = ''hunter2'', ss_secret_ref = None \<rparr>]"
    by (simp_all add: sample_command_job_def sample_workflow_job_def sample_defs)
  ultimately show ?thesis
    using container_environment_is_allowed [OF sample_command_run] by auto
qed

end
