(* ===== verification/Docker_Journal.thy ===== *)
theory Docker_Journal
  imports Docker_Safety
begin

text \<open>
  The states a run writes to the journal, in order, and the consistency of its result with
  them; the Docker executor as an instance of the executor contract.
\<close>

section \<open>Events of one job\<close>

text \<open>
  \<open>journals k m R\<close>: \<open>m\<close> only appends events of the attempt \<open>k\<close> to the journal, and \<open>R\<close> holds of
  their states and of the result.
\<close>

definition journals :: "job_key \<Rightarrow> (world, 'a) op \<Rightarrow> (string list \<Rightarrow> 'a result \<Rightarrow> bool) \<Rightarrow> bool" where
  "journals k m R \<longleftrightarrow> (\<forall>w r w'. m w = (r, w') \<longrightarrow>
     (\<exists>es. events (w_journal w') = events (w_journal w) @ es \<and>
       (\<forall>e\<in>set es. (ev_job_id e, ev_attempt e) = k) \<and> R (map ev_state es) r))"

lemma journalsD:
  "journals k m R \<Longrightarrow> m w = (r, w') \<Longrightarrow> \<exists>es. events (w_journal w') = events (w_journal w) @ es \<and>
     (\<forall>e\<in>set es. (ev_job_id e, ev_attempt e) = k) \<and> R (map ev_state es) r"
  unfolding journals_def by blast

abbreviation off_journal :: "(world, 'a) op \<Rightarrow> bool" where
  "off_journal m \<equiv> makes (run_call False (\<lambda>_. True) (\<lambda>_. True)) m"

lemma off_journalD:
  assumes "off_journal m" and "m w = (r, w')"
  shows "w_journal w' = w_journal w"
proof -
  have no: "list_all (run_call False (\<lambda>_. True) (\<lambda>_. True)) cs \<Longrightarrow> \<not> list_ex journal_call cs" for cs
    by (induction cs) (auto elim: journal_call.elims)
  from makesD [OF assms] show ?thesis by (auto simp: stepped_def dest: no)
qed

lemma journals_off:
  assumes "off_journal m" and "\<And>w r w'. m w = (r, w') \<Longrightarrow> R [] r"
  shows "journals k m R"
  unfolding journals_def using off_journalD [OF assms(1)] assms(2) by (metis append_Nil2 empty_iff list.set(1) list.simps(8))

lemma journals_bind:
  assumes m: "journals k m Q" and err: "\<And>ss e. Q ss (Inl e) \<Longrightarrow> R ss (Inl e)"
    and ok: "\<And>ss x. Q ss (Inr x) \<Longrightarrow> journals k (f x) (\<lambda>ss' r. R (ss @ ss') r)"
  shows "journals k (and_then m f) R"
  unfolding journals_def
proof (intro allI impI)
  fix w r w'
  assume run: "and_then m f w = (r, w')"
  obtain r1 u where first: "m w = (r1, u)" by (cases "m w")
  with m obtain es where es: "events (w_journal u) = events (w_journal w) @ es"
      "\<forall>e\<in>set es. (ev_job_id e, ev_attempt e) = k" "Q (map ev_state es) r1"
    unfolding journals_def by blast
  show "\<exists>es. events (w_journal w') = events (w_journal w) @ es \<and>
      (\<forall>e\<in>set es. (ev_job_id e, ev_attempt e) = k) \<and> R (map ev_state es) r"
  proof (cases r1)
    case (Inl e)
    with run first have "r = Inl e" "w' = u" by (auto simp: and_then_def)
    with es err Inl show ?thesis by auto
  next
    case (Inr x)
    with run first have "f x u = (r, w')" by (auto simp: and_then_def)
    with ok [OF es(3) [unfolded Inr]] obtain fs where "events (w_journal w') = events (w_journal u) @ fs"
        "\<forall>e\<in>set fs. (ev_job_id e, ev_attempt e) = k" "R (map ev_state es @ map ev_state fs) r"
      unfolding journals_def by blast
    with es show ?thesis by (intro exI [of _ "es @ fs"]) auto
  qed
qed

lemma transition_events:
  "transition faults now job attempt st j = (r, j') \<Longrightarrow>
     (case r of Inr _ \<Rightarrow> events j' = events j @
         [\<lparr> ev_job_id = job, ev_attempt = attempt, ev_state = as_str st, ev_at = now \<rparr>]
      | Inl _ \<Rightarrow> events j' = events j)"
  by (auto simp: journal_op_defs insert_event_def split: option.splits if_splits)

lemma journals_transition:
  "journals (job, attempt) (journal_transition E job attempt st)
     (\<lambda>ss r. ss = (case r of Inr _ \<Rightarrow> [as_str st] | Inl _ \<Rightarrow> []))"
  unfolding journals_def
proof (intro allI impI)
  fix w r w'
  assume "journal_transition E job attempt st w = (r, w')"
  then have "\<exists>f now. transition f now job attempt st (w_journal w) = (r, w_journal w')"
    by (auto simp: journal_transition_def Let_def split: prod.splits) blast
  then show "\<exists>es. events (w_journal w') = events (w_journal w) @ es \<and>
      (\<forall>e\<in>set es. (ev_job_id e, ev_attempt e) = (job, attempt)) \<and>
      map ev_state es = (case r of Inr _ \<Rightarrow> [as_str st] | Inl _ \<Rightarrow> [])"
    by (cases r) (auto dest!: transition_events)
qed

lemma journals_open: "journals k (journal_open E path) (\<lambda>ss r. ss = [])"
  unfolding journals_def journal_open_def
  by (auto simp: Let_def open_journal_def split: sum.splits option.splits)

section \<open>The lifecycle of a run\<close>

definition lifecycle_log :: "state \<Rightarrow> string list" where
  "lifecycle_log outcome = map as_str [Received, Preparing, Running, Collecting, outcome, Destroying, Destroyed]"

text \<open>What remains to be written, after \<open>pre\<close>, by an operation that finishes the job.\<close>

definition finishes :: "string list \<Rightarrow> string list \<Rightarrow> job_result result \<Rightarrow> bool" where
  "finishes pre ss r = (case r of
     Inr result \<Rightarrow> pre @ ss = lifecycle_log (from_str (jr_status result))
   | Inl _ \<Rightarrow> (\<exists>outcome. is_outcome outcome \<and> prefix (pre @ ss) (lifecycle_log outcome)))"

definition begun :: "string list \<Rightarrow> bool" where
  "begun pre \<longleftrightarrow> (\<exists>outcome. is_outcome outcome \<and> prefix pre (lifecycle_log outcome))"

lemma finishes_append: "finishes pre (ss @ ss') r = finishes (pre @ ss) ss' r"
  by (simp add: finishes_def append_assoc del: append_assoc split: sum.splits) (simp add: append_assoc)

lemma finishes_error: "begun pre \<Longrightarrow> finishes pre [] (Inl e)"
  by (simp add: finishes_def begun_def)

lemma finish_off:
  assumes m: "off_journal m" and pre: "begun pre" and f: "\<And>w x w'. m w = (Inr x, w') \<Longrightarrow> journals k (f x) (finishes pre)"
  shows "journals k (and_then m f) (finishes pre)"
proof (rule journals_bind [where Q = "\<lambda>ss r. ss = [] \<and> (\<exists>w w'. m w = (r, w'))"])
  show "journals k m (\<lambda>ss r. ss = [] \<and> (\<exists>w w'. m w = (r, w')))"
    by (rule journals_off [OF m]) blast
  show "ss = [] \<and> (\<exists>w w'. m w = (Inl e, w')) \<Longrightarrow> finishes pre ss (Inl e)" for ss e
    by (simp add: finishes_error pre)
  show "ss = [] \<and> (\<exists>w w'. m w = (Inr x, w')) \<Longrightarrow> journals k (f x) (\<lambda>ss' r. finishes pre (ss @ ss') r)" for ss x
    by (auto intro: f)
qed

lemma finish_transition:
  assumes pre: "begun pre" and f: "journals (job, attempt) (f ()) (finishes (pre @ [as_str st]))"
  shows "journals (job, attempt) (and_then (journal_transition E job attempt st) f) (finishes pre)"
proof (rule journals_bind [OF journals_transition])
  show "ss = (case Inl e of Inl _ \<Rightarrow> [] | Inr _ \<Rightarrow> [as_str st]) \<Longrightarrow> finishes pre ss (Inl e)" for ss e
    by (simp add: finishes_error pre)
  show "ss = (case Inr x of Inl _ \<Rightarrow> [] | Inr _ \<Rightarrow> [as_str st]) \<Longrightarrow>
      journals (job, attempt) (f x) (\<lambda>ss' r. finishes pre (ss @ ss') r)" for ss and x :: unit
    using f by (simp add: finishes_append [where ss = "[_]", simplified])
qed

lemma begun_prefixes:
  "begun []" "begun [as_str Received]" "begun [as_str Received, as_str Preparing]"
  "begun [as_str Received, as_str Preparing, as_str Running]"
  "begun [as_str Received, as_str Preparing, as_str Running, as_str Collecting]"
  "is_outcome st \<Longrightarrow> begun [as_str Received, as_str Preparing, as_str Running, as_str Collecting, as_str st]"
  "is_outcome st \<Longrightarrow> begun [as_str Received, as_str Preparing, as_str Running, as_str Collecting, as_str st, as_str Destroying]"
  "is_outcome st \<Longrightarrow> begun (lifecycle_log st)"
  unfolding begun_def lifecycle_log_def by (auto intro: exI [of _ Completed] simp: is_outcome_def)

section \<open>What an operation returns\<close>

definition yields :: "('a \<Rightarrow> bool) \<Rightarrow> (world, 'a) op \<Rightarrow> bool" where
  "yields Q m \<longleftrightarrow> (\<forall>w x w'. m w = (Inr x, w') \<longrightarrow> Q x)"

named_theorems yields_intros \<open>rules for the values an operation returns\<close>

lemma yieldsD: "yields Q m \<Longrightarrow> m w = (Inr x, w') \<Longrightarrow> Q x"
  unfolding yields_def by blast

lemma yields_mono: "yields Q m \<Longrightarrow> (\<And>x. Q x \<Longrightarrow> R x) \<Longrightarrow> yields R m"
  unfolding yields_def by blast

lemma yields_ret [yields_intros]: "Q x \<Longrightarrow> yields Q (ret x)"
  and yields_fail [yields_intros]: "yields Q (fail e)"
  by (simp_all add: yields_def op_defs)

lemma yields_bind: "yields R m \<Longrightarrow> (\<And>x. R x \<Longrightarrow> yields Q (k x)) \<Longrightarrow> yields Q (and_then m k)"
  unfolding yields_def and_then_ok by blast

lemma yields_any: "(\<And>x. yields Q (k x)) \<Longrightarrow> yields Q (and_then m k)"
  unfolding yields_def and_then_ok by blast

lemmas yields_ask [yields_intros] = yields_any [where m = "ask f c" for f c]
  and yields_ignore [yields_intros] = yields_any [where m = "ignore m" for m]
  and yields_feedback [yields_intros] = yields_any [where m = "write_feedback C t" for C t]

lemma yields_if [yields_intros]: "(b \<Longrightarrow> yields Q m) \<Longrightarrow> (\<not> b \<Longrightarrow> yields Q n) \<Longrightarrow> yields Q (if b then m else n)"
  by simp

lemma yields_option [yields_intros]:
  "(x = None \<Longrightarrow> yields Q m) \<Longrightarrow> (\<And>y. x = Some y \<Longrightarrow> yields Q (k y)) \<Longrightarrow> yields Q (case x of None \<Rightarrow> m | Some y \<Rightarrow> k y)"
  by (cases x) simp_all

lemma yields_match [yields_intros]:
  "(\<And>x. yields Q (k x)) \<Longrightarrow> (\<And>e. yields Q (h e)) \<Longrightarrow> yields Q (match_op m k h)"
  by (auto simp: yields_def match_op_def split: prod.splits sum.splits)

section \<open>The status of a workflow\<close>

abbreviation status_in :: "string list \<Rightarrow> wf_locals \<Rightarrow> bool" where
  "status_in names l \<equiv> wl_final_status l \<in> set names"

lemma locals_status [simp]:
  "wl_final_status (absorb limit result l) = wl_final_status l"
  "wl_final_status (stopped reason phase l) = wl_final_status l"
  "wl_final_status (verdict who required result l) = wl_final_status l"
  by (simp_all add: absorb_def stopped_def verdict_def Let_def split: prod.splits)

lemma phase_exec_status:
  "status_in ns l \<Longrightarrow> (\<And>r l. status_in ns l \<Longrightarrow> yields (status_in ns) (k r l)) \<Longrightarrow>
     yields (status_in ns) (phase_exec C phase cmd l k)"
  unfolding phase_exec_def Let_def by (intro yields_any yields_intros) simp_all

lemma run_setup_status: "status_in ns l \<Longrightarrow> yields (status_in ns) (run_setup C l cmds)"
proof (induction cmds arbitrary: l)
  case (Cons c cmds)
  have "yields (status_in ns) (phase_exec C ''setup'' c l (\<lambda>result l. ret
          (if ex_status result \<noteq> 0 then l\<lparr> wl_setup_ok := False, wl_failed_phase := Some ''setup'' \<rparr> else l)))"
    by (rule phase_exec_status) (simp_all add: Cons.prems yields_ret)
  then show ?case
    unfolding run_setup.simps
    by (intro yields_any [where m = "setup_expired C"] yields_option yields_ret)
       (use Cons in \<open>auto elim!: yields_bind intro!: yields_intros\<close>)
qed (simp add: yields_ret)

lemma run_verifiers_status: "status_in ns l \<Longrightarrow> yields (status_in ns) (run_verifiers C l vs)"
proof (induction vs arbitrary: l)
  case (Cons v vs)
  then show ?case
    unfolding run_verifiers.simps
    by (intro yields_bind [OF phase_exec_status] yields_intros) simp_all
qed (simp add: yields_ret)

lemma run_mandatory_status: "status_in ns l \<Longrightarrow> yields (status_in ns) (run_mandatory C l vs)"
proof (induction vs arbitrary: l)
  case (Cons v vs)
  then show ?case
    unfolding run_mandatory.simps
    by (intro yields_if yields_ret yields_bind [OF phase_exec_status]) simp_all
qed (simp add: yields_ret)

lemma phases_status:
  assumes "status_in ns l"
  shows "yields (status_in ns) (run_initialize C workflow l)"
    and "yields (status_in ns) (run_agent C workflow iteration l)"
    and "yields (status_in ns) (run_publish C workflow l)"
  using assms unfolding run_initialize_def run_agent_def run_publish_def
  by (intro yields_intros phase_exec_status; simp)+

lemma run_checks_status: "status_in ns l \<Longrightarrow> yields (status_in ns) (run_checks C workflow l)"
  unfolding run_checks_def
  by (intro yields_bind [OF run_verifiers_status] yields_bind [OF run_mandatory_status] phases_status)

lemma run_iterations_status:
  "status_in [''completed'', ''failed''] l \<Longrightarrow> yields (status_in [''completed'', ''failed'']) (run_iterations C workflow l is)"
proof (induction "is" arbitrary: l)
  case (Cons i "is")
  show ?case
    unfolding run_iterations.simps
    by (intro yields_intros yields_bind [OF phases_status(2) [where ns = "[''completed'', ''failed'']"]]
          yields_bind [OF run_checks_status [where ns = "[''completed'', ''failed'']"]] Cons)
       (use Cons.prems in simp_all)
qed (simp add: yields_ret)

lemma conclude_status:
  assumes "status_in [''completed'', ''failed''] l"
  shows "yields (status_in outcome_names) (conclude C l)"
proof -
  have "termination_status reason \<in> set outcome_names" for reason
    by (cases reason) (simp_all add: outcome_names_def)
  then show ?thesis
    unfolding conclude_def
    by (intro yields_bind [where R = "\<lambda>x. wl_final_status x = wl_final_status l"] yields_intros)
       (use assms in \<open>auto simp: outcome_names_def\<close>)
qed

lemma run_phases_status: "yields (status_in outcome_names) (run_phases C workflow)"
  unfolding run_phases_def
  by (intro yields_bind [OF run_setup_status [where ns = "[''failed'']"]] yields_any [where m = "if _ then _ else _"]
      yields_bind [OF phases_status(1) [where ns = "[''failed'']"]] yields_bind [OF run_iterations_status] conclude_status)
     (simp_all add: initial_locals_def)

section \<open>Results\<close>

text \<open>
  The result of a Docker run, \<open>code\<close> and \<open>message\<close> being those of a job that failed of itself:
  the status decides the failure that is reported, and a phase is named exactly with a failure.
\<close>

definition docker_result :: "string \<Rightarrow> string \<Rightarrow> job_spec \<Rightarrow> job_result \<Rightarrow> bool" where
  "docker_result code message spec r \<longleftrightarrow> consistent_result spec r \<and>
     (jr_status r = ''cancelled'' \<longrightarrow> jr_failure r =
        Some \<lparr> fi_kind = Cancellation, fi_code = ''cancelled'', fi_message = ''execution cancelled'' \<rparr>) \<and>
     (jr_status r = ''timed_out'' \<longrightarrow> jr_failure r =
        Some \<lparr> fi_kind = Timeout, fi_code = ''timeout'', fi_message = ''execution timed out'' \<rparr>) \<and>
     (jr_status r = ''failed'' \<longrightarrow> jr_failure r =
        Some \<lparr> fi_kind = Execution, fi_code = code, fi_message = message \<rparr>) \<and>
     (jr_failed_phase r = None \<longleftrightarrow> jr_status r = ''completed'')"

lemma make_result_yields:
  assumes "status \<in> set outcome_names" and "phase = None \<longleftrightarrow> status = ''completed''"
    and "code = None \<longleftrightarrow> status \<in> {''cancelled'', ''timed_out''}" and "status = ''completed'' \<longleftrightarrow> code = Some 0"
  shows "yields (\<lambda>r. docker_result c m spec r \<and> jr_status r = status)
    (make_result E spec status code started t out err (failure_of c m status) phase files i image_id)"
  using assms unfolding make_result_def
  by (intro yields_ask) (auto simp: yields_def ret_def docker_result_def consistent_result_def failure_of_def)

lemma finish_workflow_yields:
  assumes "status_in outcome_names l"
  shows "yields (\<lambda>r. docker_result ''workflow_failed'' ''workflow failed'' spec r \<and> jr_status r = wl_final_status l)
    (finish_workflow C spec dir network ids started l)"
proof -
  have "yields (\<lambda>r. docker_result c m spec r \<and> jr_status r = wl_final_status l)
     (make_result E spec (wl_final_status l) (workflow_exit_code (wl_final_status l)) started t out err
       (failure_of c m (wl_final_status l)) (if wl_final_status l \<noteq> ''completed'' then Some p else None) files i image_id)"
    for E t out err c m p files i image_id
    by (rule make_result_yields) (use assms in \<open>auto simp: workflow_exit_code_def outcome_names_def\<close>)
  then show ?thesis
    unfolding finish_workflow_def Let_def by (intro yields_any)
qed

lemma decide_yields:
  "yields (\<lambda>(cancelled, timed_out, status').
      status' \<in> set outcome_names \<and> (cancelled \<or> timed_out \<longleftrightarrow> status' \<in> {''cancelled'', ''timed_out''}) \<and>
      (status' = ''completed'' \<longrightarrow> status = 0) \<and> (status' = ''failed'' \<longrightarrow> status \<noteq> 0))
    (decide E d l status)"
  unfolding decide_def
  by (intro yields_any yields_ret) (auto simp: outcome_names_def)

lemma publish_result_yields:
  assumes "status \<in> set outcome_names" and "status = ''completed'' \<Longrightarrow> code = 0" and "status = ''failed'' \<Longrightarrow> code \<noteq> 0"
  shows "yields (\<lambda>(status', code', err').
      status' \<in> set outcome_names \<and> (status' \<in> {''cancelled'', ''timed_out''} \<longleftrightarrow> status \<in> {''cancelled'', ''timed_out''}) \<and>
      (status' = ''completed'' \<longrightarrow> code' = 0) \<and> (status' = ''failed'' \<longrightarrow> code' \<noteq> 0))
    (publish_result E spec dir status code err)"
  unfolding publish_result_def
  by (intro yields_intros) (use assms in \<open>auto simp: outcome_names_def\<close>)

section \<open>The states a run writes\<close>

lemma bind_assoc: "and_then (and_then m f) g = and_then m (\<lambda>x. and_then (f x) g)"
  and bind_ret: "and_then (ret y) h = h y"
  and bind_fail: "and_then (fail e) k = fail e"
  by (auto simp: fun_eq_iff and_then_def ret_def fail_def split: prod.splits sum.splits)

lemma bind_match: "and_then (match_op m k h) f = match_op m (\<lambda>x. and_then (k x) f) (\<lambda>e. and_then (h e) f)"
  by (auto simp: fun_eq_iff and_then_def match_op_def split: prod.splits sum.splits)

lemmas bind_normal = bind_assoc bind_ret bind_fail bind_match

lemma finish_fail: "begun pre \<Longrightarrow> journals k (fail e) (finishes pre)"
  by (rule journals_off) (auto simp: makes_fail fail_def finishes_error)

lemma finish_match:
  assumes "off_journal m" and "\<And>x. journals k (f x) (finishes pre)" and "\<And>e. journals k (h e) (finishes pre)"
  shows "journals k (match_op m f h) (finishes pre)"
  unfolding journals_def
proof (intro allI impI)
  fix w r w'
  assume run: "match_op m f h w = (r, w')"
  obtain r1 u where m: "m w = (r1, u)" by (cases "m w")
  with run assms(2,3) off_journalD [OF assms(1) m]
  show "\<exists>es. events (w_journal w') = events (w_journal w) @ es \<and>
      (\<forall>e\<in>set es. (ev_job_id e, ev_attempt e) = k) \<and> finishes pre (map ev_state es) r"
    unfolding journals_def by (cases r1) (fastforce simp: match_op_def)+
qed

lemma finish_last:
  assumes "off_journal m" and "yields (\<lambda>r. jr_status r = status) m" and "is_outcome (from_str status)"
  shows "journals k m (finishes (lifecycle_log (from_str status)))"
proof (rule journals_off [OF assms(1)])
  fix w r w'
  assume "m w = (r, w')"
  with assms(2,3) show "finishes (lifecycle_log (from_str status)) [] r"
    using begun_prefixes(8) [OF assms(3)]
    by (cases r) (auto simp: finishes_error, auto simp: finishes_def dest: yieldsD)
qed

lemma finish_destroy:
  assumes status: "is_outcome (from_str status)"
    and k: "\<And>x. off_journal (k x)" "\<And>x. yields (\<lambda>r. jr_status r = status) (k x)"
  shows "journals (js_id spec, js_attempt spec) (and_then (destroy E spec status i ids network) k)
     (finishes [as_str Received, as_str Preparing, as_str Running, as_str Collecting])"
proof -
  have image: "off_journal (image_of E i)"
    unfolding image_of_def by (intro makes_intros) simp_all
  have last: "journals (js_id spec, js_attempt spec) (k x)
    (finishes [as_str Received, as_str Preparing, as_str Running, as_str Collecting, as_str (from_str status),
       as_str Destroying, as_str Destroyed])" for x
    using finish_last [OF k status] by (simp only: lifecycle_log_def list.map)
  show ?thesis
    unfolding destroy_def bind_normal
    by (intro finish_transition finish_off [OF image] finish_off [OF removal_run(2)] finish_off [OF removal_run(3)]
          finish_off [OF makes_ignore [OF removal_run(1)]])
       (simp_all only: append.simps begun_prefixes status last simp_thms)
qed

lemma outcome_from_str: "status \<in> set outcome_names \<Longrightarrow> is_outcome (from_str status)"
  by (auto simp: outcome_names_def from_str_def is_outcome_def)

lemma finish_workflow_journals:
  assumes "status_in outcome_names l"
  shows "journals (js_id spec, js_attempt spec) (finish_workflow C spec dir network ids started l)
     (finishes [as_str Received, as_str Preparing, as_str Running])"
proof -
  have "yields (\<lambda>r. jr_status r = wl_final_status l) (make_result E spec (wl_final_status l) code st t out err f phase files i x)"
    for E code st t out err f phase files i x
    unfolding make_result_def by (intro yields_ask) (simp add: yields_def ret_def)
  then show ?thesis
    unfolding finish_workflow_def Let_def
    by (intro finish_transition finish_off [OF collect_run] begun_prefixes, simp_all only: append.simps begun_prefixes)
       (intro finish_destroy outcome_from_str assms make_result_makes; simp)
qed

lemma finish_prepare:
  assumes "\<And>prepared. journals (js_id spec, js_attempt spec) (f prepared) (finishes [as_str Received, as_str Preparing])"
  shows "journals (js_id spec, js_attempt spec) (and_then (prepare_job E config spec d) f) (finishes [])"
proof -
  let ?J = "journals (js_id spec, js_attempt spec)"
  have rest: "?J (and_then (journal_transition E (js_id spec) (js_attempt spec) Received) (\<lambda>_.
      and_then (journal_transition E (js_id spec) (js_attempt spec) Preparing) (\<lambda>_.
      and_then (prepare E (js_workspace spec) config d) (\<lambda>prepared.
      and_then (pull E config (js_image spec) d) (\<lambda>t.
      and_then (case t of Some reason \<Rightarrow> fail (termination_error reason) | None \<Rightarrow> ret prepared) f))))) (finishes [])"
    by (intro finish_transition finish_off [OF makes_run_local [OF prepare_makes]] finish_off [OF pull_run])
       (auto simp only: append.simps begun_prefixes bind_normal assms finish_fail split: option.splits)
  show ?thesis
    unfolding prepare_job_def bind_normal
    by (rule journals_bind [OF journals_open]) (use rest in \<open>simp_all add: finishes_error begun_prefixes\<close>)
qed

lemma run_workflow_journals:
  "journals (js_id spec, js_attempt spec) (run_workflow E config spec workflow res d) (finishes [])"
proof -
  let ?J = "journals (js_id spec, js_attempt spec)"
  have phases: "?J (and_then (run_phases C workflow) (finish_workflow C spec dir network ids started))
      (finishes [as_str Received, as_str Preparing, as_str Running])" for C dir network ids started
    by (intro finish_off [OF run_phases_run] finish_workflow_journals begun_prefixes)
       (erule yieldsD [OF run_phases_status])
  have network: "off_journal (create_job_network E config spec)"
    by (rule create_job_network_run) simp
  have services: "off_journal (workflow_services E config spec workflow res d n)" for n
    unfolding workflow_services_def by (intro makes_intros start_services_run) simp_all
  have container: "off_journal (start_workflow_container E config spec res dir n env ids)" for dir n env ids
    unfolding start_workflow_container_def by (intro makes_intros) simp_all
  show ?thesis
    unfolding run_workflow_def Let_def
    by (intro finish_prepare finish_off [OF network] finish_off [OF services] finish_off [OF container]
        finish_off [OF makes_lift] finish_off [OF makes_run_local [OF safe_feedback_path_makes]]
        finish_off [OF write_feedback_run] finish_transition finish_off [OF makes_ask])
       (simp_all only: append.simps begun_prefixes phases run_call.simps is_send.simps not_False_eq_True)
qed

lemma finish_command_journals:
  "journals (js_id spec, js_attempt spec) (finish_command E config spec d dir network i started l status)
     (finishes [as_str Received, as_str Preparing, as_str Running])"
proof -
  let ?J = "journals (js_id spec, js_attempt spec)"
  have result: "yields (\<lambda>r. jr_status r = st) (make_result E spec st code s t out err f phase files i x)"
    for st code s t out err f phase files x
    unfolding make_result_def by (intro yields_ask) (simp add: yields_def ret_def)
  have tail: "?J (and_then (collect E config spec dir st phase out err) (\<lambda>files.
       and_then (destroy E spec st i [] network) (\<lambda>image_id.
       make_result E spec st code started t out err f p files i image_id)))
       (finishes [as_str Received, as_str Preparing, as_str Running, as_str Collecting])"
    if "st \<in> set outcome_names" for st phase out err code t f p
    by (intro finish_off [OF collect_run] finish_destroy outcome_from_str that begun_prefixes result make_result_makes) simp_all
  show ?thesis
    unfolding finish_command_def
  proof (rule finish_transition, rule begun_prefixes, unfold append.simps, rule finish_off [OF command_steps_run(2)], rule begun_prefixes)
    fix w verdict w'
    assume "decide E d l status w = (Inr verdict, w')"
    from yieldsD [OF decide_yields this] obtain cancelled timed_out st
      where verdict: "verdict = (cancelled, timed_out, st)" "st \<in> set outcome_names"
        "st = ''completed'' \<longrightarrow> status = 0" "st = ''failed'' \<longrightarrow> status \<noteq> 0"
      by (cases verdict) auto
    have published: "fst x \<in> set outcome_names"
      if "publish_result E spec dir st status (rl_stderr l) v = (Inr x, v')" for x v v'
      using yieldsD [OF publish_result_yields that] verdict(2-4) by (cases x) auto
    show "?J (case verdict of (cancelled, timed_out, final_status) \<Rightarrow>
        and_then (publish_result E spec dir final_status status (rl_stderr l)) (\<lambda>(final_status, final_exit_code, stderr).
        and_then (collect E config spec dir final_status (Some ''command'') (rl_stdout l) stderr) (\<lambda>files.
        and_then (destroy E spec final_status i [] network) (\<lambda>image_id.
        make_result E spec final_status
          (if \<not> cancelled \<and> \<not> timed_out then Some final_exit_code else None) started (rl_truncated l)
          (rl_stdout l) stderr (failure_of ''command_failed'' ''Docker command failed'' final_status)
          (if final_status \<noteq> ''completed'' then Some ''command'' else None) files i image_id))))
       (finishes [as_str Received, as_str Preparing, as_str Running, as_str Collecting])"
      unfolding verdict(1) split_beta fst_conv snd_conv
      by (rule finish_off [OF command_steps_run(3)], rule begun_prefixes, rule tail, erule published)
  qed
qed

lemma run_command_journals:
  "journals (js_id spec, js_attempt spec) (run_command E config spec res d) (finishes [])"
proof -
  let ?J = "journals (js_id spec, js_attempt spec)"
  have network: "off_journal (create_job_network E config spec)"
    by (rule create_job_network_run) simp
  have rest: "?J (and_then (follow_logs E limit i l items) (\<lambda>l.
     and_then (exit_status E i n) (finish_command E config spec d dir n i started l)))
     (finishes [as_str Received, as_str Preparing, as_str Running])" for i limit l n dir started items
    by (intro finish_off [OF follow_logs_run] finish_off [OF command_steps_run(1)] finish_command_journals begun_prefixes)
  show ?thesis
    unfolding run_command_def start_command_container_def bind_normal prod.case
    by (intro finish_prepare finish_off [OF network] finish_off [OF makes_ask] finish_off [OF makes_lift] finish_match
        finish_off [OF makes_ignore [OF removal_run(1)]] finish_off [OF removal_run(3)] finish_fail finish_transition makes_invoke)
       (simp_all only: append.simps begun_prefixes rest run_call.simps is_send.simps not_False_eq_True)
qed

lemma run_journals: "journals (js_id spec, js_attempt spec) (run E config spec) (finishes [])"
  unfolding journals_def
proof (intro allI impI)
  fix w r w'
  assume "run E config spec w = (r, w')"
  then show "\<exists>es. events (w_journal w') = events (w_journal w) @ es \<and>
      (\<forall>e\<in>set es. (ev_job_id e, ev_attempt e) = (js_id spec, js_attempt spec)) \<and> finishes [] (map ev_state es) r"
  proof (cases rule: run_unfold)
    case (1 e)
    then show ?thesis by (simp add: finishes_error begun_prefixes)
  next
    case (2 res now u)
    have "w_journal u = w_journal w" by (simp add: 2(2) begin_log_stream_def set_log_phase_def)
    with 2(3) journalsD [OF run_workflow_journals] journalsD [OF run_command_journals] show ?thesis
      by (cases "js_workflow spec") (simp, metis)+
  qed
qed

section \<open>Docker is an executor\<close>

lemma run_workflow_yields:
  "yields (docker_result ''workflow_failed'' ''workflow failed'' spec) (run_workflow E config spec workflow res d)"
proof -
  have step: "yields (docker_result ''workflow_failed'' ''workflow failed'' spec) (and_then (run_phases C workflow) (finish_workflow C spec dir n ids started))"
    for C dir n ids started
    by (rule yields_bind [OF run_phases_status])
       (auto simp: yields_def dest: yieldsD [OF finish_workflow_yields])
  show ?thesis
    unfolding run_workflow_def Let_def by (rule step yields_any)+
qed

lemma finish_command_yields:
  "yields (docker_result ''command_failed'' ''Docker command failed'' spec) (finish_command E config spec d dir network i started l status)"
proof -
  have tail: "yields (docker_result c m spec)
      (and_then (publish_result E spec dir st status (rl_stderr l)) (\<lambda>(st', code, err).
       and_then (collect E config spec dir st' phase out err) (\<lambda>files.
       and_then (destroy E spec st' i [] network) (\<lambda>image_id.
       make_result E spec st' (if \<not> cancelled \<and> \<not> timed_out then Some code else None) started t out err
         (failure_of c m st') (if st' \<noteq> ''completed'' then Some p else None) files i image_id))))"
    if "st \<in> set outcome_names" "cancelled \<or> timed_out \<longleftrightarrow> st \<in> {''cancelled'', ''timed_out''}"
      "st = ''completed'' \<longrightarrow> status = 0" "st = ''failed'' \<longrightarrow> status \<noteq> 0"
    for st cancelled timed_out phase out t c m p
  proof (rule yields_bind [OF publish_result_yields])
    fix x :: "string \<times> int \<times> string"
    assume x: "case x of (st', code, err) \<Rightarrow>
      st' \<in> set outcome_names \<and> (st' \<in> {''cancelled'', ''timed_out''} \<longleftrightarrow> st \<in> {''cancelled'', ''timed_out''}) \<and>
      (st' = ''completed'' \<longrightarrow> code = 0) \<and> (st' = ''failed'' \<longrightarrow> code \<noteq> 0)"
    then obtain st' code err where x': "x = (st', code, err)" by (cases x)
    from x that(2) have st': "st' \<in> set outcome_names" "st' = ''completed'' \<Longrightarrow> code = 0" "st' = ''failed'' \<Longrightarrow> code \<noteq> 0"
      and stop: "cancelled \<or> timed_out \<longleftrightarrow> st' \<in> {''cancelled'', ''timed_out''}"
      unfolding x' prod.case by blast+
    have none: "(if \<not> cancelled \<and> \<not> timed_out then Some code else None) = None \<longleftrightarrow> st' \<in> {''cancelled'', ''timed_out''}"
      unfolding stop [symmetric] by simp
    from st'(1) have "st' = ''completed'' \<or> st' = ''failed'' \<or> st' = ''cancelled'' \<or> st' = ''timed_out''"
      by (simp add: outcome_names_def)
    then have zero: "st' = ''completed'' \<longleftrightarrow> (if \<not> cancelled \<and> \<not> timed_out then Some code else None) = Some 0"
      by (elim disjE) (use st'(2,3) stop in \<open>simp_all, blast+\<close>)
    have "yields (docker_result c m spec)
       (make_result E spec st' (if \<not> cancelled \<and> \<not> timed_out then Some code else None) started t out err
         (failure_of c m st') (if st' \<noteq> ''completed'' then Some p else None) files i image_id)" for files image_id
      by (rule yields_mono [OF make_result_yields [OF st'(1) _ none zero]]) simp_all
    then show "yields (docker_result c m spec) (case x of (st', code, err) \<Rightarrow>
       and_then (collect E config spec dir st' phase out err) (\<lambda>files.
       and_then (destroy E spec st' i [] network) (\<lambda>image_id.
       make_result E spec st' (if \<not> cancelled \<and> \<not> timed_out then Some code else None) started t out err
         (failure_of c m st') (if st' \<noteq> ''completed'' then Some p else None) files i image_id)))"
      unfolding x' prod.case by (intro yields_any)
  qed (use that in simp_all)
  show ?thesis
    unfolding finish_command_def
    apply (rule yields_any, rule yields_bind [OF decide_yields])
    subgoal for _ x by (cases x) (simp only: prod.case, elim conjE, rule tail; assumption)
    done
qed

lemma run_command_yields:
  "yields (docker_result ''command_failed'' ''Docker command failed'' spec) (run_command E config spec res d)"
  unfolding run_command_def split_beta by (intro yields_any finish_command_yields)

text \<open>The code and the message of a job that failed of itself.\<close>

definition own_failure :: "job_spec \<Rightarrow> string \<times> string" where
  "own_failure spec = (if js_workflow spec = None then (''command_failed'', ''Docker command failed'')
     else (''workflow_failed'', ''workflow failed''))"

lemma run_result:
  "run E config spec w = (Inr r, w') \<Longrightarrow> docker_result (fst (own_failure spec)) (snd (own_failure spec)) spec r"
  by (erule run_unfold)
    (auto simp: own_failure_def dest: yieldsD [OF run_workflow_yields] yieldsD [OF run_command_yields] split: option.splits)

lemma run_consistent: "run E config spec w = (Inr r, w') \<Longrightarrow> consistent_result spec r"
  using run_result by (simp add: docker_result_def)

interpretation docker: executor_contract "\<lambda>spec cancellable. run E config spec" for E config
  by unfold_locales (rule run_consistent)

lemma run_facts:
  assumes "run E config spec w = (Inr r, w')"
  shows "jr_job_id r = js_id spec \<and> jr_attempt r = js_attempt spec \<and>
    jr_status r \<in> {''completed'', ''failed'', ''cancelled'', ''timed_out''} \<and>
    is_outcome (from_str (jr_status r)) \<and> as_str (from_str (jr_status r)) = jr_status r \<and>
    (jr_exit_code r = None \<longleftrightarrow> jr_status r \<in> {''cancelled'', ''timed_out''}) \<and>
    (jr_exit_code r = Some 0 \<longleftrightarrow> jr_status r = ''completed'') \<and>
    map_option fi_kind (jr_failure r) =
      (if jr_status r = ''completed'' then None else if jr_status r = ''cancelled'' then Some Cancellation
       else if jr_status r = ''timed_out'' then Some Timeout else Some Execution) \<and>
    map_option fi_code (jr_failure r) =
      (if jr_status r = ''completed'' then None else if jr_status r = ''cancelled'' then Some ''cancelled''
       else if jr_status r = ''timed_out'' then Some ''timeout''
       else Some (if js_workflow spec = None then ''command_failed'' else ''workflow_failed'')) \<and>
    (jr_failed_phase r = None \<longleftrightarrow> jr_status r = ''completed'')"
proof -
  from docker.consistent [OF assms] have status: "jr_status r \<in> {''completed'', ''failed'', ''cancelled'', ''timed_out''}"
    by (auto simp: consistent_result_def outcome_names_def)
  from docker.consistent [OF assms] have "jr_failure r = None \<longleftrightarrow> jr_status r = ''completed''"
    by (simp add: consistent_result_def)
  moreover from status run_result [OF assms] have
    "map_option fi_kind (jr_failure r) =
      (if jr_failure r = None then None else if jr_status r = ''cancelled'' then Some Cancellation
       else if jr_status r = ''timed_out'' then Some Timeout else Some Execution)"
    "map_option fi_code (jr_failure r) =
      (if jr_failure r = None then None else if jr_status r = ''cancelled'' then Some ''cancelled''
       else if jr_status r = ''timed_out'' then Some ''timeout''
       else Some (if js_workflow spec = None then ''command_failed'' else ''workflow_failed''))"
    "jr_failed_phase r = None \<longleftrightarrow> jr_status r = ''completed''"
    by (auto simp: docker_result_def consistent_result_def own_failure_def)
  ultimately show ?thesis
    using status docker.consistent [OF assms] docker.status_is_outcome [OF assms]
    by (simp add: consistent_result_def)
qed

text \<open>
  C16: The result of a Docker run names the job and the attempt it was asked to run; its status
  is one of completed, failed, cancelled and timed out, and the state of that name is the
  outcome the journal records; there is no exit code exactly for a cancelled or timed-out job,
  and the exit code is zero exactly for a completed one. A completed job reports no failure and
  no phase, a cancelled one a cancellation, one that timed out a timeout, and one that failed an
  execution failure with the code of a command or of a workflow; each of these names a phase.
\<close>

theorem docker_results_are_consistent:
  assumes "run E config spec w = (Inr r, w')"
  shows "jr_job_id r = js_id spec \<and> jr_attempt r = js_attempt spec \<and>
    jr_status r \<in> {''completed'', ''failed'', ''cancelled'', ''timed_out''} \<and>
    is_outcome (from_str (jr_status r)) \<and> as_str (from_str (jr_status r)) = jr_status r \<and>
    (jr_exit_code r = None \<longleftrightarrow> jr_status r \<in> {''cancelled'', ''timed_out''}) \<and>
    (jr_exit_code r = Some 0 \<longleftrightarrow> jr_status r = ''completed'') \<and>
    map_option fi_kind (jr_failure r) =
      (if jr_status r = ''completed'' then None else if jr_status r = ''cancelled'' then Some Cancellation
       else if jr_status r = ''timed_out'' then Some Timeout else Some Execution) \<and>
    map_option fi_code (jr_failure r) =
      (if jr_status r = ''completed'' then None else if jr_status r = ''cancelled'' then Some ''cancelled''
       else if jr_status r = ''timed_out'' then Some ''timeout''
       else Some (if js_workflow spec = None then ''command_failed'' else ''workflow_failed'')) \<and>
    (jr_failed_phase r = None \<longleftrightarrow> jr_status r = ''completed'')"
  using assms by (rule run_facts)

theorem docker_results_are_consistent_witness:
  "jr_exit_code (sample_result sample_command_job ''done'') = Some 0 \<and>
   jr_status (sample_result sample_command_job ''done'') = ''completed''"
  using docker_results_are_consistent [OF sample_command_run] by (simp add: sample_result_def)

lemma run_lifecycle:
  assumes "run E config spec w = (r, w')"
  shows "\<exists>es. events (w_journal w') = events (w_journal w) @ es \<and>
    (\<forall>e\<in>set es. ev_job_id e = js_id spec \<and> ev_attempt e = js_attempt spec) \<and>
    (case r of
       Inr result \<Rightarrow> map ev_state es = [''received'', ''preparing'', ''running'', ''collecting'', jr_status result, ''destroying'', ''destroyed'']
     | Inl _ \<Rightarrow> \<exists>outcome\<in>{''completed'', ''failed'', ''cancelled'', ''timed_out''}.
         prefix (map ev_state es) [''received'', ''preparing'', ''running'', ''collecting'', outcome, ''destroying'', ''destroyed''])"
proof -
  from journalsD [OF run_journals assms] obtain es where
    es: "events (w_journal w') = events (w_journal w) @ es"
      "\<forall>e\<in>set es. (ev_job_id e, ev_attempt e) = (js_id spec, js_attempt spec)" "finishes [] (map ev_state es) r"
    by blast
  show ?thesis
  proof (cases r)
    case (Inl e)
    with es(3) obtain outcome where "is_outcome outcome" "prefix (map ev_state es) (lifecycle_log outcome)"
      by (auto simp: finishes_def)
    with es Inl show ?thesis by (intro exI [of _ es]) (auto simp: is_outcome_def lifecycle_log_def)
  next
    case (Inr result)
    from assms Inr have "jr_status result \<in> set outcome_names"
      using docker.consistent by (simp add: consistent_result_def)
    with es Inr show ?thesis
      by (intro exI [of _ es]) (auto simp: finishes_def lifecycle_log_def outcome_names_def from_str_def)
  qed
qed

text \<open>
  C9: A run appends to the journal only events of its own attempt. When it returns a result
  their states are exactly received, preparing, running, collecting, the status of the result,
  destroying, destroyed, in this order; when it fails they are an initial part of such a list,
  so no state is skipped, repeated or written after a failure.
\<close>

theorem run_writes_the_lifecycle:
  assumes "run E config spec w = (r, w')"
  shows "\<exists>es. events (w_journal w') = events (w_journal w) @ es \<and>
    (\<forall>e\<in>set es. ev_job_id e = js_id spec \<and> ev_attempt e = js_attempt spec) \<and>
    (case r of
       Inr result \<Rightarrow> map ev_state es = [''received'', ''preparing'', ''running'', ''collecting'', jr_status result, ''destroying'', ''destroyed'']
     | Inl _ \<Rightarrow> \<exists>outcome\<in>{''completed'', ''failed'', ''cancelled'', ''timed_out''}.
         prefix (map ev_state es) [''received'', ''preparing'', ''running'', ''collecting'', outcome, ''destroying'', ''destroyed''])"
  using assms by (rule run_lifecycle)

theorem run_writes_the_lifecycle_witness:
  "map ev_state (events (sample_records sample_workflow_job empty_journal)) =
     [''received'', ''preparing'', ''running'', ''collecting'', ''completed'', ''destroying'', ''destroyed'']"
  using run_writes_the_lifecycle [OF sample_workflow_run]
  by (auto simp: sample_world_def sample_result_def empty_journal_def)

end
