(* ===== verification/Docker_Resources.thy ===== *)
theory Docker_Resources
  imports Docker_Journal
begin

text \<open>
  Containers and networks as resources: which of them are live after a history, and that a run
  that returns a result has asked Docker to remove everything it created.
\<close>

section \<open>Live resources\<close>

datatype resource = ContainerOf string | NetworkOf string

text \<open>The effect of one call, the last of the history \<open>h\<close>, on the live resources.\<close>

fun after_call :: "outside \<Rightarrow> history \<Rightarrow> call \<Rightarrow> resource set \<Rightarrow> resource set" where
  "after_call E h (CreateContainer c) L = (case o_id E h of Inr i \<Rightarrow> insert (ContainerOf i) L | Inl _ \<Rightarrow> L)"
| "after_call E h (CreateNetwork n) L = (case o_id E h of Inr i \<Rightarrow> insert (NetworkOf i) L | Inl _ \<Rightarrow> L)"
| "after_call E h (RemoveContainer i) L = L - {ContainerOf i}"
| "after_call E h (RemoveNetwork i) L = L - {NetworkOf i}"
| "after_call E h _ L = L"

fun live_after :: "outside \<Rightarrow> history \<Rightarrow> call list \<Rightarrow> resource set \<Rightarrow> resource set" where
  "live_after E h [] L = L"
| "live_after E h (c # cs) L = live_after E (h @ [c]) cs (after_call E (h @ [c]) c L)"

definition live :: "outside \<Rightarrow> history \<Rightarrow> resource set" where
  "live E h = live_after E [] h {}"

lemma live_after_append: "live_after E h (as @ bs) L = live_after E (h @ as) bs (live_after E h as L)"
  by (induction "as" arbitrary: h L) simp_all

lemma live_append: "live E (h @ cs) = live_after E h cs (live E h)"
  by (simp add: live_def live_after_append)

lemma live_snoc: "live E (h @ [c]) = after_call E (h @ [c]) c (live E h)"
  by (simp add: live_append)

abbreviation not_creating :: "call \<Rightarrow> bool" where
  "not_creating \<equiv> run_call True (\<lambda>_. False) (\<lambda>_. False)"

lemma after_call_shrinks: "not_creating c \<Longrightarrow> after_call E h c L \<subseteq> L"
  by (cases c) auto

lemma live_after_shrinks: "list_all not_creating cs \<Longrightarrow> live_after E h cs L \<subseteq> L"
proof (induction cs arbitrary: h L)
  case (Cons c cs)
  then show ?case using after_call_shrinks [of c E "h @ [c]" L] by (auto dest: subset_trans)
qed simp

section \<open>Triples\<close>

text \<open>
  \<open>ensures E L m G\<close>: started with at most \<open>L\<close> live, an \<open>m\<close> that succeeds with \<open>x\<close> leaves at most
  \<open>G x\<close> live.
\<close>

definition ensures :: "outside \<Rightarrow> resource set \<Rightarrow> (world, 'a) op \<Rightarrow> ('a \<Rightarrow> resource set) \<Rightarrow> bool" where
  "ensures E L m G \<longleftrightarrow> (\<forall>w x w'. live E (trace w) \<subseteq> L \<longrightarrow> m w = (Inr x, w') \<longrightarrow> live E (trace w') \<subseteq> G x)"

lemma ensuresD:
  "ensures E L m G \<Longrightarrow> live E (trace w) \<subseteq> L \<Longrightarrow> m w = (Inr x, w') \<Longrightarrow> live E (trace w') \<subseteq> G x"
  unfolding ensures_def by blast

lemma ensures_bind:
  "ensures E L m K \<Longrightarrow> (\<And>x. ensures E (K x) (k x) G) \<Longrightarrow> ensures E L (and_then m k) G"
  unfolding ensures_def and_then_ok by blast

lemma ensures_makes: "makes not_creating m \<Longrightarrow> ensures E L m (\<lambda>_. L)"
  unfolding ensures_def
proof (intro allI impI)
  fix w x w'
  assume "makes not_creating m" and L: "live E (trace w) \<subseteq> L" and "m w = (Inr x, w')"
  then obtain cs where "trace w' = trace w @ cs" "list_all not_creating cs"
    by (auto dest!: makesD simp: stepped_def)
  with L show "live E (trace w') \<subseteq> L"
    using live_after_shrinks [of cs E "trace w" "live E (trace w)"] by (simp add: live_append)
qed

lemma ensures_keep:
  "makes not_creating m \<Longrightarrow> (\<And>x. ensures E L (k x) G) \<Longrightarrow> ensures E L (and_then m k) G"
  by (rule ensures_bind [OF ensures_makes])

lemma ensures_ret: "L \<subseteq> G x \<Longrightarrow> ensures E L (ret x) G"
  by (auto simp: ensures_def ret_def)

lemma ensures_fail: "ensures E L (fail e) G"
  by (simp add: ensures_def fail_def)

lemma ensures_fails: "ensures E L (and_then m (\<lambda>_. fail e)) G"
  by (simp add: ensures_def and_then_ok fail_def)

lemma ensures_match_makes:
  "makes not_creating m \<Longrightarrow> (\<And>x. ensures E L (k x) G) \<Longrightarrow> (\<And>e. ensures E L (h e) G) \<Longrightarrow> ensures E L (match_op m k h) G"
  unfolding ensures_def
proof (intro allI impI)
  fix w x w'
  assume m: "makes not_creating m" and L: "live E (trace w) \<subseteq> L" and run: "match_op m k h w = (Inr x, w')"
    and k: "\<And>x. \<forall>w y w'. live E (trace w) \<subseteq> L \<longrightarrow> k x w = (Inr y, w') \<longrightarrow> live E (trace w') \<subseteq> G y"
    and h: "\<And>e. \<forall>w y w'. live E (trace w) \<subseteq> L \<longrightarrow> h e w = (Inr y, w') \<longrightarrow> live E (trace w') \<subseteq> G y"
  obtain r u where first: "m w = (r, u)" by (cases "m w")
  with m obtain cs where "trace u = trace w @ cs" "list_all not_creating cs"
    by (auto dest!: makesD simp: stepped_def)
  with L have "live E (trace u) \<subseteq> L"
    using live_after_shrinks [of cs E "trace w" "live E (trace w)"] by (simp add: live_append)
  with run first k h show "live E (trace w') \<subseteq> G x" by (cases r) (auto simp: match_op_def)
qed

lemma ensures_or_fail:
  "ensures E L m G \<Longrightarrow> ensures E L (match_op m ret (\<lambda>e. and_then f (\<lambda>_. fail e))) G"
  by (auto simp: ensures_def match_op_def and_then_ok ret_def fail_def split: prod.splits sum.splits)

section \<open>Creation and removal\<close>

lemma ensures_create_container:
  assumes "\<And>i. ensures E (insert (ContainerOf i) L) (k i) G" and "\<And>e. ensures E L (h e) G"
  shows "ensures E L (match_op (invoke (o_id E) (CreateContainer c)) k h) G"
  unfolding ensures_def
proof (intro allI impI)
  fix w :: world and x w'
  let ?u = "with_calls w [CreateContainer c]"
  assume L: "live E (trace w) \<subseteq> L" and run: "match_op (invoke (o_id E) (CreateContainer c)) k h w = (Inr x, w')"
  show "live E (trace w') \<subseteq> G x"
  proof (cases "o_id E (trace w @ [CreateContainer c])")
    case (Inl e)
    with run have "h e ?u = (Inr x, w')" by (simp add: match_op_def invoke_def Let_def)
    moreover have "live E (trace ?u) \<subseteq> L" using L Inl by (simp add: live_snoc)
    ultimately show ?thesis using assms(2) unfolding ensures_def by blast
  next
    case (Inr i)
    with run have "k i ?u = (Inr x, w')" by (simp add: match_op_def invoke_def Let_def)
    moreover have "live E (trace ?u) \<subseteq> insert (ContainerOf i) L" using L Inr by (auto simp: live_snoc)
    ultimately show ?thesis using assms(1) unfolding ensures_def by blast
  qed
qed

definition network_resources :: "string option \<Rightarrow> resource set" where
  "network_resources network = NetworkOf ` set_option network"

lemma create_job_network_ensures:
  "ensures E L (create_job_network E config spec) (\<lambda>network. L \<union> network_resources (snd network))"
  unfolding ensures_def create_job_network_def
  by (auto simp: and_then_ok ask_ok invoke_iff ret_def Let_def live_append network_resources_def
      split: if_splits sum.splits)

lemma ensures_remove:
  "ensures E L (ignore (remove_container E i)) (\<lambda>_. L - {ContainerOf i})"
  "ensures E L (remove_network E network) (\<lambda>_. L - network_resources network)"
  by (auto simp: ensures_def ignore_def remove_container_def remove_network_def invoke_def ret_def Let_def live_snoc
      network_resources_def split: option.splits)

lemma remove_containers_ensures: "ensures E L (remove_containers E ids) (\<lambda>_. L - ContainerOf ` set ids)"
  unfolding remove_containers_def
proof (induction ids arbitrary: L)
  case (Cons i ids)
  have all: "L - ContainerOf ` set (i # ids) = (L - {ContainerOf i}) - ContainerOf ` set ids" by auto
  show ?case
    unfolding all for_each_op.simps by (rule ensures_bind [OF ensures_remove(1) Cons.IH])
qed (simp add: ensures_ret)

section \<open>Services\<close>

lemma create_services_ensures:
  "ensures E (L \<union> ContainerOf ` set ids) (create_services E config net job res d ids services)
     (\<lambda>ids'. L \<union> ContainerOf ` set ids')"
proof (induction services arbitrary: ids)
  case (Cons service services)
  have next_one: "ensures E (insert (ContainerOf i) (L \<union> ContainerOf ` set ids))
      (create_services E config net job res d (ids @ [i]) services) (\<lambda>ids'. L \<union> ContainerOf ` set ids')" for i
    using Cons.IH [of "ids @ [i]"] by simp
  have pulled: "makes not_creating (and_then (pull E config (sv_image service) d) (\<lambda>termination.
      case termination of None \<Rightarrow> ret () | Some reason \<Rightarrow> fail (termination_error reason)))"
    by (intro makes_intros)
  have failed: "ensures E K (and_then (ignore (remove_container E i)) (\<lambda>_. and_then (remove_containers E ids) (\<lambda>_. fail e))) G"
    for K i e and G :: "string list \<Rightarrow> resource set"
    by (simp add: ensures_def and_then_ok fail_def)
  show ?case
    unfolding create_services.simps
    by (auto intro!: ensures_fail ensures_fails failed next_one ensures_match_makes [OF pulled] ensures_keep
        ensures_create_container ensures_match_makes [OF makes_invoke] makes_intros)
qed (simp add: ensures_ret)

lemma start_services_ensures:
  "ensures E L (start_services E config services net job res d) (\<lambda>ids. L \<union> ContainerOf ` set ids)"
  unfolding start_services_def
  using create_services_ensures [of E L "[]"]
  by (auto intro!: ensures_bind [where K = "\<lambda>ids. L \<union> ContainerOf ` set ids"] ensures_keep [OF await_services_run] ensures_ret)

lemma workflow_services_ensures:
  "ensures E L (workflow_services E config spec workflow res d network) (\<lambda>ids. L \<union> ContainerOf ` set ids)"
proof (cases network)
  case None
  then show ?thesis
    by (auto simp: workflow_services_def ensures_ret intro: ensures_fails)
next
  case (Some n)
  then show ?thesis
    by (simp add: workflow_services_def ensures_or_fail start_services_ensures)
qed

section \<open>Whole runs\<close>

lemma destroy_ensures:
  assumes "K \<subseteq> insert (ContainerOf i) (L \<union> ContainerOf ` set ids \<union> network_resources network)"
  shows "ensures E K (destroy E spec status i ids network) (\<lambda>_. L)"
proof -
  have image: "makes not_creating (image_of E i)" unfolding image_of_def by (intro makes_intros) simp_all
  have "ensures E K (destroy E spec status i ids network)
      (\<lambda>_. K - {ContainerOf i} - ContainerOf ` set ids - network_resources network)"
    unfolding destroy_def
    by (intro ensures_keep [OF journal_transition_makes] ensures_keep [OF image] ensures_bind [OF ensures_remove(1)]
        ensures_bind [OF remove_containers_ensures] ensures_bind [OF ensures_remove(2)] ensures_ret) simp_all
  with assms show ?thesis unfolding ensures_def by (blast dest: subsetD)
qed

lemma make_result_ensures:
  "ensures E L (make_result E spec st code s t out err f phase files i x) (\<lambda>_. L)"
  by (rule ensures_makes) (rule make_result_makes; simp)

lemma start_workflow_ensures:
  "ensures E L (start_workflow_container E config spec res dir network env ids) (\<lambda>i. insert (ContainerOf i) L)"
  unfolding start_workflow_container_def
  by (intro ensures_keep [OF makes_ask] ensures_create_container ensures_match_makes [OF makes_invoke] ensures_ret)
     (auto simp: ensures_def and_then_ok fail_def)

lemma start_command_ensures:
  "ensures E L (start_command_container E config spec res dir network) (\<lambda>x. insert (ContainerOf (fst x)) L)"
  unfolding start_command_container_def
  by (intro ensures_keep [OF makes_ask] ensures_keep [OF makes_lift] ensures_keep [OF journal_transition_makes]
      ensures_create_container ensures_match_makes [OF makes_invoke] ensures_ret)
     (auto simp: ensures_def and_then_ok fail_def)

lemma finish_workflow_ensures:
  "ensures (wc_outside C) (insert (ContainerOf (wc_container C)) (L \<union> network_resources network \<union> ContainerOf ` set ids))
     (finish_workflow C spec dir network ids started l) (\<lambda>_. L)"
proof -
  have destroyed: "ensures E (insert (ContainerOf (wc_container C)) (L \<union> network_resources network \<union> ContainerOf ` set ids))
     (destroy E spec status (wc_container C) ids network) (\<lambda>_. L)" for E status
    by (rule destroy_ensures) auto
  show ?thesis
    unfolding finish_workflow_def Let_def
    by (intro ensures_keep [OF journal_transition_makes] ensures_keep [OF collect_run] ensures_bind [OF destroyed]
        make_result_ensures) simp
qed

lemma run_workflow_ensures: "ensures E L (run_workflow E config spec workflow res d) (\<lambda>_. L)"
proof -
  have finish: "ensures E (insert (ContainerOf i) (L \<union> network_resources network \<union> ContainerOf ` set ids))
      (finish_workflow \<lparr> wc_outside = E, wc_config = config, wc_container = i, wc_deadline = d, wc_feedback = f \<rparr>
         spec dir network ids started l) (\<lambda>_. L)" for i f dir network ids started l
    using finish_workflow_ensures [of "\<lparr> wc_outside = E, wc_config = config, wc_container = i, wc_deadline = d, wc_feedback = f \<rparr>"]
    by simp
  show ?thesis
    unfolding run_workflow_def Let_def
    by (intro ensures_keep [OF prepare_job_run] ensures_bind [OF create_job_network_ensures] ensures_keep [OF makes_lift]
        ensures_bind [OF workflow_services_ensures] ensures_bind [OF start_workflow_ensures]
        ensures_keep [OF makes_run_local [OF safe_feedback_path_makes]] ensures_keep [OF write_feedback_run]
        ensures_keep [OF journal_transition_makes] ensures_keep [OF makes_ask] ensures_keep [OF run_phases_run] finish)
       simp_all
qed

lemma finish_command_ensures:
  "ensures E (insert (ContainerOf i) (L \<union> network_resources network))
     (finish_command E config spec d dir network i started l status) (\<lambda>_. L)"
proof -
  have destroyed: "ensures E (insert (ContainerOf i) (L \<union> network_resources network)) (destroy E spec st i [] network) (\<lambda>_. L)" for st
    by (rule destroy_ensures) auto
  show ?thesis
    unfolding finish_command_def split_beta
    by (intro ensures_keep [OF journal_transition_makes] ensures_keep [OF command_steps_run(2)]
        ensures_keep [OF command_steps_run(3)]
        ensures_keep [OF collect_run] ensures_bind [OF destroyed] make_result_ensures) simp
qed

lemma run_command_ensures: "ensures E L (run_command E config spec res d) (\<lambda>_. L)"
  unfolding run_command_def split_beta
  by (intro ensures_keep [OF prepare_job_run] ensures_bind [OF create_job_network_ensures]
      ensures_bind [OF start_command_ensures] ensures_keep [OF makes_ask] ensures_keep [OF follow_logs_run]
      ensures_keep [OF command_steps_run(1)] finish_command_ensures) simp_all

lemma run_leaves_nothing:
  assumes "run E config spec w = (Inr r, w')"
  shows "live E (trace w') \<subseteq> live E (trace w)"
  using assms
proof (cases rule: run_unfold)
  case (2 res now u)
  have "live E (trace u) = live E (trace w)"
    by (simp add: 2(2) begin_log_stream_def set_log_phase_def live_snoc)
  moreover have "live E (trace w') \<subseteq> live E (trace u)"
    using 2(3) ensuresD [OF run_workflow_ensures order_refl] ensuresD [OF run_command_ensures order_refl]
    by (cases "js_workflow spec") simp_all
  ultimately show ?thesis by simp
qed simp

text \<open>
  C8: A run that returns a result, whatever its status, has asked Docker to remove every
  container and every network that it created on the way, services included, after it created
  them: nothing is live afterwards that was not live before.
\<close>

theorem successful_runs_leave_nothing:
  assumes "run E config spec w = (Inr r, w')"
  shows "live E (trace w') \<subseteq> live E (trace w)"
  using assms by (rule run_leaves_nothing)

theorem successful_runs_leave_nothing_witness:
  "live sample_docker (takeWhile (\<lambda>c. c \<noteq> StartContainer ''c1'') sample_workflow_trace) = {ContainerOf ''c1''} \<and>
   live sample_docker sample_workflow_trace = {}"
  using successful_runs_leave_nothing [OF sample_workflow_run]
  by (simp add: sample_world_def sample_workflow_trace_def live_def Let_def)

section \<open>What an error leaves behind\<close>

lemma match_invoke_ok:
  "match_op (invoke f c) k h w = (Inr y, w') \<longleftrightarrow>
     (\<exists>x. f (trace w @ [c]) = Inr x \<and> k x (with_calls w [c]) = (Inr y, w')) \<or>
     (\<exists>e. f (trace w @ [c]) = Inl e \<and> h e (with_calls w [c]) = (Inr y, w'))"
  by (cases "f (trace w @ [c])") (simp_all add: match_op_def invoke_def Let_def)

lemma journal_transition_trace:
  "journal_transition E job attempt st w = (r, w') \<Longrightarrow> trace w' = trace w @ [Transition job attempt st]"
  by (auto simp: journal_transition_def Let_def split: prod.splits)

text \<open>
  An error of the log stream ends a command job at once: its container is started and is not
  removed.
\<close>

theorem log_error_leaks_the_container:
  assumes "prepare_job E config spec d w = (Inr prepared, w1)"
    and "create_job_network E config spec w1 = (Inr network, w2)"
    and start: "start_command_container E config spec res (pw_dir prepared) network w2 = (Inr (i, started), w3)"
    and "o_logs E (trace w3 @ [ContainerLogs i]) = Ready (Inl e) # items"
  shows "run_command E config spec res d w = (Inl e, with_calls w3 [ContainerLogs i]) \<and>
    ContainerOf i \<in> live E (trace (with_calls w3 [ContainerLogs i]))"
proof
  show "run_command E config spec res d w = (Inl e, with_calls w3 [ContainerLogs i])"
    using assms by (simp add: run_command_def and_then_def ask_def fail_def Let_def)
  from start have "ContainerOf i \<in> live E (trace w3)"
    unfolding start_command_container_def
    by (auto simp: and_then_ok match_invoke_ok ask_ok lift_def ret_def fail_def live_append
        dest!: journal_transition_trace)
  then show "ContainerOf i \<in> live E (trace (with_calls w3 [ContainerLogs i]))"
    by (simp add: live_append)
qed

end
