(* ===== verification/Docker_Verdict.thy ===== *)
theory Docker_Verdict
  imports Docker_Resources
begin

text \<open>
  What a completed workflow has been through: every setup command, the initialization, the
  agent, every required and every mandatory verifier and the publication exited with status
  zero, in this order and in the job's container.
\<close>

section \<open>Commands that exited with zero\<close>

text \<open>
  Between the histories \<open>h\<close> and \<open>h'\<close> the command was created in the container \<open>i\<close> and Docker
  reported exit code zero for it.
\<close>

definition exited_zero :: "outside \<Rightarrow> string \<Rightarrow> command_spec \<Rightarrow> history \<Rightarrow> history \<Rightarrow> bool" where
  "exited_zero E i cmd h h' \<longleftrightarrow> (\<exists>h1 d x h2.
     prefix h h1 \<and> o_exec_create E (h1 @ [CreateExec i cmd d]) = Ready (Inr x) \<and>
     prefix (h1 @ [CreateExec i cmd d]) h2 \<and> o_exec_status E (h2 @ [InspectExec x]) = Inr (Some 0) \<and>
     prefix (h2 @ [InspectExec x]) h')"

fun passed_in_order :: "outside \<Rightarrow> string \<Rightarrow> command_spec list \<Rightarrow> history \<Rightarrow> history \<Rightarrow> bool" where
  "passed_in_order E i [] h h' = prefix h h'"
| "passed_in_order E i (cmd # cmds) h h' = (\<exists>m. exited_zero E i cmd h m \<and> passed_in_order E i cmds m h')"

lemma exited_zero_mono: "exited_zero E i cmd h m \<Longrightarrow> prefix h0 h \<Longrightarrow> prefix m m' \<Longrightarrow> exited_zero E i cmd h0 m'"
  unfolding exited_zero_def by (meson prefix_order.trans)

lemma passed_earlier: "passed_in_order E i cmds h h' \<Longrightarrow> prefix h0 h \<Longrightarrow> passed_in_order E i cmds h0 h'"
  by (cases cmds) (auto intro: exited_zero_mono prefix_order.trans)

lemma passed_append:
  "passed_in_order E i as h m \<Longrightarrow> passed_in_order E i bs m h' \<Longrightarrow> passed_in_order E i (as @ bs) h h'"
  by (induction "as" arbitrary: h) (auto intro: passed_earlier)

lemma passed_later: "passed_in_order E i cmds h h' \<Longrightarrow> prefix h' h'' \<Longrightarrow> passed_in_order E i cmds h h''"
  using passed_append [of E i cmds h h' "[]" h''] by simp

text \<open>A case distinction that succeeds succeeds in one of its branches.\<close>

lemma option_op_ok:
  "(case x of None \<Rightarrow> m | Some y \<Rightarrow> k y) w = (Inr r, w') \<longleftrightarrow>
     x = None \<and> m w = (Inr r, w') \<or> (\<exists>y. x = Some y \<and> k y w = (Inr r, w'))"
  by (cases x) simp_all

lemma selected_op_ok:
  "(case x of Ready y \<Rightarrow> k y | CancelledFirst \<Rightarrow> m | DeadlineFirst \<Rightarrow> n) w = (Inr r, w') \<longleftrightarrow>
     (\<exists>y. x = Ready y \<and> k y w = (Inr r, w')) \<or> x = CancelledFirst \<and> m w = (Inr r, w') \<or>
     x = DeadlineFirst \<and> n w = (Inr r, w')"
  by (cases x) simp_all

lemma exec_start_op_ok:
  "(case x of Attached y \<Rightarrow> k y | Detached \<Rightarrow> m) w = (Inr r, w') \<longleftrightarrow>
     (\<exists>y. x = Attached y \<and> k y w = (Inr r, w')) \<or> x = Detached \<and> m w = (Inr r, w')"
  by (cases x) simp_all

lemma read_output_zero:
  assumes "read_output E limit i x out err t items w = (Inr r, w')" and "ex_termination r = None" and "ex_status r = 0"
  shows "\<exists>h. prefix (trace w) h \<and> o_exec_status E (h @ [InspectExec x]) = Inr (Some 0) \<and> trace w' = h @ [InspectExec x]"
  using assms
proof (induction items arbitrary: out err t w)
  case Nil
  then show ?case by (auto simp: and_then_ok invoke_iff ret_def split: option.splits)
next
  case (Cons item items)
  have emitted: "prefix (trace w) (trace u)" if "emit_log E s b w = (Inr y, u)" for s b y u
    using makes_prefix [OF emit_log_sends that] .
  from Cons show ?case
    by (auto simp: terminated_def and_then_ok ret_def fail_def ignore_def split: selected.splits sum.splits log_output.splits prod.splits
        dest!: emitted intro: prefix_order.trans) (meson prefix_order.trans)+
qed

lemma exec_command_zero:
  assumes "exec_command E config i cmd d w = (Inr r, w')" and "ex_termination r = None" and "ex_status r = 0"
  shows "exited_zero E i cmd (trace w) (trace w')"
proof -
  from assms obtain x items u where create: "o_exec_create E (trace w @ [CreateExec i cmd d]) = Ready (Inr x)"
    and u: "u = with_calls w [CreateExec i cmd d, StartExec x]"
    and read: "read_output E (max_log_bytes (rc_limits config)) i x [] [] False items u = (Inr r, w')"
    unfolding exec_command_def terminated_def
    by (simp only: and_then_ok ask_ok selected_op_ok exec_start_op_ok lift_def ret_def fail_def ignore_def prod.inject
        sum.inject sum.distinct) (auto; metis option.distinct(1))
  from read_output_zero [OF read assms(2,3)] obtain h where h: "prefix (trace u) h"
    "o_exec_status E (h @ [InspectExec x]) = Inr (Some 0)" "trace w' = h @ [InspectExec x]" by blast
  have "prefix (trace w @ [CreateExec i cmd d]) h"
    by (rule prefix_order.trans [OF _ h(1)]) (simp add: u)
  with create h show ?thesis
    unfolding exited_zero_def by (intro exI [of _ "trace w"] exI [of _ d] exI [of _ x] exI [of _ h]) simp_all
qed

section \<open>Phases\<close>

abbreviation passed :: "wf_context \<Rightarrow> command_spec list \<Rightarrow> world \<Rightarrow> world \<Rightarrow> bool" where
  "passed C cmds w w' \<equiv> passed_in_order (wc_outside C) (wc_container C) cmds (trace w) (trace w')"

lemma absorb_flags [simp]:
  "wl_setup_ok (absorb n r l) = wl_setup_ok l" "wl_termination (absorb n r l) = wl_termination l"
  "wl_all_passed (absorb n r l) = wl_all_passed l"
  by (simp_all add: absorb_def Let_def split: prod.splits)

text \<open>A phase that ends without a termination went on to \<open>k\<close> with the result of its command.\<close>

lemma phase_exec_ok:
  assumes "phase_exec C phase cmd l k w = (Inr l', w')" and "wl_termination l' = None"
  obtains r u where "k r (absorb (max_log_bytes (rc_limits (wc_config C))) r l) u = (Inr l', w')"
    and "prefix (trace w) (trace u)" and "ex_status r = 0 \<Longrightarrow> passed C [cmd] w u"
proof -
  from assms obtain r u where exec: "exec_command (wc_outside C) (wc_config C) (wc_container C) cmd (wc_deadline C)
      (snd (set_log_phase phase w)) = (Inr r, u)" and t: "ex_termination r = None"
    and k: "k r (absorb (max_log_bytes (rc_limits (wc_config C))) r l) u = (Inr l', w')"
    by (auto simp: phase_exec_def and_then_ok option_op_ok set_log_phase_def ret_def stopped_def Let_def)
  have "trace (snd (set_log_phase phase w)) = trace w" by (simp add: set_log_phase_def)
  with exec_command_zero [OF exec t] makes_prefix [OF exec_command_makes exec]
  have "prefix (trace w) (trace u)" "ex_status r = 0 \<Longrightarrow> passed C [cmd] w u" by auto
  with k that show thesis by blast
qed

lemma run_setup_passed:
  assumes "run_setup C l cmds w = (Inr l', w')" and "wl_termination l' = None" and "wl_setup_ok l'"
  shows "wl_setup_ok l \<and> passed C cmds w w'"
  using assms
proof (induction cmds arbitrary: l w)
  case (Cons cmd cmds)
  let ?k = "\<lambda>result l. ret (if ex_status result \<noteq> 0 then l\<lparr> wl_setup_ok := False, wl_failed_phase := Some ''setup'' \<rparr> else l)"
  from Cons.prems obtain u l1 u1 where guard: "setup_expired C w = (Inr None, u)"
    and phase: "phase_exec C ''setup'' cmd l ?k u = (Inr l1, u1)"
    and rest: "if wl_termination l1 \<noteq> None then l' = l1 \<and> w' = u1 else run_setup C l1 cmds u1 = (Inr l', w')"
    by (auto simp: and_then_ok option_op_ok ret_def stopped_def split: if_splits)
  with Cons.prems have l1: "wl_termination l1 = None" and rest: "run_setup C l1 cmds u1 = (Inr l', w')"
    by (auto split: if_splits)
  from Cons.IH [OF rest Cons.prems(2,3)] have ok: "wl_setup_ok l1" and tail: "passed C cmds u1 w'" by auto
  from phase_exec_ok [OF phase l1] obtain r v where
    "?k r (absorb (max_log_bytes (rc_limits (wc_config C))) r l) v = (Inr l1, u1)" "ex_status r = 0 \<Longrightarrow> passed C [cmd] u v"
    by blast
  with ok have "wl_setup_ok l" "passed C [cmd] u u1" by (auto simp: ret_def split: if_splits)
  moreover have "prefix (trace w) (trace u)"
    using guard by (auto simp: setup_expired_def and_then_ok ask_ok ret_def split: if_splits)
  ultimately show ?case
    using passed_append [OF passed_earlier tail, of "[cmd]"] by simp
qed (simp add: ret_def)

lemma verdict_flags [simp]:
  "wl_termination (verdict who req r l) = wl_termination l"
  "wl_all_passed (verdict who req r l) \<longleftrightarrow> wl_all_passed l \<and> (req \<longrightarrow> ex_status r = 0)"
  by (simp_all add: verdict_def Let_def)

text \<open>One verifier, required or not, and the rest of the loop after it.\<close>

lemma verifier_step:
  assumes phase: "phase_exec C ''verifier'' cmd l (\<lambda>r l. ret (verdict who req r l)) w = (Inr l1, u)"
    and l1: "wl_termination l1 = None" "wl_all_passed l1" and rest: "passed C cmds u w'"
  shows "wl_all_passed l \<and> passed C ((if req then [cmd] else []) @ cmds) w w'"
proof -
  from phase_exec_ok [OF phase l1(1)] obtain r v where
    k: "ret (verdict who req r (absorb (max_log_bytes (rc_limits (wc_config C))) r l)) v = (Inr l1, u)"
    and v: "prefix (trace w) (trace v)" "ex_status r = 0 \<Longrightarrow> passed C [cmd] w v" by blast
  from k l1(2) have "u = v" "wl_all_passed l" "req \<Longrightarrow> ex_status r = 0" by (auto simp: ret_def)
  with v rest show ?thesis
    using passed_append [of _ _ "[cmd]" "trace w" "trace v" cmds] by (auto intro: passed_earlier)
qed

lemma run_verifiers_passed:
  assumes "run_verifiers C l vs w = (Inr l', w')" and "wl_termination l' = None" and "wl_all_passed l'"
  shows "wl_all_passed l \<and> passed C (map verifier_command (filter vs_required vs)) w w'"
  using assms
proof (induction vs arbitrary: l w)
  case (Cons v vs)
  then obtain l1 u where phase: "phase_exec C ''verifier'' (verifier_command v) l
      (\<lambda>r l. ret (verdict (''Verifier '' @ vs_name v) (vs_required v) r l)) w = (Inr l1, u)"
    and l1: "wl_termination l1 = None" and rest: "run_verifiers C l1 vs u = (Inr l', w')"
    by (auto simp: and_then_ok ret_def split: if_splits)
  from Cons.IH [OF rest Cons.prems(2,3)] have "wl_all_passed l1"
    "passed C (map verifier_command (filter vs_required vs)) u w'" by auto
  from verifier_step [OF phase l1 this] show ?case by (cases "vs_required v") simp_all
qed (simp add: ret_def)

lemma run_mandatory_passed:
  assumes "run_mandatory C l vs w = (Inr l', w')" and "wl_termination l' = None" and "wl_all_passed l'"
  shows "wl_termination l = None \<and> wl_all_passed l \<and> passed C vs w w'"
  using assms
proof (induction vs arbitrary: l w)
  case (Cons v vs)
  then obtain l1 u where phase: "phase_exec C ''verifier'' v l
      (\<lambda>r l. ret (verdict (''Mandatory verifier '' @ o_debug (wc_outside C) (cs_command v)) True r l)) w = (Inr l1, u)"
    and l: "wl_termination l = None" and l1: "wl_termination l1 = None" and rest: "run_mandatory C l1 vs u = (Inr l', w')"
    by (auto simp: and_then_ok ret_def split: if_splits)
  from Cons.IH [OF rest Cons.prems(2,3)] have "wl_all_passed l1" "passed C vs u w'" by auto
  from verifier_step [OF phase l1 this] l show ?case by simp
qed (simp add: ret_def)

lemma decisive_phase:
  assumes "phase_exec C phase cmd l (\<lambda>r l. ret (f r l)) w = (Inr l', w')" and "wl_termination l' = None"
    and "wl_all_passed l'" and "\<And>r l. wl_all_passed (f r l) \<longleftrightarrow> ex_status r = 0"
  shows "passed C [cmd] w w'"
proof -
  from phase_exec_ok [OF assms(1,2)] obtain r u where
    "ret (f r (absorb (max_log_bytes (rc_limits (wc_config C))) r l)) u = (Inr l', w')"
    "ex_status r = 0 \<Longrightarrow> passed C [cmd] w u" by blast
  with assms(3,4) show ?thesis by (auto simp: ret_def)
qed

definition option_list :: "'a option \<Rightarrow> 'a list" where
  "option_list x = (case x of None \<Rightarrow> [] | Some y \<Rightarrow> [y])"

lemma run_publish_passed:
  assumes "run_publish C workflow l w = (Inr l', w')" and "wl_termination l' = None" and "wl_all_passed l'"
  shows "wl_termination l = None \<and> wl_all_passed l \<and> passed C (option_list (wf_publish workflow)) w w'"
proof (cases "wf_publish workflow")
  case None
  with assms show ?thesis by (simp add: run_publish_def option_list_def ret_def)
next
  case (Some cmd)
  with assms have l: "wl_termination l = None" "wl_all_passed l" by (auto simp: run_publish_def ret_def split: if_splits)
  with assms(1) Some have "phase_exec C ''publish'' cmd l (\<lambda>result l. ret (l
      \<lparr> wl_all_passed := (ex_status result = 0),
        wl_failed_phase := (if ex_status result \<noteq> 0 then Some ''publish'' else wl_failed_phase l) \<rparr>)) w = (Inr l', w')"
    by (simp add: run_publish_def)
  from decisive_phase [OF this assms(2,3)] have "passed C [cmd] w w'" by simp
  with l Some show ?thesis by (simp add: option_list_def)
qed

lemma run_agent_passed:
  assumes "run_agent C workflow n l w = (Inr l', w')" and "wl_termination l' = None" and "wl_all_passed l'"
  shows "passed C [wf_agent workflow] w w'"
  by (rule decisive_phase [OF assms(1) [unfolded run_agent_def] assms(2,3)]) simp

text \<open>The commands one iteration needs to exit with zero for the workflow to complete.\<close>

definition iteration_commands :: "runner_config \<Rightarrow> workflow_spec \<Rightarrow> command_spec list" where
  "iteration_commands config workflow =
     [wf_agent workflow] @ map verifier_command (filter vs_required (wf_verifiers workflow)) @
     mandatory_verifiers (rc_security config) @ option_list (wf_publish workflow)"

text \<open>A round of a workflow that ends well: the agent, the verifiers and the publication.\<close>

lemma round_passed:
  assumes agent: "run_agent C workflow i l w = (Inr l1, u1)" "wl_termination l1 = None"
    and checks: "run_checks C workflow l1 u1 = (Inr l2, u2)" "wl_termination l2 = None" "wl_all_passed l2"
  shows "passed C (iteration_commands (wc_config C) workflow) w u2"
proof -
  from checks(1) obtain la ua lb ub where vs: "run_verifiers C l1 (wf_verifiers workflow) u1 = (Inr la, ua)"
    and ms: "run_mandatory C la (mandatory_verifiers (rc_security (wc_config C))) ua = (Inr lb, ub)"
    and ps: "run_publish C workflow lb ub = (Inr l2, u2)"
    by (auto simp: run_checks_def and_then_ok)
  from run_publish_passed [OF ps] run_mandatory_passed [OF ms] run_verifiers_passed [OF vs] checks(2,3)
  have "passed C (map verifier_command (filter vs_required (wf_verifiers workflow))) u1 ua"
    "passed C (mandatory_verifiers (rc_security (wc_config C))) ua ub" "passed C (option_list (wf_publish workflow)) ub u2"
    "wl_all_passed l1" by auto
  with run_agent_passed [OF agent] show ?thesis
    unfolding iteration_commands_def by (intro passed_append) assumption+
qed

lemma run_iterations_passed:
  assumes "run_iterations C workflow l is w = (Inr l', w')"
    and "wl_final_status l = ''failed''" and "wl_final_status l' = ''completed''"
  shows "wl_setup_ok l \<and> wl_termination l = None \<and> \<not> o_cancelled (wc_outside C) (trace w @ [IsCancelled]) \<and>
    passed C (iteration_commands (wc_config C) workflow) w w'"
  using assms
proof (induction "is" arbitrary: l w)
  case (Cons i "is")
  let ?u = "with_calls w [IsCancelled]"
  from Cons.prems have l: "wl_setup_ok l" "wl_termination l = None" "\<not> o_cancelled (wc_outside C) (trace w @ [IsCancelled])"
    by (auto simp: and_then_ok ask_ok ret_def split: if_splits)
  with Cons.prems(1) obtain l1 u1 where agent: "run_agent C workflow i l ?u = (Inr l1, u1)"
    and rest: "(if wl_termination l1 \<noteq> None then ret l1
      else and_then (run_checks C workflow l1) (\<lambda>l.
      if wl_termination l = None \<and> wl_all_passed l then ret (l\<lparr> wl_final_status := ''completed'' \<rparr>)
      else and_then (write_feedback C (wl_report l)) (\<lambda>_.
      if i = unat (wf_max_iterations workflow) then ret l
      else run_iterations C workflow l is))) u1 = (Inr l', w')"
    by (auto simp: and_then_ok ask_ok simp del: if_split)
  have s1: "wl_final_status l1 = ''failed''"
    using yieldsD [OF phases_status(2) [where ns = "[''failed'']"] agent] Cons.prems(2) by simp
  with rest Cons.prems(3) have t1: "wl_termination l1 = None" by (auto simp: ret_def split: if_splits)
  with rest obtain l2 u2 where checks: "run_checks C workflow l1 u1 = (Inr l2, u2)"
    and rest: "(if wl_termination l2 = None \<and> wl_all_passed l2 then ret (l2\<lparr> wl_final_status := ''completed'' \<rparr>)
      else and_then (write_feedback C (wl_report l2)) (\<lambda>_.
      if i = unat (wf_max_iterations workflow) then ret l2 else run_iterations C workflow l2 is)) u2 = (Inr l', w')"
    by (auto simp: and_then_ok simp del: if_split)
  show ?case
  proof (cases "wl_termination l2 = None \<and> wl_all_passed l2")
    case True
    then have "passed C (iteration_commands (wc_config C) workflow) w u2"
      using round_passed [OF agent t1 checks] by (auto intro: passed_earlier)
    with True rest l show ?thesis by (auto simp: ret_def)
  next
    case False
    have s2: "wl_final_status l2 = ''failed''"
      using yieldsD [OF run_checks_status [where ns = "[''failed'']"] checks] s1 by simp
    with False rest Cons.prems(3) obtain u3 where fb: "write_feedback C (wl_report l2) u2 = (Inr (), u3)"
      and "run_iterations C workflow l2 is u3 = (Inr l', w')"
      by (auto simp: and_then_ok ret_def split: if_splits)
    from Cons.IH [OF this(2) s2 Cons.prems(3)] have "passed C (iteration_commands (wc_config C) workflow) u3 w'" by blast
    moreover have "prefix (trace w) (trace u3)"
      using makes_prefix [OF phases_run(2) agent] makes_prefix [OF run_checks_run checks] makes_prefix [OF write_feedback_run fb]
      by (auto intro: append_prefixD prefix_order.trans)
    ultimately show ?thesis using l by (auto intro: passed_earlier)
  qed
qed (simp add: ret_def)

text \<open>A cancellation token that has been cancelled stays cancelled.\<close>

definition lasting_cancellation :: "outside \<Rightarrow> bool" where
  "lasting_cancellation E \<longleftrightarrow> (\<forall>h h'. prefix h h' \<longrightarrow> o_cancelled E h \<longrightarrow> o_cancelled E h')"

lemma run_initialize_passed:
  assumes "run_initialize C workflow l w = (Inr l', w')" and "wl_termination l' = None" and "wl_setup_ok l'"
  shows "wl_termination l = None \<and> wl_setup_ok l \<and> prefix (trace w) (trace w') \<and>
    (passed C (option_list (wf_initialize workflow)) w w' \<or> (\<exists>h. prefix h (trace w') \<and> o_cancelled (wc_outside C) h))"
proof -
  have l: "wl_termination l = None" using assms(1,2) by (auto simp: run_initialize_def ret_def split: if_splits)
  have before: "prefix (trace w) (trace w')" using makes_prefix [OF phases_run(1) assms(1)] .
  let ?h = "trace w @ [IsCancelled]" and ?u = "with_calls w [IsCancelled]"
  show ?thesis
  proof (cases "o_cancelled (wc_outside C) ?h \<or> \<not> wl_setup_ok l \<or> wf_initialize workflow = None")
    case True
    with assms l have "l' = l" "trace w' = ?h" by (auto simp: run_initialize_def and_then_ok ask_ok ret_def split: if_splits)
    with True assms(3) l before show ?thesis by (auto simp: option_list_def)
  next
    case False
    then obtain cmd where cmd: "wf_initialize workflow = Some cmd" by blast
    let ?k = "\<lambda>result l. if ex_status result \<noteq> 0 then
            and_then (write_feedback C
               (''Agent context initialization failed with exit code '' @ show_int (ex_status result) @ ''.'' @ nl @
                from_utf8_lossy (ex_stdout result))) (\<lambda>_.
            ret (l\<lparr> wl_setup_ok := False, wl_failed_phase := Some ''initialize'' \<rparr>))
          else ret l"
    from False cmd assms(1) l have phase: "phase_exec C ''initialize'' cmd l ?k ?u = (Inr l', w')"
      by (simp add: run_initialize_def and_then_def ask_def Let_def)
    from phase_exec_ok [OF phase assms(2)] obtain r v where
      k: "?k r (absorb (max_log_bytes (rc_limits (wc_config C))) r l) v = (Inr l', w')"
      and v: "ex_status r = 0 \<Longrightarrow> passed C [cmd] ?u v" by blast
    from k assms(3) have "ex_status r = 0" "w' = v" by (auto simp: and_then_ok ret_def split: if_splits)
    with v have "passed C [cmd] ?u w'" by simp
    then have "passed C [cmd] w w'" by (rule passed_earlier) simp
    with False l before cmd show ?thesis by (simp add: option_list_def)
  qed
qed

lemma conclude_completed:
  assumes "conclude C l w = (Inr l', w')" and "wl_final_status l' = ''completed''"
  shows "wl_final_status l = ''completed'' \<and> prefix (trace w) (trace w')"
proof
  show "prefix (trace w) (trace w')" using makes_prefix [OF phases_run(4) assms(1)] .
  have "termination_status reason \<noteq> ''completed''" for reason by (cases reason) simp_all
  then show "wl_final_status l = ''completed''"
    using assms by (auto simp: conclude_def and_then_ok ask_ok option_op_ok ret_def split: if_splits)
qed

definition workflow_commands :: "runner_config \<Rightarrow> workflow_spec \<Rightarrow> command_spec list" where
  "workflow_commands config workflow =
     wf_setup workflow @ option_list (wf_initialize workflow) @ iteration_commands config workflow"

lemma run_phases_passed:
  assumes "lasting_cancellation (wc_outside C)" and "run_phases C workflow w = (Inr l', w')"
    and "wl_final_status l' = ''completed''"
  shows "passed C (workflow_commands (wc_config C) workflow) w w'"
proof -
  from assms(2) obtain l1 u1 u2 l2 u3 l3 u4 where prep: "run_setup C initial_locals (wf_setup workflow) w = (Inr l1, u1)"
    and fb: "(if wl_termination l1 = None \<and> \<not> wl_setup_ok l1
               then write_feedback C (''Workflow setup command failed.'' @ nl) else ret ()) u1 = (Inr (), u2)"
    and init: "run_initialize C workflow l1 u2 = (Inr l2, u3)"
    and iter: "run_iterations C workflow l2 (iterations_of workflow) u3 = (Inr l3, u4)"
    and conclude: "conclude C l3 u4 = (Inr l', w')"
    unfolding run_phases_def by (elim and_then_okE) auto
  have "wl_final_status l1 = ''failed''"
    using yieldsD [OF run_setup_status [where ns = "[''failed'']"] prep] by (simp add: initial_locals_def)
  then have s2: "wl_final_status l2 = ''failed''"
    using yieldsD [OF phases_status(1) [where ns = "[''failed'']"] init] by simp
  from conclude_completed [OF conclude assms(3)] have s3: "wl_final_status l3 = ''completed''"
    and end_prefix: "prefix (trace u4) (trace w')" by auto
  from run_iterations_passed [OF iter s2 s3] have l2: "wl_setup_ok l2" "wl_termination l2 = None"
    and alive: "\<not> o_cancelled (wc_outside C) (trace u3 @ [IsCancelled])"
    and work: "passed C (iteration_commands (wc_config C) workflow) u3 u4" by auto
  have "\<not> o_cancelled (wc_outside C) h" if "prefix h (trace u3)" for h
    using assms(1) alive prefix_order.trans [OF that, of "trace u3 @ [IsCancelled]"]
    unfolding lasting_cancellation_def by (metis prefixI)
  with run_initialize_passed [OF init l2(2,1)]
  have l1: "wl_termination l1 = None" "wl_setup_ok l1" and began: "passed C (option_list (wf_initialize workflow)) u2 u3"
    by auto
  from fb l1 have "u2 = u1" by (simp add: ret_def)
  with run_setup_passed [OF prep l1] began have "passed C (wf_setup workflow) w u1"
    "passed C (option_list (wf_initialize workflow)) u1 u3" by auto
  with passed_later [OF work end_prefix] show ?thesis
    unfolding workflow_commands_def by (blast intro: passed_append)
qed

section \<open>The container of a result\<close>

lemma responded_new: "responded f c x (trace w) (trace w') \<Longrightarrow> c \<in> set (new_calls w w')"
  by (auto simp: responded_def prefix_def)

text \<open>Between two histories Docker created a container with the workspace mounted, under the id \<open>i\<close>.\<close>

definition job_container_created :: "outside \<Rightarrow> string \<Rightarrow> history \<Rightarrow> history \<Rightarrow> bool" where
  "job_container_created E i h h' \<longleftrightarrow>
     (\<exists>c. cc_binds c \<noteq> [] \<and> responded (o_id E) (CreateContainer c) (Inr i) h h')"

lemma created_mono:
  "job_container_created E i h m \<Longrightarrow> prefix h0 h \<Longrightarrow> prefix m h' \<Longrightarrow> job_container_created E i h0 h'"
  unfolding job_container_created_def by (blast intro: responded_mono)

lemma created_invoke:
  "invoke (o_id E) (CreateContainer (job_container config spec res dir network name cmd wd env labels)) w = (Inr i, w') \<Longrightarrow>
     job_container_created E i (trace w) (trace w')"
  unfolding job_container_created_def
  by (rule exI [of _ "job_container config spec res dir network name cmd wd env labels"])
    (auto simp: job_container_def intro: responded_invoke)

text \<open>Both handlers start the container they have created, and give it to the result.\<close>

lemma started_created:
  assumes "match_op (invoke (o_id E) (CreateContainer (job_container config spec res dir network name cmd wd env labels)))
      k (\<lambda>e. h e) w = (Inr x, w')"
    and "\<And>e. makes (run_call True (\<lambda>_. True) (\<lambda>_. True)) (h e)" and "\<And>e u v. h e u \<noteq> (Inr x, v)"
    and "\<And>i. makes (run_call True (\<lambda>_. True) (\<lambda>_. True)) (k i)"
    and "\<And>i u v. k i u = (Inr x, v) \<Longrightarrow> f x = i"
  shows "job_container_created E (f x) (trace w) (trace w')"
proof -
  let ?c = "CreateContainer (job_container config spec res dir network name cmd wd env labels)"
  obtain i where i: "invoke (o_id E) ?c w = (Inr i, with_calls w [?c])" and k: "k i (with_calls w [?c]) = (Inr x, w')"
    using assms(1,3) by (auto simp: match_op_def invoke_def Let_def split: sum.splits)
  show ?thesis
    using created_mono [OF created_invoke [OF i] _ makes_prefix [OF assms(4) k]] assms(5) [OF k] by simp
qed

lemma no_answer: "\<forall>e. r \<noteq> Inl e \<Longrightarrow> r \<noteq> Inr () \<Longrightarrow> P"
  by (cases r) auto

lemma start_command_created:
  assumes "start_command_container E config spec res dir network w = (Inr start, w')"
  shows "job_container_created E (fst start) (trace w) (trace w')"
proof -
  let ?u = "with_calls w [NewUuid, UtcAfter (timeout_seconds res)]"
  from assms obtain env where start: "match_op (invoke (o_id E) (CreateContainer
         (job_container config spec res dir network (''ai-kodu-runner-job-'' @ o_text E (trace w @ [NewUuid]))
            (command_with_opencode_retry (js_command spec)) (Some (js_working_directory spec))
            (headless_opencode_environment env (js_command spec))
            (managed_labels config spec @
               [(''ai-kodu-runner.attempt'', show_nat (unat (js_attempt spec))),
                (''ai-kodu-runner.expires_at'', o_text E (trace ?u))]))))
       (\<lambda>container.
        and_then (journal_transition E (js_id spec) (js_attempt spec) Running) (\<lambda>_.
        and_then (ask (o_now E) Now) (\<lambda>started.
        match_op (invoke (o_unit E) (StartContainer container))
          (\<lambda>_. ret (container, started))
          (\<lambda>e. and_then (ignore (remove_container E container)) (\<lambda>_.
               and_then (remove_network E (snd network)) (\<lambda>_. fail e))))))
       (\<lambda>e. and_then (remove_network E (snd network)) (\<lambda>_. fail e)) ?u = (Inr start, w')"
    unfolding start_command_container_def by (auto simp: and_then_ok ask_ok lift_def)
  have "job_container_created E (fst start) (trace ?u) (trace w')"
    by (rule started_created [OF start, where f = fst])
      ((intro makes_intros; simp) | auto simp: and_then_ok fail_def ret_def match_op_def invoke_def Let_def elim: no_answer split: prod.splits sum.splits)+
  then show ?thesis by (rule created_mono) simp_all
qed

lemma start_workflow_created:
  assumes "start_workflow_container E config spec res dir network env ids w = (Inr i, w')"
  shows "job_container_created E i (trace w) (trace w')"
proof -
  let ?u = "with_calls w [NewUuid]"
  from assms have start: "match_op (invoke (o_id E) (CreateContainer
         (job_container config spec res dir network (''ai-kodu-runner-job-'' @ o_text E (trace w @ [NewUuid]))
            [''sleep'', ''infinity''] None env
            (managed_labels config spec @ [(''ai-kodu-runner.attempt'', show_nat (unat (js_attempt spec)))]))))
       (\<lambda>container.
        match_op (invoke (o_unit E) (StartContainer container))
          (\<lambda>_. ret container)
          (\<lambda>e. and_then (ignore (remove_container E container)) (\<lambda>_.
               and_then (remove_containers E ids) (\<lambda>_.
               and_then (remove_network E (snd network)) (\<lambda>_. fail e)))))
       (\<lambda>e. and_then (remove_containers E ids) (\<lambda>_.
            and_then (remove_network E (snd network)) (\<lambda>_. fail e))) ?u = (Inr i, w')"
    unfolding start_workflow_container_def by (auto simp: and_then_ok ask_ok)
  have "job_container_created E i (trace ?u) (trace w')"
    by (rule started_created [OF start, where f = "\<lambda>x. x"])
      ((intro makes_intros; simp) | auto simp: and_then_ok fail_def ret_def match_op_def invoke_def Let_def elim: no_answer split: prod.splits sum.splits)+
  then show ?thesis by (rule created_mono) simp_all
qed

section \<open>Whole workflows\<close>

lemma make_result_container:
  "yields (\<lambda>r. sb_container_id (jr_sandbox r) = i \<and> jr_status r = st)
     (make_result E spec st code s t out err f phase files i x)"
  unfolding make_result_def by (intro yields_ask) (simp add: yields_def ret_def)

lemma finish_workflow_container:
  "yields (\<lambda>r. sb_container_id (jr_sandbox r) = wc_container C \<and> jr_status r = wl_final_status l)
     (finish_workflow C spec dir network ids started l)"
  unfolding finish_workflow_def Let_def by (rule make_result_container yields_any)+

lemma run_workflow_passed:
  assumes "lasting_cancellation E" and "run_workflow E config spec workflow res d w = (Inr r, w')"
    and "jr_status r = ''completed''"
  shows "passed_in_order E (sb_container_id (jr_sandbox r)) (workflow_commands config workflow) (trace w) (trace w') \<and>
    job_container_created E (sb_container_id (jr_sandbox r)) (trace w) (trace w')"
proof -
  let ?C = "\<lambda>i f. \<lparr> wc_outside = E, wc_config = config, wc_container = i, wc_deadline = d, wc_feedback = f \<rparr>"
  from assms(2) obtain prepared w1 network w2 env w3 ids w4 i w5 f w6 w7 w8 started w9 l w10
    where steps: "prepare_job E config spec d w = (Inr prepared, w1)"
      "create_job_network E config spec w1 = (Inr network, w2)"
      "lift (environment_for_job (o_env E) spec config) w2 = (Inr env, w3)"
      "workflow_services E config spec workflow res d (snd network) w3 = (Inr ids, w4)"
      "start_workflow_container E config spec res (pw_dir prepared) network env ids w4 = (Inr i, w5)"
      "safe_feedback_path E (pw_dir prepared) (wf_feedback_file workflow) w5 = (Inr f, w6)"
      "write_feedback (?C i f) (''No verifier feedback yet.'' @ nl) w6 = (Inr (), w7)"
      "journal_transition E (js_id spec) (js_attempt spec) Running w7 = (Inr (), w8)"
      "ask (o_now E) Now w8 = (Inr started, w9)"
    and phases: "run_phases (?C i f) workflow w9 = (Inr l, w10)"
    and finish: "finish_workflow (?C i f) spec (pw_dir prepared) (snd network) ids started l w10 = (Inr r, w')"
    unfolding run_workflow_def Let_def by (elim and_then_okE) auto
  let ?P = "run_call True (\<lambda>_. True) (\<lambda>_. True)"
  have services: "makes ?P (workflow_services E config spec workflow res d (snd network))"
    unfolding workflow_services_def by (intro makes_intros start_services_run) simp_all
  have start: "makes ?P (start_workflow_container E config spec res (pw_dir prepared) network env ids)"
    unfolding start_workflow_container_def by (intro makes_intros) simp_all
  have same: "trace w3 = trace w2" and now: "prefix (trace w8) (trace w9)"
    using steps(3,9) by (simp_all add: lift_def ask_ok)
  have network: "makes ?P (create_job_network E config spec)" by (rule create_job_network_run) simp
  have running: "makes ?P (journal_transition E (js_id spec) (js_attempt spec) Running)" by (rule makes_intros) simp
  note trans = prefix_order.trans
  have "prefix (trace w) (trace w3)"
    unfolding same by (rule trans [OF makes_prefix [OF prepare_job_run steps(1)] makes_prefix [OF network steps(2)]])
  moreover have "prefix (trace w3) (trace w5)"
    by (rule trans [OF makes_prefix [OF services steps(4)] makes_prefix [OF start steps(5)]])
  moreover have "prefix (trace w5) (trace w7)"
    by (rule trans [OF makes_prefix [OF safe_feedback_path_makes steps(6)] makes_prefix [OF write_feedback_run steps(7)]])
  moreover have "prefix (trace w7) (trace w9)"
    by (rule trans [OF makes_prefix [OF running steps(8)] now])
  ultimately have before: "prefix (trace w) (trace w9)" by (meson trans)
  have after: "prefix (trace w10) (trace w')" by (rule makes_prefix [OF finish_workflow_run finish])
  from yieldsD [OF finish_workflow_container finish] assms(3)
  have "wl_final_status l = ''completed''" and i: "sb_container_id (jr_sandbox r) = i" by auto
  with run_phases_passed [OF _ phases] assms(1)
  have "passed_in_order E i (workflow_commands config workflow) (trace w9) (trace w10)" by simp
  note passed = passed_later [OF passed_earlier [OF this before] after]
  have "prefix (trace w5) (trace w')"
    using makes_prefix [OF safe_feedback_path_makes steps(6)] makes_prefix [OF write_feedback_run steps(7)]
      makes_prefix [OF running steps(8)] now makes_prefix [OF run_phases_run phases] after by (meson trans)
  moreover have "prefix (trace w) (trace w4)"
    using \<open>prefix (trace w) (trace w3)\<close> makes_prefix [OF services steps(4)] by (meson trans)
  ultimately have "job_container_created E i (trace w) (trace w')"
    by (intro created_mono [OF start_workflow_created [OF steps(5)]])
  with passed show ?thesis unfolding i by blast
qed

section \<open>Command jobs\<close>

lemma make_result_fields:
  "yields (\<lambda>r. sb_container_id (jr_sandbox r) = i \<and> jr_status r = st \<and> jr_stdout r = from_utf8_lossy out \<and>
      jr_stderr r = from_utf8_lossy err \<and> (t \<longrightarrow> jr_log_truncated r))
     (make_result E spec st code s t out err f phase files i x)"
  unfolding make_result_def by (intro yields_ask) (simp add: yields_def ret_def)

text \<open>A publication that fails makes the job fail and leaves its error at the end of stderr.\<close>

definition publish_note :: "string \<Rightarrow> string \<Rightarrow> bool" where
  "publish_note status note \<longleftrightarrow>
     note = [] \<or> status = ''failed'' \<and> (\<exists>e. note = ''git publish failed: '' @ error_to_string e @ nl)"

lemma publish_result_note:
  "yields (\<lambda>(st', code', err'). (st' = ''completed'' \<longrightarrow> st = ''completed'') \<and> (\<exists>note. err' = err @ note \<and> publish_note st' note))
     (publish_result E spec dir st code err)"
  unfolding publish_result_def by (intro yields_intros) (auto simp: publish_note_def)

lemma finish_command_result:
  "yields (\<lambda>r. sb_container_id (jr_sandbox r) = i \<and> (jr_status r = ''completed'' \<longrightarrow> status = 0) \<and>
      (rl_truncated l \<longrightarrow> jr_log_truncated r) \<and> jr_stdout r = from_utf8_lossy (rl_stdout l) \<and>
      (\<exists>note. jr_stderr r = from_utf8_lossy (rl_stderr l @ note) \<and> publish_note (jr_status r) note))
    (finish_command E config spec d dir network i started l status)" (is "yields ?R _")
proof -
  have tail: "yields ?R
      (and_then (publish_result E spec dir st status (rl_stderr l)) (\<lambda>(st', code, err).
       and_then (collect E config spec dir st' (Some ''command'') (rl_stdout l) err) (\<lambda>files.
       and_then (destroy E spec st' i [] network) (\<lambda>image_id.
       make_result E spec st' (if \<not> cancelled \<and> \<not> timed_out then Some code else None) started (rl_truncated l)
         (rl_stdout l) err (failure_of ''command_failed'' ''Docker command failed'' st')
         (if st' \<noteq> ''completed'' then Some ''command'' else None) files i image_id))))"
    if "st = ''completed'' \<longrightarrow> status = 0" for st cancelled timed_out
    apply (rule yields_bind [OF publish_result_note])
    subgoal for x
      by (cases x) (auto intro!: yields_any yields_mono [OF make_result_fields] simp: that)
    done
  show ?thesis
    unfolding finish_command_def
    apply (rule yields_any, rule yields_bind [OF decide_yields])
    subgoal for _ x by (cases x) (simp only: prod.case, elim conjE, rule tail)
    done
qed

text \<open>The container of a command job: its log, and the exit code Docker reported for it.\<close>

lemma run_command_steps:
  assumes "run_command E config spec res d w = (Inr r, w')"
  obtains i items l u v dir network started x and info :: container_info where
    "responded (o_logs E) (ContainerLogs i) items (trace w) (trace w')"
    and "follow_logs E (max_log_bytes (rc_limits config)) i empty_run_log items u = (Inr l, v)"
    and "responded (o_inspect E) (InspectContainer i) (Inr info) (trace w) (trace w')"
    and "job_container_created E i (trace w) (trace w')"
    and "finish_command E config spec d dir network i started l
           (case ci_exit_code info of Some c \<Rightarrow> c | None \<Rightarrow> - 1) x = (Inr r, w')"
proof -
  from assms obtain prepared w1 network w2 start w3 items w4 l w5 status w6
    where steps: "prepare_job E config spec d w = (Inr prepared, w1)"
      "create_job_network E config spec w1 = (Inr network, w2)"
      "start_command_container E config spec res (pw_dir prepared) network w2 = (Inr start, w3)"
    and logs: "ask (o_logs E) (ContainerLogs (fst start)) w3 = (Inr items, w4)"
    and follow: "follow_logs E (max_log_bytes (rc_limits config)) (fst start) empty_run_log items w4 = (Inr l, w5)"
    and status: "exit_status E (fst start) (snd network) w5 = (Inr status, w6)"
    and finish: "finish_command E config spec d (pw_dir prepared) (snd network) (fst start) (snd start) l status w6 = (Inr r, w')"
    unfolding run_command_def split_beta by (elim and_then_okE) blast
  let ?i = "fst start" and ?started = "snd start"
  let ?P = "run_call True (\<lambda>_. True) (\<lambda>_. True)"
  note trans = prefix_order.trans
  have start: "makes ?P (start_command_container E config spec res (pw_dir prepared) network)"
    unfolding start_command_container_def by (intro makes_intros) simp_all
  have "makes ?P (finish_command E config spec d (pw_dir prepared) (snd network) ?i ?started l status)"
    unfolding finish_command_def by (intro makes_intros command_steps_run) simp_all
  from makes_prefix [OF this finish] have after: "prefix (trace w6) (trace w')" .
  have before: "prefix (trace w) (trace w3)"
    using makes_prefix [OF prepare_job_run steps(1)] makes_prefix [OF any_network steps(2)] makes_prefix [OF start steps(3)]
    by (meson trans)
  have middle: "prefix (trace w4) (trace w5)" by (rule makes_prefix [OF follow_logs_run follow])
  obtain info where info: "invoke (o_inspect E) (InspectContainer ?i) w5 = (Inr info, w6)"
    and code: "status = (case ci_exit_code info of Some c \<Rightarrow> c | None \<Rightarrow> - 1)"
    using status by (auto simp: exit_status_def match_op_def ignore_def and_then_def fail_def ret_def
        split: prod.splits sum.splits)
  have shown: "responded (o_logs E) (ContainerLogs ?i) items (trace w3) (trace w4)"
    using logs by (auto simp: responded_def ask_ok intro: exI [of _ "trace w3"])
  have w6: "prefix (trace w5) (trace w6)" using info by (simp add: invoke_iff)
  have w4: "prefix (trace w3) (trace w4)" using logs by (simp add: ask_ok)
  have "prefix (trace w) (trace w2)"
    using makes_prefix [OF prepare_job_run steps(1)] makes_prefix [OF any_network steps(2)] by (meson trans)
  moreover have "prefix (trace w3) (trace w')" using w4 middle w6 after by (meson trans)
  ultimately have created: "job_container_created E ?i (trace w) (trace w')"
    by (rule created_mono [OF start_command_created [OF steps(3)]])
  show thesis
    using that [OF responded_mono [OF shown before] follow responded_mono [OF responded_invoke [OF info]] created finish [unfolded code]]
      before middle after w6 w4 by (meson trans)
qed

lemma run_exited_zero:
  assumes "run E config spec w = (Inr r, w')" and "js_workflow spec = None" and "jr_status r = ''completed''"
  shows "(\<exists>info. responded (o_inspect E) (InspectContainer (sb_container_id (jr_sandbox r))) (Inr info) (trace w) (trace w') \<and>
      ci_exit_code info = Some 0) \<and>
    job_container_created E (sb_container_id (jr_sandbox r)) (trace w) (trace w')"
  using assms(1)
proof (cases rule: run_unfold)
  case (2 res now u)
  from 2(3) assms(2) have "run_command E config spec res (now + 1000 * unat (timeout_seconds res)) u = (Inr r, w')" by simp
  then obtain i l dir network started x and info :: container_info where
    info: "responded (o_inspect E) (InspectContainer i) (Inr info) (trace u) (trace w')"
    and created: "job_container_created E i (trace u) (trace w')"
    and finish: "finish_command E config spec (now + 1000 * unat (timeout_seconds res)) dir network i started l
           (case ci_exit_code info of Some c \<Rightarrow> c | None \<Rightarrow> - 1) x = (Inr r, w')" by (rule run_command_steps) blast
  from yieldsD [OF finish_command_result finish] assms(3) have "sb_container_id (jr_sandbox r) = i" "ci_exit_code info = Some 0"
    by (auto split: option.splits)
  moreover have "prefix (trace w) (trace u)" by (simp add: 2(2) begin_log_stream_def set_log_phase_def)
  ultimately show ?thesis using responded_mono [OF info] created_mono [OF created] by auto
qed simp

section \<open>Completed runs\<close>

lemma run_verified:
  assumes "lasting_cancellation E" and "run E config spec w = (Inr r, w')"
    and "js_workflow spec = Some workflow" and "jr_status r = ''completed''"
  shows "passed_in_order E (sb_container_id (jr_sandbox r))
    (wf_setup workflow @ option_list (wf_initialize workflow) @ [wf_agent workflow] @
     map verifier_command (filter vs_required (wf_verifiers workflow)) @
     mandatory_verifiers (rc_security config) @ option_list (wf_publish workflow)) (trace w) (trace w')"
  using assms(2)
proof (cases rule: run_unfold)
  case (2 res now u)
  from 2(3) assms(3) have "run_workflow E config spec workflow res (now + 1000 * unat (timeout_seconds res)) u = (Inr r, w')"
    by simp
  from run_workflow_passed [OF assms(1) this assms(4), THEN conjunct1]
  have "passed_in_order E (sb_container_id (jr_sandbox r)) (workflow_commands config workflow) (trace u) (trace w')" .
  moreover have "prefix (trace w) (trace u)" by (simp add: 2(2) begin_log_stream_def set_log_phase_def)
  ultimately show ?thesis
    using passed_earlier unfolding workflow_commands_def iteration_commands_def by blast
qed simp

lemma run_created:
  assumes "lasting_cancellation E" and "run E config spec w = (Inr r, w')" and "jr_status r = ''completed''"
  shows "job_container_created E (sb_container_id (jr_sandbox r)) (trace w) (trace w')"
proof (cases "js_workflow spec")
  case None
  with run_exited_zero assms show ?thesis by blast
next
  case (Some workflow)
  from assms(2) show ?thesis
  proof (cases rule: run_unfold)
    case (2 res now u)
    from 2(3) Some have "run_workflow E config spec workflow res (now + 1000 * unat (timeout_seconds res)) u = (Inr r, w')"
      by simp
    from run_workflow_passed [OF assms(1) this assms(3), THEN conjunct2] show ?thesis
      by (rule created_mono) (simp_all add: 2(2) begin_log_stream_def set_log_phase_def)
  qed simp
qed

text \<open>
  C4: A workflow job is reported as completed only if, in the container the result names and
  in this order, every setup command, the initialization if there is one, the agent, every
  required verifier of the job, every mandatory verifier of the runner and the publication if
  there is one were created and Docker reported exit code zero for each of them.
\<close>

theorem completed_workflows_are_verified:
  assumes "lasting_cancellation E" and "run E config spec w = (Inr r, w')"
    and "js_workflow spec = Some workflow" and "jr_status r = ''completed''"
  shows "passed_in_order E (sb_container_id (jr_sandbox r))
    (wf_setup workflow @ option_list (wf_initialize workflow) @ [wf_agent workflow] @
     map verifier_command (filter vs_required (wf_verifiers workflow)) @
     mandatory_verifiers (rc_security config) @ option_list (wf_publish workflow)) (trace w) (trace w')"
  using assms by (rule run_verified)

theorem completed_workflows_are_verified_witness:
  "passed_in_order sample_docker ''c1'' [wf_agent sample_workflow, sample_check] [] sample_workflow_trace"
proof -
  have "lasting_cancellation sample_docker" by (simp add: lasting_cancellation_def)
  from completed_workflows_are_verified [OF this sample_workflow_run] show ?thesis
    by (simp add: sample_result_def sample_world_def sample_workflow_def option_list_def verifier_command_def
        sample_check_def sample_config_def)
qed

end
