(* ===== verification/Docker_Output.thy ===== *)
theory Docker_Output
  imports Docker_Verdict
begin

text \<open>
  The output and the loops of the executor: how log chunks are numbered, what is kept of the
  output of a command, and why the health checks end.
\<close>

section \<open>Sequence numbers\<close>

definition sent_of :: "call \<Rightarrow> log_chunk option" where
  "sent_of c = (case c of TrySend chunk \<Rightarrow> Some chunk | _ \<Rightarrow> None)"

lemma numbered_sent:
  "numbered s cs s' \<Longrightarrow>
     map lc_sequence (List.map_filter sent_of cs) =
       map (\<lambda>k. s + of_nat k) [1..<Suc (length (List.map_filter sent_of cs))]"
proof (induction s cs s' rule: numbered.induct)
  case (2 s chunk cs s')
  have "[1..<Suc (Suc n)] = 1 # map Suc [1..<Suc n]" for n
    by (simp add: map_Suc_upt upt_conv_Cons del: upt_Suc)
  with 2 show ?case by (simp add: sent_of_def map_filter_simps add.assoc del: upt_Suc)
qed (simp_all add: sent_of_def map_filter_simps del: upt_Suc)

lemma run_numbers:
  assumes "run E config spec w = (r, w')"
  shows "\<exists>s'. numbered 0 (new_calls w w') s'"
  using assms
proof (cases rule: run_unfold)
  case (2 res now u)
  have "stepped (run_call True (\<lambda>_. True) (\<lambda>_. True)) u w'"
    using 2(3) makesD [OF run_workflow_run] makesD [OF run_command_run]
    by (simp split: option.splits)
  then obtain cs where "trace w' = trace u @ cs" "numbered (ls_sequence (w_log u)) cs (ls_sequence (w_log w'))"
    by (auto simp: stepped_def)
  then show ?thesis by (auto simp: 2(2) begin_log_stream_def set_log_phase_def)
qed simp

text \<open>
  C23: The log chunks a run hands to the channel, in the order it sends them and over all phases
  and both streams, carry the sequence numbers one, two, three and so on without a gap (as
  64-bit numbers), whether the run succeeds or fails, so a receiver can tell a dropped chunk
  from a missing one.
\<close>

theorem log_chunks_are_numbered:
  assumes "run E config spec w = (r, w')"
  shows "\<exists>n. map lc_sequence (List.map_filter sent_of (new_calls w w')) = map of_nat [1..<Suc n]"
  using run_numbers [OF assms] numbered_sent by fastforce

text \<open>The sample command job once more, on an executor that streams its log.\<close>

definition sample_chunk :: log_chunk where
  "sample_chunk = \<lparr> lc_attempt = js_attempt sample_command_job, lc_sequence = 1, lc_stream = ''stdout'', lc_phase = ''command'',
     lc_level = Some ''info'', lc_message = from_utf8_lossy ''done'' \<rparr>"

lemma sample_sending:
  assumes "w_log w = (fresh_log True)\<lparr> ls_context := Some (js_id sample_command_job, js_attempt sample_command_job, ''command'') \<rparr>"
  shows "follow_logs sample_docker (max_log_bytes (rc_limits sample_config)) ''c1'' empty_run_log [Ready (Inr (StdOut ''done''))] w =
     (Inr (empty_run_log\<lparr> rl_bytes := 4, rl_stdout := ''done'' \<rparr>),
      w\<lparr> trace := trace w @ [TrySend sample_chunk], w_log := (w_log w)\<lparr> ls_sequence := 1 \<rparr> \<rparr>)"
proof -
  have "o_send sample_docker h = SentOk" for h by (simp add: sample_docker_def sample_outside_def)
  moreover have "chunks 65536 ''done'' = [''done'']" by (simp add: chunks.simps)
  ultimately show ?thesis
    by (simp add: log_item_def accepted_def sample_ops empty_run_log_def sample_config_def default_local_def emit_log_def
        send_chunk_def assms fresh_log_def sample_chunk_def)
qed

lemma sample_sending_run:
  "\<exists>w'. run sample_docker sample_config sample_command_job (sample_world\<lparr> w_log := fresh_log True \<rparr>) =
     (Inr (sample_result sample_command_job ''done''), w') \<and> trace w' = take 18 sample_command_trace @ [TrySend sample_chunk] @ drop 18 sample_command_trace"
proof -
  have "exit_status sample_docker ''c1'' None w = (Inr 0, with_calls w [InspectContainer ''c1''])" for w
    by (simp add: exit_status_def sample_ops)
  then show ?thesis
    unfolding run_def run_command_def
    by (simp add: begin_log_stream_def set_log_phase_def sample_world_def fresh_log_def sample_ops sample_admitted
        sample_timeout sample_prepare_job sample_network sample_start sample_sending sample_finish_command
        sample_command_trace_def del: follow_logs.simps)
qed

theorem log_chunks_are_numbered_witness:
  "\<exists>n. map lc_sequence (List.map_filter sent_of
     (take 18 sample_command_trace @ [TrySend sample_chunk] @ drop 18 sample_command_trace)) = map of_nat [1..<Suc n]"
proof -
  from sample_sending_run obtain w' where
    "run sample_docker sample_config sample_command_job (sample_world\<lparr> w_log := fresh_log True \<rparr>) = (Inr (sample_result sample_command_job ''done''), w')"
    and "trace w' = take 18 sample_command_trace @ [TrySend sample_chunk] @ drop 18 sample_command_trace" by blast
  with log_chunks_are_numbered [OF this(1)] show ?thesis by (simp add: sample_world_def)
qed

section \<open>The output kept of a command\<close>

fun stdout_of :: "log_output result selected list \<Rightarrow> string" where
  "stdout_of (Ready (Inr (StdOut m)) # items) = m @ stdout_of items"
| "stdout_of (Ready (Inr _) # items) = stdout_of items"
| "stdout_of _ = []"

fun stderr_of :: "log_output result selected list \<Rightarrow> string" where
  "stderr_of (Ready (Inr (StdErr m)) # items) = m @ stderr_of items"
| "stderr_of (Ready (Inr _) # items) = stderr_of items"
| "stderr_of _ = []"

definition counted :: "u64 \<Rightarrow> run_log \<Rightarrow> bool" where
  "counted limit l \<longleftrightarrow> unat (rl_bytes l) = length (rl_stdout l) + length (rl_stderr l) \<and> rl_bytes l \<le> limit"

text \<open>What one message does: it fits, it is cut so that the limit is reached, or it is dropped.\<close>

lemma log_item_cases:
  assumes "log_item E limit stream push l m w = (Inr l', w')" and "rl_bytes l \<le> limit"
  obtains (fits) "l' = (push m l)\<lparr> rl_bytes := rl_bytes l + of_nat (length m), rl_truncated := rl_truncated l \<rparr>"
      "unat (rl_bytes l + of_nat (length m)) = unat (rl_bytes l) + length m" "rl_bytes l + of_nat (length m) \<le> limit"
  | (cut) n where "l' = (push (take n m) l)\<lparr> rl_bytes := limit, rl_truncated := True \<rparr>"
      "unat limit = unat (rl_bytes l) + n" "n < length m"
  | (full) "l' = l\<lparr> rl_truncated := True \<rparr>" "rl_bytes l = limit"
proof (cases "rl_bytes l < limit")
  case True
  define n where "n = accepted limit l m"
  have l': "l' = (push (take n m) l)\<lparr> rl_bytes := rl_bytes l + of_nat n, rl_truncated := (rl_truncated l \<or> n < length m) \<rparr>"
    using assms(1) True by (auto simp: log_item_def Let_def and_then_ok ret_def n_def)
  have n: "n = min (length m) (unat limit - unat (rl_bytes l))"
    using unat_sub [of "rl_bytes l" limit] True by (simp add: n_def accepted_def less_imp_le)
  have "unat limit < 2 ^ 64" using unsigned_less [of limit] by simp
  with n have sum: "unat (rl_bytes l + of_nat n) = unat (rl_bytes l) + n"
    using True by (simp add: unat_word_ariths unsigned_of_nat take_bit_nat_eq_self word_less_nat_alt min_def)
  show thesis
  proof (cases "n = length m")
    case eq: True
    with n True have "unat (rl_bytes l + of_nat n) \<le> unat limit" unfolding sum by (simp add: word_less_nat_alt)
    with fits l' sum eq show thesis by (simp add: word_le_nat_alt)
  next
    case False
    with n have less: "n < length m" and "n = unat limit - unat (rl_bytes l)" by (auto simp: min_def split: if_splits)
    with True have total: "unat limit = unat (rl_bytes l) + n" by (simp add: word_less_nat_alt)
    with sum have "rl_bytes l + of_nat n = limit" by (simp only: word_unat_eq_iff)
    with cut [OF _ total less] l' less show thesis by simp
  qed
next
  case False
  with assms full show thesis by (auto simp: log_item_def ret_def)
qed

lemma follow_logs_full:
  assumes "follow_logs E limit i l items w = (Inr l', w')" and "rl_bytes l = limit"
  shows "rl_stdout l' = rl_stdout l \<and> rl_stderr l' = rl_stderr l \<and> rl_bytes l' = limit \<and> (rl_truncated l \<longrightarrow> rl_truncated l')"
  using assms
proof (induction items arbitrary: l w)
  case (Cons item items)
  from Cons.prems(2) have full: "log_item E limit s p l m w = (Inr (l\<lparr> rl_truncated := True \<rparr>), w)" for s p m
    by (simp add: log_item_def ret_def)
  from Cons show ?case
    by (auto simp: and_then_def full ret_def fail_def ignore_def split: selected.splits sum.splits log_output.splits)
qed (simp add: ret_def)

definition kept :: "log_output result selected list \<Rightarrow> run_log \<Rightarrow> run_log \<Rightarrow> bool" where
  "kept items l l' \<longleftrightarrow> (\<exists>a b. rl_stdout l' = rl_stdout l @ a \<and> prefix a (stdout_of items) \<and>
     rl_stderr l' = rl_stderr l @ b \<and> prefix b (stderr_of items) \<and>
     (rl_truncated l' \<or> \<not> rl_truncated l \<and> a = stdout_of items \<and> b = stderr_of items))"

text \<open>A message and what follows it, for each stream.\<close>

lemma stdout_message_kept:
  assumes item: "log_item E limit stream (\<lambda>m l. l\<lparr> rl_stdout := rl_stdout l @ m \<rparr>) l m w = (Inr l1, u)"
    and rest: "follow_logs E limit i l1 items u = (Inr l', w')" and l: "counted limit l"
    and IH: "counted limit l1 \<Longrightarrow> counted limit l' \<and> kept items l1 l'"
  shows "counted limit l' \<and> kept (Ready (Inr (StdOut m)) # items) l l'"
proof -
  from l have le: "rl_bytes l \<le> limit" by (simp add: counted_def)
  show ?thesis
  proof (cases rule: log_item_cases [OF item le])
    case 1
    with IH l show ?thesis by (auto simp: counted_def kept_def)
  next
    case (2 n)
    with follow_logs_full [OF rest] l show ?thesis
      by (auto simp: counted_def kept_def prefix_def) (metis append.assoc append_take_drop_id)
  next
    case 3
    with follow_logs_full [OF rest] l show ?thesis by (auto simp: counted_def kept_def)
  qed
qed

lemma stderr_message_kept:
  assumes item: "log_item E limit stream (\<lambda>m l. l\<lparr> rl_stderr := rl_stderr l @ m \<rparr>) l m w = (Inr l1, u)"
    and rest: "follow_logs E limit i l1 items u = (Inr l', w')" and l: "counted limit l"
    and IH: "counted limit l1 \<Longrightarrow> counted limit l' \<and> kept items l1 l'"
  shows "counted limit l' \<and> kept (Ready (Inr (StdErr m)) # items) l l'"
proof -
  from l have le: "rl_bytes l \<le> limit" by (simp add: counted_def)
  show ?thesis
  proof (cases rule: log_item_cases [OF item le])
    case 1
    with IH l show ?thesis by (auto simp: counted_def kept_def)
  next
    case (2 n)
    with follow_logs_full [OF rest] l show ?thesis
      by (auto simp: counted_def kept_def prefix_def) (metis append.assoc append_take_drop_id)
  next
    case 3
    with follow_logs_full [OF rest] l show ?thesis by (auto simp: counted_def kept_def)
  qed
qed

lemma kept_nothing:
  "counted limit l \<Longrightarrow> rl_stdout l' = rl_stdout l \<Longrightarrow> rl_stderr l' = rl_stderr l \<Longrightarrow> rl_bytes l' = rl_bytes l \<Longrightarrow>
   rl_truncated l' = rl_truncated l \<Longrightarrow> stdout_of items = [] \<Longrightarrow> stderr_of items = [] \<Longrightarrow> counted limit l' \<and> kept items l l'"
  by (auto simp: counted_def kept_def)

lemma follow_logs_kept:
  assumes "follow_logs E limit i l items w = (Inr l', w')" and "counted limit l"
  shows "counted limit l' \<and> kept items l l'"
  using assms
proof (induction items arbitrary: l w)
  case (Cons item items)
  consider (stop) "item = CancelledFirst \<or> item = DeadlineFirst" | (failed) e where "item = Ready (Inl e)"
    | (out) m where "item = Ready (Inr (StdOut m))" | (err) m where "item = Ready (Inr (StdErr m))"
    | (other) "item = Ready (Inr OtherOutput)"
    by (metis log_output.exhaust selected.exhaust sum.exhaust)
  then show ?case
  proof cases
    case stop
    with Cons.prems show ?thesis by (intro kept_nothing) (auto simp: and_then_ok ignore_def ret_def)
  next
    case failed
    with Cons.prems(1) show ?thesis by (simp add: fail_def)
  next
    case out
    with Cons.prems obtain l1 u where
      "log_item E limit ''stdout'' (\<lambda>m l. l\<lparr> rl_stdout := rl_stdout l @ m \<rparr>) l m w = (Inr l1, u)"
      "follow_logs E limit i l1 items u = (Inr l', w')" by (auto simp: and_then_ok)
    from stdout_message_kept [OF this Cons.prems(2) Cons.IH [OF this(2)]] out show ?thesis by simp
  next
    case err
    with Cons.prems obtain l1 u where
      "log_item E limit ''stderr'' (\<lambda>m l. l\<lparr> rl_stderr := rl_stderr l @ m \<rparr>) l m w = (Inr l1, u)"
      "follow_logs E limit i l1 items u = (Inr l', w')" by (auto simp: and_then_ok)
    from stderr_message_kept [OF this Cons.prems(2) Cons.IH [OF this(2)]] err show ?thesis by simp
  next
    case other
    with Cons.IH [of l w] Cons.prems show ?thesis by (simp add: kept_def)
  qed
qed (auto simp: ret_def kept_def)

text \<open>
  C24: The result of a command job shows what Docker streamed as the log of the container that
  the result names. What it keeps of the two streams fits into the configured log limit, both
  together, and is an initial part of each; and unless the result says that its log is
  truncated it is all that came before the end of the stream or the stop of the job. The only
  text that is added is one line at the end of stderr for a failed publication of the
  workspace, in a result that is failed; it does not count against the limit. (Both streams are
  decoded with replacement of invalid UTF-8.)
\<close>

theorem command_output_is_bounded:
  assumes "run E config spec w = (Inr r, w')" and "js_workflow spec = None"
  shows "\<exists>items out err note.
    responded (o_logs E) (ContainerLogs (sb_container_id (jr_sandbox r))) items (trace w) (trace w') \<and>
    jr_stdout r = from_utf8_lossy out \<and> jr_stderr r = from_utf8_lossy (err @ note) \<and>
    length out + length err \<le> unat (max_log_bytes (rc_limits config)) \<and>
    prefix out (stdout_of items) \<and> prefix err (stderr_of items) \<and>
    (\<not> jr_log_truncated r \<longrightarrow> out = stdout_of items \<and> err = stderr_of items) \<and>
    (note = [] \<or> jr_status r = ''failed'' \<and> (\<exists>e. note = ''git publish failed: '' @ error_to_string e @ nl))"
  using assms(1)
proof (cases rule: run_unfold)
  case (2 res now u)
  let ?limit = "max_log_bytes (rc_limits config)"
  from 2(3) assms(2) have "run_command E config spec res (now + 1000 * unat (timeout_seconds res)) u = (Inr r, w')" by simp
  then obtain i items l v v' dir network started x and info :: container_info where
    logs: "responded (o_logs E) (ContainerLogs i) items (trace u) (trace w')"
    and follow: "follow_logs E ?limit i empty_run_log items v = (Inr l, v')"
    and finish: "finish_command E config spec (now + 1000 * unat (timeout_seconds res)) dir network i started l
           (case ci_exit_code info of Some c \<Rightarrow> c | None \<Rightarrow> - 1) x = (Inr r, w')" by (rule run_command_steps) blast
  have "counted ?limit empty_run_log" by (simp add: counted_def empty_run_log_def)
  from follow_logs_kept [OF follow this] have kept: "length (rl_stdout l) + length (rl_stderr l) \<le> unat ?limit"
    "prefix (rl_stdout l) (stdout_of items)" "prefix (rl_stderr l) (stderr_of items)"
    "\<not> rl_truncated l \<longrightarrow> rl_stdout l = stdout_of items \<and> rl_stderr l = stderr_of items"
    by (auto simp: counted_def kept_def empty_run_log_def word_le_nat_alt)
  have "prefix (trace w) (trace u)" by (simp add: 2(2) begin_log_stream_def set_log_phase_def)
  then have "responded (o_logs E) (ContainerLogs i) items (trace w) (trace w')"
    by (rule responded_mono [OF logs]) simp
  with yieldsD [OF finish_command_result finish] kept show ?thesis
    unfolding publish_note_def by metis
qed simp

theorem command_output_is_bounded_witness:
  "\<exists>items out err. responded (o_logs sample_docker) (ContainerLogs ''c1'') items [] sample_command_trace \<and>
     from_utf8_lossy ''done'' = from_utf8_lossy out \<and> out = stdout_of items \<and> err = stderr_of items"
  using command_output_is_bounded [OF sample_command_run]
  by (auto simp: sample_world_def sample_result_def)

section \<open>Health checks end\<close>

text \<open>A clock that never goes back and advances by at least the time slept.\<close>

definition steady_clock :: "outside \<Rightarrow> bool" where
  "steady_clock E \<longleftrightarrow> (\<forall>h h'. prefix h h' \<longrightarrow> o_now E h \<le> o_now E h') \<and> (\<forall>h n. o_now E h + n \<le> o_now E (h @ [Sleep n]))"

lemma health_loop_cong:
  assumes "\<And>u. prefix (trace w) (trace u) \<Longrightarrow> \<not> limit \<le> o_now E (trace u @ [Now]) \<Longrightarrow>
      health_loop E config ids name cmd i d limit n (with_calls u [Now, Sleep 500]) =
      health_loop E config ids name cmd i d limit m (with_calls u [Now, Sleep 500])"
  shows "health_loop E config ids name cmd i d limit (Suc n) w = health_loop E config ids name cmd i d limit (Suc m) w"
proof -
  let ?exec = "exec_command E config i \<lparr> cs_command = cmd, cs_working_directory = None \<rparr> (min d limit)"
  obtain r u where exec: "?exec w = (r, u)" by (cases "?exec w")
  have "prefix (trace w) (trace u)" by (rule makes_prefix [OF exec_command_makes exec])
  with assms [of u] exec show ?thesis
    by (cases r) (auto simp: and_then_def ask_def Let_def split: option.splits)
qed

lemma health_loop_stable:
  assumes clock: "steady_clock E" and "limit \<le> o_now E (trace w) + 500 * m" and "m < n"
  shows "health_loop E config ids name cmd i d limit n w = health_loop E config ids name cmd i d limit (Suc m) w"
  using assms(2,3)
proof (induction m arbitrary: n w)
  case 0
  then obtain n' where n: "n = Suc n'" by (cases n) auto
  have "o_now E (trace w) \<le> o_now E (trace u @ [Now])" if "prefix (trace w) (trace u)" for u :: world
    using clock prefix_order.trans [OF that, of "trace u @ [Now]"] unfolding steady_clock_def by (metis prefixI)
  with 0 show ?case unfolding n by (intro health_loop_cong) fastforce
next
  case (Suc m)
  then obtain n' where n: "n = Suc n'" and less: "m < n'" by (cases n) auto
  have "limit \<le> o_now E (trace u @ [Now, Sleep 500]) + 500 * m" if "prefix (trace w) (trace u)" for u :: world
  proof -
    have "o_now E (trace w) \<le> o_now E (trace u @ [Now])"
      using clock prefix_order.trans [OF that, of "trace u @ [Now]"] unfolding steady_clock_def by (metis prefixI)
    also have "\<dots> + 500 \<le> o_now E ((trace u @ [Now]) @ [Sleep 500])"
      using clock unfolding steady_clock_def by blast
    finally show ?thesis using Suc.prems(1) by simp
  qed
  then have "health_loop E config ids name cmd i d limit n' (with_calls u [Now, Sleep 500]) =
      health_loop E config ids name cmd i d limit (Suc m) (with_calls u [Now, Sleep 500])"
    if "prefix (trace w) (trace u)" for u
    using Suc.IH [of "with_calls u [Now, Sleep 500]" n'] that less by simp
  then show ?case unfolding n by (rule health_loop_cong)
qed

text \<open>
  C25: The polling loop of a health check ends: with a clock that advances at least as far as
  the loop sleeps, \<open>2 * timeout + 1\<close> attempts from the moment the deadline is set are enough, and
  allowing more changes nothing, neither the result nor a single call.
\<close>

theorem health_checks_end:
  assumes "steady_clock E" and "health_fuel timeout \<le> n"
  shows "health_loop E config ids name cmd container deadline (o_now E (trace w) + 1000 * unat timeout) n w =
    health_loop E config ids name cmd container deadline (o_now E (trace w) + 1000 * unat timeout) (health_fuel timeout) w"
  using health_loop_stable [OF assms(1), of "o_now E (trace w) + 1000 * unat timeout" w "2 * unat timeout" n] assms(2)
  by (simp add: health_fuel_def)

definition sample_clock :: "history \<Rightarrow> nat" where
  "sample_clock h = sum_list (map (\<lambda>c. case c of Sleep n \<Rightarrow> n | _ \<Rightarrow> 0) h)"

theorem health_checks_end_witness:
  "health_loop (sample_docker\<lparr> o_now := sample_clock \<rparr>) sample_config [] ''db'' [''ping''] ''c1'' 60000 30000 100 sample_world =
   health_loop (sample_docker\<lparr> o_now := sample_clock \<rparr>) sample_config [] ''db'' [''ping''] ''c1'' 60000 30000 61 sample_world"
proof -
  have "steady_clock (sample_docker\<lparr> o_now := sample_clock \<rparr>)"
    by (auto simp: steady_clock_def sample_clock_def prefix_def)
  from health_checks_end [OF this, of 30 100 sample_config _ _ _ _ _ sample_world] show ?thesis
    by (simp add: health_fuel_def sample_world_def sample_clock_def)
qed

end
