(* ===== verification/Docker_Cleanup.thy ===== *)
theory Docker_Cleanup
  imports Docker_Output
begin

text \<open>
  What the manual cleanup of \<^verbatim>\<open>crates/executor-docker/src/lib.rs\<close> removes and what it writes to
  the journal. The calls of the two removal loops are given exactly, as a function of the
  lists Docker returns.
\<close>

section \<open>Removal\<close>

definition container_active :: "container_summary \<Rightarrow> bool" where
  "container_active c = (cs_state c = Some ''running'')"

definition network_active :: "network_summary \<Rightarrow> bool" where
  "network_active n = (ns_containers n \<notin> {None, Some []})"

definition stale_containers :: "container_summary list \<Rightarrow> string list" where
  "stale_containers cs = List.map_filter cs_id (filter (Not \<circ> container_active) cs)"

definition stale_networks :: "network_summary list \<Rightarrow> string list" where
  "stale_networks ns = List.map_filter ns_id (filter (Not \<circ> network_active) ns)"

lemma in_map_filter: "x \<in> set (List.map_filter f ys) \<longleftrightarrow> (\<exists>y \<in> set ys. f y = Some x)"
  by (force simp: map_filter_def)

text \<open>Every one of these calls was answered with success.\<close>

fun all_removed :: "outside \<Rightarrow> history \<Rightarrow> call list \<Rightarrow> bool" where
  "all_removed E h [] = True"
| "all_removed E h (c # cs) \<longleftrightarrow> is_ok (o_unit E (h @ [c])) \<and> all_removed E (h @ [c]) cs"

lemma keep_error_invoke:
  "\<exists>err'. keep_error (invoke (o_unit E) c) err w = (Inr err', with_calls w [c]) \<and>
     (err' = None \<longleftrightarrow> err = None \<and> is_ok (o_unit E (trace w @ [c])))"
  by (cases "o_unit E (trace w @ [c])")
     (auto simp: keep_error_def match_op_def invoke_def Let_def ret_def is_ok_def split: option.splits)

lemma cleanup_containers_run:
  fixes w :: world
  shows "\<exists>err'. cleanup_containers E (err, act) items w =
     (Inr (err', act \<or> list_ex container_active items), with_calls w (map RemoveContainer (stale_containers items))) \<and>
     (err' = None \<longleftrightarrow> err = None \<and> all_removed E (trace w) (map RemoveContainer (stale_containers items)))"
proof (induction items arbitrary: err act w)
  case Nil
  then show ?case by (simp add: ret_def stale_containers_def map_filter_simps)
next
  case (Cons c items)
  show ?case
  proof (cases "container_active c \<or> cs_id c = None")
    case True
    with Cons.IH [of err "act \<or> container_active c" w] show ?thesis
      by (auto simp: container_active_def stale_containers_def map_filter_simps and_then_def ret_def)
  next
    case False
    then obtain i where i: "cs_id c = Some i" "\<not> container_active c" by auto
    obtain err' where err': "keep_error (remove_container E i) err w = (Inr err', with_calls w [RemoveContainer i])"
        "err' = None \<longleftrightarrow> err = None \<and> is_ok (o_unit E (trace w @ [RemoveContainer i]))"
      using keep_error_invoke [of E "RemoveContainer i" err w] by (auto simp: remove_container_def)
    with i Cons.IH [of err' act "with_calls w [RemoveContainer i]"] show ?thesis
      by (auto simp: container_active_def stale_containers_def map_filter_simps and_then_def)
  qed
qed

lemma cleanup_networks_run:
  fixes w :: world
  shows "\<exists>err'. cleanup_networks E (err, act) items w =
     (Inr (err', act \<or> list_ex network_active items), with_calls w (map RemoveNetwork (stale_networks items))) \<and>
     (err' = None \<longleftrightarrow> err = None \<and> all_removed E (trace w) (map RemoveNetwork (stale_networks items)))"
proof (induction items arbitrary: err act w)
  case Nil
  then show ?case by (simp add: ret_def stale_networks_def map_filter_simps)
next
  case (Cons c items)
  show ?case
  proof (cases "network_active c \<or> ns_id c = None")
    case True
    with Cons.IH [of err "act \<or> network_active c" w] show ?thesis
      by (auto simp: network_active_def stale_networks_def map_filter_simps and_then_def ret_def split: option.splits)
  next
    case False
    then obtain i where i: "ns_id c = Some i" "\<not> network_active c" by auto
    obtain err' where err': "keep_error (invoke (o_unit E) (RemoveNetwork i)) err w = (Inr err', with_calls w [RemoveNetwork i])"
        "err' = None \<longleftrightarrow> err = None \<and> is_ok (o_unit E (trace w @ [RemoveNetwork i]))"
      using keep_error_invoke [of E "RemoveNetwork i" err w] by auto
    with i Cons.IH [of err' act "with_calls w [RemoveNetwork i]"] show ?thesis
      by (auto simp: network_active_def stale_networks_def map_filter_simps and_then_def split: option.splits)
  qed
qed

section \<open>Bookkeeping\<close>

definition closing :: "string \<Rightarrow> string" where
  "closing s = (if s \<in> set (''destroyed'' # outcome_names) then s else ''destroyed'')"

lemma journal_transition_state:
  assumes "journal_transition E i a st w = (Inr u, w')"
  shows "job_state (w_journal w') = (job_state (w_journal w))((i, a) \<mapsto> as_str st) \<and>
    completion_outbox (w_journal w') = completion_outbox (w_journal w)"
  using assms
  by (auto simp: journal_transition_def Let_def transition_ok_iff job_state_def upsert_job_states
      split: prod.splits)

lemma close_states:
  assumes "for_each_op ks (\<lambda>(i, a). and_then (journal_transition E i a Destroying)
      (\<lambda>_. journal_transition E i a Destroyed)) w = (Inr u, w')"
  shows "job_state (w_journal w') k = (if k \<in> set ks then Some ''destroyed'' else job_state (w_journal w) k)"
    and "completion_outbox (w_journal w') = completion_outbox (w_journal w)"
  using assms
  by (induction ks arbitrary: w)
     (auto simp: ret_def and_then_ok dest!: journal_transition_state split: if_splits)

lemma unfinished_same: "unfinished f j = (r, j') \<Longrightarrow> j' = j"
  by (auto simp: unfinished_def locked_def split: option.splits if_splits)

lemma unfinished_keys:
  assumes "journal_ok j" and "unfinished f j = (Inr ks, j')"
  shows "j' = j" "k \<in> set ks \<longleftrightarrow> (\<exists>s. job_state j k = Some s \<and> s \<notin> set (''destroyed'' # outcome_names))"
proof -
  let ?open = "\<lambda>r. jw_state r \<notin> set (''destroyed'' # outcome_names)"
  have keys: "job_state j k = Some s \<longleftrightarrow> (\<exists>r \<in> set (jobs j). jw_key r = k \<and> jw_state r = s)" for s
    unfolding job_state_def using assms(1) by (subst map_of_eq_Some_iff) (auto simp: journal_ok_def comp_def)
  have "j' = j \<and> ks = map jw_key (filter ?open (jobs j))"
    using assms(2) by (auto simp: unfinished_def locked_def outcome_names_def jw_key_def split: option.splits if_splits)
  with keys show "j' = j"
    and "k \<in> set ks \<longleftrightarrow> (\<exists>s. job_state j k = Some s \<and> s \<notin> set (''destroyed'' # outcome_names))"
    by (blast, force)
qed

text \<open>Closing brings every attempt without an outcome to destroyed and leaves the others and the outbox alone.\<close>

lemma close_unfinished_states:
  assumes "close_unfinished E w = (Inr u, w')"
  shows "journal_ok (w_journal w) \<Longrightarrow> job_state (w_journal w') k = map_option closing (job_state (w_journal w) k)"
    and "completion_outbox (w_journal w') = completion_outbox (w_journal w)"
proof -
  obtain ks v where ks: "journal_unfinished E w = (Inr ks, v)"
    and loop: "for_each_op ks (\<lambda>(i, a). and_then (journal_transition E i a Destroying)
        (\<lambda>_. journal_transition E i a Destroyed)) v = (Inr u, w')"
    using assms(1) by (auto simp: close_unfinished_def and_then_ok)
  then have "unfinished (o_faults E (trace w @ [ReadUnfinished])) (w_journal w) = (Inr ks, w_journal v)"
    by (auto simp: journal_unfinished_def Let_def split: prod.splits)
  note same = unfinished_same [OF this] and keys = unfinished_keys(2) [OF _ this]
  show "job_state (w_journal w') k = map_option closing (job_state (w_journal w) k)"
    if "journal_ok (w_journal w)"
    using close_states(1) [OF loop, of k] same keys [OF that, of k]
    by (cases "job_state (w_journal w) k") (auto simp: closing_def)
  show "completion_outbox (w_journal w') = completion_outbox (w_journal w)"
    using close_states(2) [OF loop] same by simp
qed

fun bookkeeping :: "call \<Rightarrow> bool" where
  "bookkeeping ReadUnfinished = True"
| "bookkeeping (Transition i a st) = (st \<in> {Destroying, Destroyed})"
| "bookkeeping _ = False"

lemma journal_unfinished_makes: "P ReadUnfinished \<Longrightarrow> makes P (journal_unfinished E)"
  unfolding makes_def stepped_def
  by (auto simp: journal_unfinished_def Let_def unfinished_def locked_def intro!: exI [of _ "[ReadUnfinished]"]
      split: prod.splits option.splits)

lemma close_unfinished_makes: "makes bookkeeping (close_unfinished E)"
  unfolding close_unfinished_def by (intro makes_intros journal_unfinished_makes) auto

section \<open>Property\<close>

lemma journal_open_same: "journal_open E path w = (r, w') \<Longrightarrow> w' = with_calls w [OpenJournal path]"
  by (auto simp: journal_open_def open_journal_def Let_def split: option.splits)

text \<open>
  C22: Cleanup removes exactly the containers of this runner that Docker lists as not running
  and the networks it lists without containers, each once and in the listed order, whatever
  errors the removals report. Running containers and used networks are left alone, and when
  there is one of them the journal is not touched, so a job in progress keeps its state. A
  cleanup that succeeds was told that every removal succeeded; when nothing was active it has
  brought every attempt without an outcome to destroyed, and the completions that wait for
  delivery are as they were.
\<close>

theorem cleanup_spares_active:
  fixes w :: world
  assumes run: "cleanup E config w = (r, w')"
    and items: "o_containers E (trace w @ [ListContainers (managed_filter config)]) = Inr items"
    and removals: "cs = ListContainers (managed_filter config) # map RemoveContainer (stale_containers items) @
                        [ListNetworks (managed_filter config)]"
    and networks: "o_networks E (trace w @ cs) = Inr nets"
  shows "\<exists>js. trace w' = trace w @ cs @ map RemoveNetwork (stale_networks nets) @ OpenJournal (journal_path config) # js \<and>
      list_all bookkeeping js \<and>
      (list_ex container_active items \<or> list_ex network_active nets \<longrightarrow> js = [] \<and> w_journal w' = w_journal w) \<and>
      (r = Inr () \<longrightarrow>
         all_removed E (trace w @ [ListContainers (managed_filter config)]) (map RemoveContainer (stale_containers items)) \<and>
         all_removed E (trace w @ cs) (map RemoveNetwork (stale_networks nets)) \<and>
         completion_outbox (w_journal w') = completion_outbox (w_journal w) \<and>
         (journal_ok (w_journal w) \<and> \<not> list_ex container_active items \<and> \<not> list_ex network_active nets \<longrightarrow>
           (\<forall>k. job_state (w_journal w') k = map_option closing (job_state (w_journal w) k))))"
proof -
  let ?F = "managed_filter config"
  let ?u = "with_calls w [ListContainers ?F]"
  obtain err1 where c: "cleanup_containers E (None, False) items ?u =
      (Inr (err1, list_ex container_active items), with_calls ?u (map RemoveContainer (stale_containers items)))"
    and err1: "err1 = None \<longleftrightarrow> all_removed E (trace ?u) (map RemoveContainer (stale_containers items))"
    using cleanup_containers_run [of E None False items ?u] by auto
  let ?v = "with_calls w cs"
  obtain err2 where n: "cleanup_networks E (err1, list_ex container_active items) nets ?v =
      (Inr (err2, list_ex container_active items \<or> list_ex network_active nets),
       with_calls ?v (map RemoveNetwork (stale_networks nets)))"
    and err2: "err2 = None \<longleftrightarrow> err1 = None \<and> all_removed E (trace ?v) (map RemoveNetwork (stale_networks nets))"
    using cleanup_networks_run [of E err1 "list_ex container_active items" nets ?v] by auto
  let ?x = "with_calls ?v (map RemoveNetwork (stale_networks nets))"
  obtain o1 y where j: "journal_open E (journal_path config) ?x = (o1, y)" by (cases "journal_open E (journal_path config) ?x")
  note y = journal_open_same [OF j]
  have rest: "(r, w') = (case o1 of Inl e \<Rightarrow> (Inl e, y) | Inr _ \<Rightarrow>
      (case err2 of Some e \<Rightarrow> fail (Bail (''cleanup incomplete: '' @ e))
       | None \<Rightarrow> if \<not> (list_ex container_active items \<or> list_ex network_active nets) then close_unfinished E else ret ()) y)"
    using run items networks c n j
    by (simp add: cleanup_def and_then_def invoke_def Let_def removals append_assoc split: sum.splits)
  show ?thesis
  proof (cases "\<exists>u. o1 = Inr u \<and> err2 = None \<and> \<not> (list_ex container_active items \<or> list_ex network_active nets)")
    case True
    with rest have close: "close_unfinished E y = (r, w')" by auto
    obtain js where js: "trace w' = trace y @ js" "list_all bookkeeping js"
      using makesD [OF close_unfinished_makes close] unfolding stepped_def by blast
    then show ?thesis
      using True err1 err2 y close_unfinished_states [of E y "()" w'] close
      by (intro exI [of _ js]) (auto simp: removals)
  next
    case False
    then have "w' = y" using rest by (auto simp: fail_def ret_def split: sum.splits option.splits if_splits)
    then show ?thesis
      using False rest err1 err2 y
      by (intro exI [of _ "[]"]) (auto simp: removals fail_def ret_def split: sum.splits option.splits if_splits)
  qed
qed

text \<open>One running and one stopped container, and no network.\<close>

theorem cleanup_spares_active_witness:
  "\<exists>js. trace (snd (cleanup (sample_docker\<lparr> o_containers := \<lambda>h. Inr
      [\<lparr> cs_id = Some ''a'', cs_state = Some ''running'' \<rparr>, \<lparr> cs_id = Some ''b'', cs_state = Some ''exited'' \<rparr>],
      o_networks := \<lambda>h. Inr [] \<rparr>) sample_config sample_world)) =
    [ListContainers (managed_filter sample_config), RemoveContainer ''b'', ListNetworks (managed_filter sample_config)] @
    OpenJournal (journal_path sample_config) # js"
  (is "\<exists>js. trace (snd (cleanup ?E _ _)) = _")
proof -
  let ?items = "[\<lparr> cs_id = Some ''a'', cs_state = Some ''running'' \<rparr>, \<lparr> cs_id = Some ''b'', cs_state = Some ''exited'' \<rparr>]"
  have stale: "stale_containers ?items = [''b'']" "stale_networks [] = []" "trace sample_world = []"
    by (simp_all add: stale_containers_def stale_networks_def container_active_def map_filter_simps sample_world_def)
  obtain r w' where run: "cleanup ?E sample_config sample_world = (r, w')"
    by (cases "cleanup ?E sample_config sample_world")
  have "o_containers ?E (trace sample_world @ [ListContainers (managed_filter sample_config)]) = Inr ?items"
    "o_networks ?E (trace sample_world @ ListContainers (managed_filter sample_config) #
        map RemoveContainer (stale_containers ?items) @ [ListNetworks (managed_filter sample_config)]) = Inr []"
    by simp_all
  from cleanup_spares_active [OF run this(1) refl this(2)] run stale show ?thesis by auto
qed

end
