(* ===== verification/Control_Http.thy ===== *)
theory Control_Http
  imports Docker_Cleanup
begin

text \<open>
  The control plane as the daemon sees it (the trait of \<^verbatim>\<open>src/control/mod.rs\<close>) and its HTTP
  implementation (\<^verbatim>\<open>src/control/http.rs\<close>): leases, heartbeats, completions and log chunks.
\<close>

section \<open>The interface\<close>

datatype heartbeat_decision = Continue | Cancel | LeaseLost

record leased_job =
  lj_lease_id :: string
  lj_spec :: job_spec

record 's control_plane =
  cp_lease :: "('s, leased_job option) op"
  cp_heartbeat :: "string \<Rightarrow> ('s, heartbeat_decision) op"
  cp_complete :: "string \<Rightarrow> job_result \<Rightarrow> ('s, unit) op"
  cp_log_chunk :: "string \<Rightarrow> string \<Rightarrow> log_chunk \<Rightarrow> ('s, unit) op"

definition completion_idempotency_key :: "string \<Rightarrow> u32 \<Rightarrow> string" where
  "completion_idempotency_key job_id attempt = job_id @ '':'' @ show_nat (unat attempt)"

section \<open>Decoding answers\<close>

text \<open>
  The derived decoder of a unit-only enum with snake-case names: the name as a string, or an
  object whose only member has that name and the value null.
\<close>

definition decision_named :: "string \<Rightarrow> heartbeat_decision option" where
  "decision_named name =
     (if name = ''continue'' then Some Continue
      else if name = ''cancel'' then Some Cancel
      else if name = ''lease_lost'' then Some LeaseLost
      else None)"

fun decision_of_json :: "json \<Rightarrow> heartbeat_decision option" where
  "decision_of_json (JStr name) = decision_named name"
| "decision_of_json (JObj [(name, JNull)]) = decision_named name"
| "decision_of_json v = None"

text \<open>\<^verbatim>\<open>Deserialize for Lease\<close>: the job is re-serialized and goes through the version dispatch.\<close>

definition lease_of_text :: "outside \<Rightarrow> string \<Rightarrow> leased_job result" where
  "lease_of_text E text =
     bind_result (o_raw_lease E text) (\<lambda>(lease_id, spec).
     bind_result (o_json_text E spec) (\<lambda>document.
     bind_result (from_json (o_parse E) (o_decode_alpha E) (o_decode_beta E) document) (\<lambda>spec.
     Inr \<lparr> lj_lease_id = lease_id, lj_spec = spec \<rparr>)))"

section \<open>Requests\<close>

record http_control_plane =
  hx_base :: string
  hx_token :: string
  hx_runner :: string

definition new_http_plane :: "outside \<Rightarrow> runner_config \<Rightarrow> ('h host_scheme, http_control_plane) op" where
  "new_http_plane E c =
     and_then (invoke (o_unit E) BuildClient) (\<lambda>_.
     and_then (lift (ok_or (rc_server_url c) (Bail ''server_url is required for daemon''))) (\<lambda>base.
     and_then (lift (bind_result (resolve_token (o_env E) c)
                      (\<lambda>token. ok_or token (Bail ''runner_token is required for daemon'')))) (\<lambda>token.
     ret \<lparr> hx_base = base, hx_token = token, hx_runner = rc_runner_id c \<rparr>)))"

definition trim_end_slashes :: "string \<Rightarrow> string" where
  "trim_end_slashes s = rev (dropWhile (\<lambda>c. c = slash) (rev s))"

definition send_authorized ::
  "outside \<Rightarrow> http_control_plane \<Rightarrow> http_request \<Rightarrow> ('h host_scheme, http_response) op" where
  "send_authorized E plane q = invoke (o_http E) (SendRequest
     (q\<lparr> hq_headers := hq_headers q @ [(''authorization'', ''Bearer '' @ hx_token plane)] \<rparr>))"

definition failing_status :: "nat \<Rightarrow> bool" where
  "failing_status status \<longleftrightarrow> 400 \<le> status \<and> status < 600"

definition error_for_status :: "outside \<Rightarrow> http_request \<Rightarrow> http_response \<Rightarrow> http_response result" where
  "error_for_status E q r =
     (if failing_status (hp_status r) then Inl (o_http_error E q (Some (hp_status r))) else Inr r)"

definition json_body :: "outside \<Rightarrow> http_request \<Rightarrow> 'a option \<Rightarrow> 'a result" where
  "json_body E q decoded = ok_or decoded (o_http_error E q None)"

definition request :: "outside \<Rightarrow> http_control_plane \<Rightarrow> http_request \<Rightarrow> ('h host_scheme, http_response) op" where
  "request E plane q = and_then (send_authorized E plane q) (\<lambda>r. lift (error_for_status E q r))"

definition lease_request :: "http_control_plane \<Rightarrow> http_request" where
  "lease_request plane =
     \<lparr> hq_url = trim_end_slashes (hx_base plane) @ ''/v1/runner/lease'', hq_headers = [],
       hq_body = JsonBody (JObj [(''runner_id'', JStr (hx_runner plane))]) \<rparr>"

definition lease :: "outside \<Rightarrow> http_control_plane \<Rightarrow> ('h host_scheme, leased_job option) op" where
  "lease E plane =
     and_then (request E plane (lease_request plane)) (\<lambda>r.
     if hp_status r = 204 then ret None
     else and_then (lift (json_body E (lease_request plane)
            (case lease_of_text E (hp_body r) of Inl _ \<Rightarrow> None | Inr l \<Rightarrow> Some l))) (\<lambda>l.
          ret (Some l)))"

definition complete_request :: "http_control_plane \<Rightarrow> string \<Rightarrow> job_result \<Rightarrow> http_request" where
  "complete_request plane lease_id result =
     \<lparr> hq_url = trim_end_slashes (hx_base plane) @ ''/v1/runner/jobs/'' @ jr_job_id result @ ''/complete'',
       hq_headers =
         [(''x-lease-id'', lease_id),
          (''x-job-attempt'', show_nat (unat (jr_attempt result))),
          (''Idempotency-Key'', completion_idempotency_key (jr_job_id result) (jr_attempt result))],
       hq_body = ResultBody result \<rparr>"

definition complete :: "outside \<Rightarrow> http_control_plane \<Rightarrow> string \<Rightarrow> job_result \<Rightarrow> ('h host_scheme, unit) op" where
  "complete E plane lease_id result =
     and_then (request E plane (complete_request plane lease_id result)) (\<lambda>_. ret ())"

definition heartbeat_request :: "http_control_plane \<Rightarrow> string \<Rightarrow> http_request" where
  "heartbeat_request plane lease_id =
     \<lparr> hq_url = trim_end_slashes (hx_base plane) @ ''/v1/runner/leases/'' @ lease_id @ ''/heartbeat'',
       hq_headers = [(''x-lease-id'', lease_id)], hq_body = EmptyBody \<rparr>"

definition heartbeat :: "outside \<Rightarrow> http_control_plane \<Rightarrow> string \<Rightarrow> ('h host_scheme, heartbeat_decision) op" where
  "heartbeat E plane lease_id =
     (let q = heartbeat_request plane lease_id in
      and_then (send_authorized E plane q) (\<lambda>r.
      if hp_status r = 204 then ret Continue
      else if hp_status r \<in> {409, 410} then ret LeaseLost
      else and_then (lift (error_for_status E q r)) (\<lambda>r.
        lift (json_body E q (case o_parse E (hp_body r) of
            Inl _ \<Rightarrow> None | Inr v \<Rightarrow> decision_of_json v)))))"

definition log_request :: "http_control_plane \<Rightarrow> string \<Rightarrow> string \<Rightarrow> log_chunk \<Rightarrow> http_request" where
  "log_request plane lease_id job_id chunk =
     \<lparr> hq_url = trim_end_slashes (hx_base plane) @ ''/v1/runner/jobs/'' @ job_id @ ''/logs'',
       hq_headers = [(''x-lease-id'', lease_id)], hq_body = ChunkBody chunk \<rparr>"

definition send_log_chunk ::
  "outside \<Rightarrow> http_control_plane \<Rightarrow> string \<Rightarrow> string \<Rightarrow> log_chunk \<Rightarrow> ('h host_scheme, unit) op" where
  "send_log_chunk E plane lease_id job_id chunk =
     and_then (request E plane (log_request plane lease_id job_id chunk)) (\<lambda>_. ret ())"

definition http_plane :: "outside \<Rightarrow> http_control_plane \<Rightarrow> 'h host_scheme control_plane" where
  "http_plane E plane =
     \<lparr> cp_lease = lease E plane, cp_heartbeat = heartbeat E plane, cp_complete = complete E plane,
       cp_log_chunk = send_log_chunk E plane \<rparr>"

lemmas request_defs = request_def send_authorized_def error_for_status_def json_body_def

section \<open>Properties\<close>

lemma last_colon_unique:
  "xs @ CHR '':'' # ys = us @ CHR '':'' # vs \<Longrightarrow> CHR '':'' \<notin> set ys \<Longrightarrow> CHR '':'' \<notin> set vs \<Longrightarrow> xs = us \<and> ys = vs"
  by (induction xs arbitrary: us) (auto simp: Cons_eq_append_conv append_eq_Cons_conv)

text \<open>
  The idempotency key identifies the attempt: two completions carry the same key exactly
  when they are for the same job and the same attempt, whatever characters the job ids hold.
\<close>

theorem idempotency_key_identifies:
  "completion_idempotency_key job_id attempt = completion_idempotency_key job_id' attempt' \<longleftrightarrow>
     job_id = job_id' \<and> attempt = attempt'"
proof -
  have "CHR '':'' \<notin> set (show_nat n)" for n by (rule show_nat_not) simp
  then show ?thesis
    by (auto simp: completion_idempotency_key_def word_unat_eq_iff dest!: last_colon_unique)
qed

text \<open>
  The document of the API description, an object with a member \<open>decision\<close>, does not decode:
  every heartbeat answered with it is an error, whatever the decision is.
\<close>

definition documented_decision :: "outside \<Rightarrow> http_response \<Rightarrow> bool" where
  "documented_decision E r \<longleftrightarrow>
     hp_status r = 200 \<and> (\<exists>d. o_parse E (hp_body r) = Inr (JObj [(''decision'', JStr d)]))"

definition heartbeat_call :: "http_control_plane \<Rightarrow> string \<Rightarrow> call" where
  "heartbeat_call plane lease_id = SendRequest ((heartbeat_request plane lease_id)
     \<lparr> hq_headers := [(''x-lease-id'', lease_id), (''authorization'', ''Bearer '' @ hx_token plane)] \<rparr>)"

lemma heartbeat_documented:
  assumes "o_http E (trace s @ [heartbeat_call plane lease_id]) = Inr r" and "documented_decision E r"
  shows "heartbeat E plane lease_id s =
    (Inl (o_http_error E (heartbeat_request plane lease_id) None), with_calls s [heartbeat_call plane lease_id])"
  using assms
  by (auto simp: heartbeat_def request_defs Let_def and_then_def invoke_def lift_def documented_decision_def
      heartbeat_call_def heartbeat_request_def failing_status_def ok_or_def)

text \<open>What a completion leaves behind when it succeeds: its request was answered without an error status.\<close>

definition complete_call :: "http_control_plane \<Rightarrow> string \<Rightarrow> job_result \<Rightarrow> call" where
  "complete_call plane lease_id result = (let q = complete_request plane lease_id result in
     SendRequest (q\<lparr> hq_headers := hq_headers q @ [(''authorization'', ''Bearer '' @ hx_token plane)] \<rparr>))"

definition http_acknowledged :: "outside \<Rightarrow> http_control_plane \<Rightarrow> history \<Rightarrow> string \<Rightarrow> job_result \<Rightarrow> bool" where
  "http_acknowledged E plane h lease_id result \<longleftrightarrow>
     (\<exists>h0 r. h = h0 @ [complete_call plane lease_id result] \<and> o_http E h = Inr r \<and> \<not> failing_status (hp_status r))"

lemma complete_calls:
  "snd (complete E plane lease_id result s) = with_calls s [complete_call plane lease_id result]"
  by (auto simp: complete_def request_defs and_then_def invoke_def lift_def ret_def complete_call_def Let_def
      split: sum.splits)

lemma complete_acknowledged:
  assumes "complete E plane lease_id result s = (Inr u, t)"
  shows "http_acknowledged E plane (trace t) lease_id result"
proof -
  let ?h = "trace s @ [complete_call plane lease_id result]"
  from assms obtain r where "o_http E ?h = Inr r" "\<not> failing_status (hp_status r)"
    by (auto simp: complete_def request_defs and_then_ok invoke_iff lift_def ret_def complete_call_def Let_def
        split: if_splits dest: sym)
  moreover have "trace t = ?h"
    using complete_calls [of E plane lease_id result s] assms by simp
  ultimately show ?thesis unfolding http_acknowledged_def by auto
qed

end
