(* ===== verification/Daemon.thy ===== *)
theory Daemon
  imports Control_Http
begin

text \<open>
  The daemon of \<^verbatim>\<open>src/control/mod.rs\<close>: the heartbeat and log-upload tasks of a leased job, its
  main task from admission to the delivery of the completion, the replay of completions left
  over by an earlier process, and the leasing loop as a state machine. The executor factory of
  \<^verbatim>\<open>src/executor/mod.rs\<close> is included.
\<close>

section \<open>The heartbeat task\<close>

text \<open>
  One turn of the \<^verbatim>\<open>tokio::select!\<close> loop either sees the token cancelled or, after the interval,
  gets the answer of a heartbeat. The task is run on the turns so far; None means that it is
  still running. In every other case the token is cancelled when it ends.
\<close>

datatype heartbeat_turn = TokenCancelled | Answered "heartbeat_decision result"

definition heartbeat_failure_limit :: nat where
  "heartbeat_failure_limit = 3"

fun heartbeat_task :: "nat \<Rightarrow> heartbeat_turn list \<Rightarrow> heartbeat_decision option" where
  "heartbeat_task failures [] = None"
| "heartbeat_task failures (turn # turns) =
     (case turn of
        TokenCancelled \<Rightarrow> Some Cancel
      | Answered (Inr Continue) \<Rightarrow> heartbeat_task 0 turns
      | Answered (Inr decision) \<Rightarrow> Some decision
      | Answered (Inl e) \<Rightarrow>
          if heartbeat_failure_limit \<le> failures + 1 then Some LeaseLost
          else heartbeat_task (failures + 1) turns)"

section \<open>Bounded attempts\<close>

text \<open>\<^verbatim>\<open>tokio::time::timeout\<close>: None when the time is over first; what was sent stays sent.\<close>

definition timed :: "outside \<Rightarrow> nat \<Rightarrow> ('h host_scheme, 'a) op \<Rightarrow> ('h host_scheme, 'a result option) op" where
  "timed E ms m s = (case m s of (r, t) \<Rightarrow>
     and_then (ask (o_elapsed E) (TimeoutElapsed ms)) (\<lambda>elapsed. ret (if elapsed then None else Some r)) t)"

definition pause_unless_last :: "nat \<Rightarrow> nat \<Rightarrow> ('h host_scheme, unit) op" where
  "pause_unless_last remaining ms = (if 0 < remaining then ask (\<lambda>h. ()) (Sleep ms) else ret ())"

text \<open>The log task: three attempts per chunk, in order; the result says whether a chunk was lost.\<close>

fun upload_chunk ::
  "outside \<Rightarrow> 'h host_scheme control_plane \<Rightarrow> string \<Rightarrow> string \<Rightarrow> log_chunk \<Rightarrow> nat \<Rightarrow> ('h host_scheme, bool) op"
where
  "upload_chunk E plane lease_id job_id chunk 0 = ret False"
| "upload_chunk E plane lease_id job_id chunk (Suc remaining) =
     and_then (timed E 10000 (cp_log_chunk plane lease_id job_id chunk)) (\<lambda>outcome.
     if outcome = Some (Inr ()) then ret True
     else and_then (pause_unless_last remaining 1000) (\<lambda>_.
       upload_chunk E plane lease_id job_id chunk remaining))"

fun upload_logs ::
  "outside \<Rightarrow> 'h host_scheme control_plane \<Rightarrow> string \<Rightarrow> string \<Rightarrow> bool \<Rightarrow> log_chunk list \<Rightarrow> ('h host_scheme, bool) op"
where
  "upload_logs E plane lease_id job_id loss [] = ret loss"
| "upload_logs E plane lease_id job_id loss (chunk # rest) =
     and_then (upload_chunk E plane lease_id job_id chunk 3) (\<lambda>delivered.
     upload_logs E plane lease_id job_id (loss \<or> \<not> delivered) rest)"

section \<open>Running a leased job\<close>

definition failed_result ::
  "outside \<Rightarrow> job_spec \<Rightarrow> failure_kind \<Rightarrow> string \<Rightarrow> string \<Rightarrow> error \<Rightarrow> ('h host_scheme, job_result) op" where
  "failed_result E spec kind code phase e =
     and_then (ask (o_text E) UtcNow) (\<lambda>now.
     ret ((failed_from_failure now spec
            \<lparr> fi_kind = kind, fi_code = code, fi_message = error_to_string e \<rparr>)
          \<lparr> jr_failed_phase := Some phase \<rparr>))"

definition failed_executor_result :: "outside \<Rightarrow> job_spec \<Rightarrow> error \<Rightarrow> ('h host_scheme, job_result) op" where
  "failed_executor_result E spec e =
     (case downcast_docker e of
        Some docker_error \<Rightarrow>
          and_then (ask (o_text E) UtcNow) (\<lambda>now.
          ret ((failed_from_failure now spec (docker_failure_info docker_error))
               \<lparr> jr_failed_phase := Some (df_phase docker_error) \<rparr>))
      | None \<Rightarrow> failed_result E spec Infrastructure ''executor_operation_failed'' ''execution'' e)"

definition docker_executor :: "outside \<Rightarrow> runner_config \<Rightarrow> world executor" where
  "docker_executor E config =
     \<lparr> xc_capabilities = docker_capabilities, xc_doctor = docker_doctor E config,
       xc_run = (\<lambda>spec cancellable. run E config spec), xc_cleanup = cleanup E config \<rparr>"

definition factory :: "outside \<Rightarrow> runner_config \<Rightarrow> bool \<Rightarrow> (world, world executor_factory) op" where
  "factory E config log_sender =
     and_then (with_log_sender E (o_quote E) config log_sender) (\<lambda>_.
     lift (register ''docker'' (docker_executor E config) Map.empty))"

definition execute_leased :: "outside \<Rightarrow> runner_config \<Rightarrow> job_spec \<Rightarrow> (world, job_result) op" where
  "execute_leased E config spec =
     match_op (lift (validate_with_context (o_realpath E) spec config DaemonContext))
       (\<lambda>_. match_op (factory E config True)
          (\<lambda>executors. match_op (lift (select_for executors spec))
             (\<lambda>executor. match_op (xc_run executor spec True) ret
                (\<lambda>e. and_then (ask (o_cancelled E) IsCancelled) (\<lambda>cancelled.
                   if cancelled then failed_result E spec Cancellation ''cancelled'' ''execution'' e
                   else failed_executor_result E spec e)))
             (failed_result E spec Policy ''executor_admission_rejected'' ''admission''))
          (failed_result E spec Infrastructure ''executor_initialization_failed'' ''initialization''))
       (failed_result E spec Policy ''job_admission_rejected'' ''admission'')"

definition log_lost :: "flushed \<Rightarrow> bool" where
  "log_lost f = (case f of FlushedWith loss \<Rightarrow> loss | FlushPanicked \<Rightarrow> True | FlushTimedOut \<Rightarrow> True)"

section \<open>The outbox\<close>

definition journal_enqueue ::
  "outside \<Rightarrow> string \<Rightarrow> u32 \<Rightarrow> string \<Rightarrow> string \<Rightarrow> string \<Rightarrow> (world, unit) op" where
  "journal_enqueue E job_id attempt lease_id key payload w =
     (let h = trace w @ [EnqueueCompletion job_id attempt lease_id key payload];
          (r, j) = enqueue_completion (o_faults E h) (o_text E h) job_id attempt lease_id key payload (w_journal w)
      in (r, w\<lparr> trace := h, w_journal := j \<rparr>))"

definition journal_record_attempt :: "outside \<Rightarrow> string \<Rightarrow> u32 \<Rightarrow> (world, unit) op" where
  "journal_record_attempt E job_id attempt w =
     (let h = trace w @ [RecordAttempt job_id attempt];
          (r, j) = record_completion_attempt (o_faults E h) (o_text E h) job_id attempt (w_journal w)
      in (r, w\<lparr> trace := h, w_journal := j \<rparr>))"

definition journal_mark_delivered :: "outside \<Rightarrow> string \<Rightarrow> u32 \<Rightarrow> (world, unit) op" where
  "journal_mark_delivered E job_id attempt w =
     (let h = trace w @ [MarkDelivered job_id attempt];
          (r, j) = mark_completion_delivered (o_faults E h) (o_text E h) job_id attempt (w_journal w)
      in (r, w\<lparr> trace := h, w_journal := j \<rparr>))"

definition journal_pending :: "outside \<Rightarrow> (world, pending_completion list) op" where
  "journal_pending E w =
     (let h = trace w @ [ReadPending]; (r, j) = pending_completions (o_faults E h) (w_journal w)
      in (r, w\<lparr> trace := h, w_journal := j \<rparr>))"

definition journal_next_attempt :: "outside \<Rightarrow> string \<Rightarrow> (world, u32) op" where
  "journal_next_attempt E job_id w =
     (let h = trace w @ [ReadNextAttempt job_id]; (r, j) = next_attempt (o_faults E h) job_id (w_journal w)
      in (r, w\<lparr> trace := h, w_journal := j \<rparr>))"

fun deliver :: "outside \<Rightarrow> world control_plane \<Rightarrow> string \<Rightarrow> job_result \<Rightarrow> nat \<Rightarrow> (world, unit) op" where
  "deliver E plane lease_id result 0 = fail (Bail ''job completion retry budget exhausted'')"
| "deliver E plane lease_id result (Suc remaining) =
     and_then (journal_record_attempt E (jr_job_id result) (jr_attempt result)) (\<lambda>_.
     and_then (timed E 10000 (cp_complete plane lease_id result)) (\<lambda>outcome.
     if outcome = Some (Inr ()) then journal_mark_delivered E (jr_job_id result) (jr_attempt result)
     else and_then (pause_unless_last remaining 1000) (\<lambda>_.
       deliver E plane lease_id result remaining)))"

definition completion_attempts :: nat where
  "completion_attempts = 5"

definition report_completion ::
  "outside \<Rightarrow> runner_config \<Rightarrow> world control_plane \<Rightarrow> string \<Rightarrow> job_result \<Rightarrow> (world, unit) op" where
  "report_completion E config plane lease_id result =
     and_then (journal_open E (journal_path config)) (\<lambda>_.
     and_then (lift (o_result_text E result)) (\<lambda>payload.
     and_then (journal_enqueue E (jr_job_id result) (jr_attempt result) lease_id
        (completion_idempotency_key (jr_job_id result) (jr_attempt result)) payload) (\<lambda>_.
     deliver E plane lease_id result completion_attempts)))"

text \<open>The main task of \<^verbatim>\<open>run_leased_job\<close>; the other two tasks act on it through the token and the flush.\<close>

definition run_leased_job ::
  "outside \<Rightarrow> runner_config \<Rightarrow> world control_plane \<Rightarrow> leased_job \<Rightarrow> (world, unit) op" where
  "run_leased_job E config plane job =
     and_then (execute_leased E config (lj_spec job)) (\<lambda>result.
     and_then (ask (o_flush E) (FlushLogs 15000)) (\<lambda>flushed.
     and_then (ask (\<lambda>h. ()) CancelJob) (\<lambda>_.
     report_completion E config plane (lj_lease_id job)
       (if log_lost flushed then result\<lparr> jr_log_truncated := True \<rparr> else result))))"

definition replay_entry :: "outside \<Rightarrow> world control_plane \<Rightarrow> pending_completion \<Rightarrow> (world, unit) op" where
  "replay_entry E plane entry =
     (case o_result_of_text E (pc_payload entry) of
        Inl e \<Rightarrow> ret ()
      | Inr result \<Rightarrow>
          if pc_idempotency_key entry \<noteq> completion_idempotency_key (jr_job_id result) (jr_attempt result) then ret ()
          else match_op (journal_record_attempt E (pc_job_id entry) (pc_attempt entry))
            (\<lambda>_. match_op (cp_complete plane (pc_lease_id entry) result)
               (\<lambda>_. ignore (journal_mark_delivered E (pc_job_id entry) (pc_attempt entry)))
               (\<lambda>e. ret ()))
            (\<lambda>e. ret ()))"

definition replay_pending_completions :: "outside \<Rightarrow> world control_plane \<Rightarrow> (world, unit) op" where
  "replay_pending_completions E plane =
     match_op (journal_pending E) (\<lambda>pending. for_each_op pending (replay_entry E plane)) (\<lambda>e. ret ())"

section \<open>The only executor\<close>

lemma factory_docker:
  "factory E config sender w = (Inr executors, w') \<Longrightarrow> executors = [''docker'' \<mapsto> docker_executor E config]"
proof -
  have "trim ''docker'' \<noteq> []" by code_simp
  then show "factory E config sender w = (Inr executors, w') \<Longrightarrow> executors = [''docker'' \<mapsto> docker_executor E config]"
    by (auto simp: factory_def and_then_ok lift_def register_def)
qed

lemma selected_docker:
  "select_for [''docker'' \<mapsto> docker_executor E config] spec = Inr x \<Longrightarrow> x = docker_executor E config"
  by (auto simp: select_for_def get_executor_ok split: if_splits sum.splits)

end
