(* ===== verification/Daemon_Completion.thy ===== *)
theory Daemon_Completion
  imports Daemon
begin

text \<open>
  What the daemon guarantees for a leased job: when its heartbeat task gives the lease up,
  that every job gets a result, and that the result is kept in the outbox until the control
  plane has acknowledged it. The control plane enters through the locale \<open>delivery\<close>,
  interpreted on the HTTP implementation.
\<close>

section \<open>Heartbeats\<close>

definition failed_turn :: "heartbeat_turn \<Rightarrow> bool" where
  "failed_turn turn \<longleftrightarrow> (\<exists>e. turn = Answered (Inl e))"

text \<open>The number of failures in a row at the end of a list of turns.\<close>

definition failing_streak :: "heartbeat_turn list \<Rightarrow> nat" where
  "failing_streak turns = length (takeWhile failed_turn (rev turns))"

text \<open>Turn \<open>n\<close> is a reason to end with the decision \<open>d\<close>.\<close>

definition ends_at :: "heartbeat_turn list \<Rightarrow> nat \<Rightarrow> heartbeat_decision \<Rightarrow> bool" where
  "ends_at turns n d \<longleftrightarrow> n < length turns \<and>
     (turns ! n = TokenCancelled \<and> d = Cancel
      \<or> turns ! n = Answered (Inr d) \<and> d \<noteq> Continue
      \<or> d = LeaseLost \<and> 3 \<le> failing_streak (take (Suc n) turns))"

definition streak_from :: "nat \<Rightarrow> heartbeat_turn list \<Rightarrow> nat" where
  "streak_from = foldl (\<lambda>c turn. if failed_turn turn then c + 1 else 0)"

lemma streak_from_0: "streak_from 0 turns = failing_streak turns"
  by (induction turns rule: rev_induct) (simp_all add: streak_from_def failing_streak_def)

definition ends_from :: "nat \<Rightarrow> heartbeat_turn list \<Rightarrow> nat \<Rightarrow> heartbeat_decision \<Rightarrow> bool" where
  "ends_from f turns n d \<longleftrightarrow> n < length turns \<and>
     (turns ! n = TokenCancelled \<and> d = Cancel
      \<or> turns ! n = Answered (Inr d) \<and> d \<noteq> Continue
      \<or> d = LeaseLost \<and> 3 \<le> streak_from f (take (Suc n) turns))"

lemma ends_from_Suc:
  "ends_from f (turn # turns) (Suc n) d = ends_from (if failed_turn turn then f + 1 else 0) turns n d"
  by (simp add: ends_from_def streak_from_def)

lemma ends_from_0:
  "f < 3 \<Longrightarrow> ends_from f (turn # turns) 0 d \<longleftrightarrow>
     turn = TokenCancelled \<and> d = Cancel \<or> turn = Answered (Inr d) \<and> d \<noteq> Continue
     \<or> d = LeaseLost \<and> failed_turn turn \<and> f = 2"
  by (auto simp: ends_from_def streak_from_def)

lemma first_Cons:
  "(\<exists>n. P n d \<and> (\<forall>m < n. \<forall>d'. \<not> P m d')) \<longleftrightarrow>
     P 0 d \<or> (\<forall>d'. \<not> P 0 d') \<and> (\<exists>n. P (Suc n) d \<and> (\<forall>m < n. \<forall>d'. \<not> P (Suc m) d'))"
  (is "?L \<longleftrightarrow> ?R")
proof
  assume ?L
  then obtain n where n: "P n d" "\<forall>m < n. \<forall>d'. \<not> P m d'" by blast
  then show ?R by (cases n) auto
next
  assume ?R
  then show ?L
  proof
    assume "(\<forall>d'. \<not> P 0 d') \<and> (\<exists>n. P (Suc n) d \<and> (\<forall>m < n. \<forall>d'. \<not> P (Suc m) d'))"
    then obtain n where "\<forall>d'. \<not> P 0 d'" "P (Suc n) d" "\<forall>m < n. \<forall>d'. \<not> P (Suc m) d'" by blast
    then show ?L by (intro exI [of _ "Suc n"]) (auto simp: less_Suc_eq_0_disj)
  qed auto
qed

lemma heartbeat_task_from:
  "f < 3 \<Longrightarrow> heartbeat_task f turns = Some d \<longleftrightarrow>
     (\<exists>n. ends_from f turns n d \<and> (\<forall>m < n. \<forall>d'. \<not> ends_from f turns m d'))"
proof (induction turns arbitrary: f)
  case Nil
  then show ?case by (simp add: ends_from_def)
next
  case (Cons turn turns)
  show ?case
    unfolding first_Cons [where P = "ends_from f (turn # turns)"] ends_from_Suc ends_from_0 [OF Cons.prems]
    using Cons.IH [of 0] Cons.IH [of "f + 1"] Cons.prems
    by (auto simp: failed_turn_def heartbeat_failure_limit_def
        split: heartbeat_turn.splits sum.splits heartbeat_decision.splits)
qed

text \<open>
  C20: The heartbeat task ends at the first turn that gives it a reason, and with that reason:
  a cancelled token, an answer other than continue, or the third failure in a row (the lease
  counts as lost). Until then it goes on, and a single answered heartbeat forgets the failures
  before it.
\<close>

theorem heartbeat_task_policy:
  "heartbeat_task 0 turns = Some d \<longleftrightarrow>
     (\<exists>n. ends_at turns n d \<and> (\<forall>m < n. \<forall>d'. \<not> ends_at turns m d'))"
proof -
  have "ends_at turns = ends_from 0 turns"
    by (intro ext) (simp add: ends_at_def ends_from_def streak_from_0)
  then show ?thesis using heartbeat_task_from [of 0 turns d] by simp
qed

definition flaky_turns :: "heartbeat_turn list" where
  "flaky_turns = map Answered [Inl (Bail ''busy''), Inl (Bail ''busy''), Inr Continue,
     Inl (Bail ''busy''), Inl (Bail ''busy''), Inl (Bail ''busy''), Inr Cancel]"

theorem heartbeat_task_policy_witness:
  "\<exists>n. ends_at flaky_turns n LeaseLost \<and> (\<forall>m < n. \<forall>d'. \<not> ends_at flaky_turns m d')"
proof -
  have "heartbeat_task 0 flaky_turns = Some LeaseLost"
    by (simp add: flaky_turns_def heartbeat_failure_limit_def)
  then show ?thesis using heartbeat_task_policy [of flaky_turns LeaseLost] by simp
qed

text \<open>
  A control plane that answers heartbeats as the API description says, with an object that
  holds the decision, loses its jobs: whatever the decision is, continue included, the first
  three such answers end the heartbeat task with a lost lease, which cancels the job.
\<close>

theorem documented_heartbeats_cancel_the_job:
  fixes s :: "nat \<Rightarrow> 'h host_scheme"
  assumes answers: "\<And>i. i < 3 \<Longrightarrow> o_http E (trace (s i) @ [heartbeat_call plane lease_id]) = Inr (r i)"
    and documented: "\<And>i. i < 3 \<Longrightarrow> documented_decision E (r i)"
  shows "heartbeat_task 0 (map (\<lambda>i. Answered (fst (heartbeat E plane lease_id (s i)))) [0, 1, 2] @ turns) = Some LeaseLost"
proof -
  have "fst (heartbeat E plane lease_id (s i)) = Inl (o_http_error E (heartbeat_request plane lease_id) None)"
    if "i < 3" for i
    using heartbeat_documented [OF answers [OF that] documented [OF that]] by simp
  from this [of 0] this [of 1] this [of 2] show ?thesis
    by (simp add: heartbeat_failure_limit_def)
qed

definition sample_plane :: http_control_plane where
  "sample_plane = \<lparr> hx_base = ''https://control'', hx_token = ''hunter2'', hx_runner = ''runner-1'' \<rparr>"

theorem documented_heartbeats_cancel_the_job_witness:
  "heartbeat_task 0 (replicate 3 (Answered (fst (heartbeat
     (sample_docker\<lparr> o_http := \<lambda>h. Inr \<lparr> hp_status = 200, hp_body = [] \<rparr>,
       o_parse := \<lambda>t. Inr (JObj [(''decision'', JStr ''continue'')]) \<rparr>) sample_plane ''lease-1'' sample_world)))) = Some LeaseLost"
  using documented_heartbeats_cancel_the_job
    [where s = "\<lambda>i. sample_world" and r = "\<lambda>i. \<lparr> hp_status = 200, hp_body = [] \<rparr>" and turns = "[]" and plane = sample_plane
      and lease_id = "''lease-1''" and E = "sample_docker\<lparr> o_http := \<lambda>h. Inr \<lparr> hp_status = 200, hp_body = [] \<rparr>,
       o_parse := \<lambda>t. Inr (JObj [(''decision'', JStr ''continue'')]) \<rparr>"]
  by (simp add: documented_decision_def numeral_3_eq_3)

section \<open>Every leased job gets a result\<close>

lemma failed_result_eq:
  "failed_result E spec kind code phase e w =
     (Inr ((failed_from_failure (o_text E (trace w @ [UtcNow])) spec
        \<lparr> fi_kind = kind, fi_code = code, fi_message = error_to_string e \<rparr>)\<lparr> jr_failed_phase := Some phase \<rparr>),
      with_calls w [UtcNow])"
  by (simp add: failed_result_def and_then_def ask_def Let_def ret_def)

text \<open>What all parts of the execution keep: the outbox, the journal's form and the calls made before.\<close>

definition keeps :: "world \<Rightarrow> world \<Rightarrow> bool" where
  "keeps w w' \<longleftrightarrow> prefix (trace w) (trace w') \<and>
     completion_outbox (w_journal w') = completion_outbox (w_journal w) \<and>
     (journal_ok (w_journal w) \<longrightarrow> journal_ok (w_journal w'))"

lemma keeps_refl [simp]: "keeps w w"
  by (simp add: keeps_def)

lemma keeps_trans: "keeps u v \<Longrightarrow> keeps v w \<Longrightarrow> keeps u w"
  unfolding keeps_def using prefix_order.trans by auto

lemma keeps_calls [simp]: "keeps w (with_calls w cs)"
  by (simp add: keeps_def)

lemma stepped_keeps: "stepped P w w' \<Longrightarrow> keeps w w'"
  unfolding stepped_def keeps_def by auto

lemma run_keeps:
  assumes "run E config spec w = (r, w')"
  shows "keeps w w'"
  using assms
proof (cases rule: run_unfold)
  case (1 e)
  then show ?thesis by (auto simp: keeps_def begin_log_stream_def set_log_phase_def)
next
  case (2 res now u)
  have "stepped (run_call True (\<lambda>_. True) (\<lambda>_. True)) u w'"
    using 2(3) makesD [OF run_workflow_run] makesD [OF run_command_run]
    by (simp split: option.splits)
  from stepped_keeps [OF this] have "keeps u w'" .
  moreover have "keeps w u" by (simp add: 2(2) keeps_def begin_log_stream_def set_log_phase_def)
  ultimately show ?thesis by (rule keeps_trans [rotated])
qed

lemma connect_keeps: "with_log_sender E debug config sender w = (r, w') \<Longrightarrow> keeps w w'"
  by (auto simp: with_log_sender_def connect_def op_context_def and_then_def invoke_def Let_def lift_def
      keeps_def split: sum.splits prod.splits)

lemma factory_keeps: "factory E config sender w = (r, w') \<Longrightarrow> keeps w w'"
  by (auto simp: factory_def and_then_def lift_def split: sum.splits prod.splits dest: connect_keeps)

text \<open>
  Why a leased job has no result of a run, and the failure and the phase the daemon reports for
  it: the policy did not admit it, the Docker executor could not be set up, it cannot take the
  job, or the run itself ended with an error, which may be that the job has been cancelled.
\<close>

inductive given_up :: "outside \<Rightarrow> runner_config \<Rightarrow> job_spec \<Rightarrow> world \<Rightarrow> world \<Rightarrow> failure_info \<Rightarrow> string \<Rightarrow> bool"
  for E config spec w where
  not_admitted:
    "validate_with_context (o_realpath E) spec config DaemonContext = Inl e \<Longrightarrow>
     given_up E config spec w (with_calls w [UtcNow])
       \<lparr> fi_kind = Policy, fi_code = ''job_admission_rejected'', fi_message = error_to_string e \<rparr> ''admission''"
| no_executor:
    "validate_with_context (o_realpath E) spec config DaemonContext = Inr res \<Longrightarrow>
     with_log_sender E (o_quote E) config True w = (Inl e, v) \<Longrightarrow>
     given_up E config spec w (with_calls v [UtcNow])
       \<lparr> fi_kind = Infrastructure, fi_code = ''executor_initialization_failed'', fi_message = error_to_string e \<rparr>
       ''initialization''"
| not_selected:
    "validate_with_context (o_realpath E) spec config DaemonContext = Inr res \<Longrightarrow>
     with_log_sender E (o_quote E) config True w = (Inr (), v) \<Longrightarrow>
     select_for [''docker'' \<mapsto> docker_executor E config] spec = Inl e \<Longrightarrow>
     given_up E config spec w (with_calls v [UtcNow])
       \<lparr> fi_kind = Policy, fi_code = ''executor_admission_rejected'', fi_message = error_to_string e \<rparr> ''admission''"
| cancelled_early:
    "with_log_sender E (o_quote E) config True w = (Inr (), v) \<Longrightarrow>
     run E config spec v = (Inl e, u) \<Longrightarrow> o_cancelled E (trace u @ [IsCancelled]) \<Longrightarrow>
     given_up E config spec w (with_calls u [IsCancelled, UtcNow])
       \<lparr> fi_kind = Cancellation, fi_code = ''cancelled'', fi_message = error_to_string e \<rparr> ''execution''"
| docker_failed:
    "with_log_sender E (o_quote E) config True w = (Inr (), v) \<Longrightarrow>
     run E config spec v = (Inl e, u) \<Longrightarrow> downcast_docker e = Some d \<Longrightarrow> \<not> o_cancelled E (trace u @ [IsCancelled]) \<Longrightarrow>
     given_up E config spec w (with_calls u [IsCancelled, UtcNow])
       \<lparr> fi_kind = Infrastructure, fi_code = df_code d, fi_message = df_message d @ '' (phase: '' @ df_phase d @ '')'' \<rparr>
       (df_phase d)"
| run_failed:
    "with_log_sender E (o_quote E) config True w = (Inr (), v) \<Longrightarrow>
     run E config spec v = (Inl e, u) \<Longrightarrow> downcast_docker e = None \<Longrightarrow> \<not> o_cancelled E (trace u @ [IsCancelled]) \<Longrightarrow>
     given_up E config spec w (with_calls u [IsCancelled, UtcNow])
       \<lparr> fi_kind = Infrastructure, fi_code = ''executor_operation_failed'', fi_message = error_to_string e \<rparr>
       ''execution''"

text \<open>The result of a job that did not get one of a run.\<close>

definition gave_up :: "outside \<Rightarrow> runner_config \<Rightarrow> job_spec \<Rightarrow> world \<Rightarrow> world \<Rightarrow> job_result \<Rightarrow> bool" where
  "gave_up E config spec w w' r \<longleftrightarrow>
     jr_job_id r = js_id spec \<and> jr_attempt r = js_attempt spec \<and>
     jr_status r = ''failed'' \<and> jr_exit_code r = None \<and>
     (\<exists>failure phase. jr_failure r = Some failure \<and> jr_failed_phase r = Some phase \<and>
        given_up E config spec w w' failure phase)"

lemma failed_result_gave_up:
  assumes "failed_result E spec kind code phase e v = (r, w')"
    and "given_up E config spec w (with_calls v [UtcNow]) \<lparr> fi_kind = kind, fi_code = code, fi_message = error_to_string e \<rparr> phase"
  shows "\<exists>result. r = Inr result \<and> gave_up E config spec w w' result"
  using assms unfolding failed_result_eq gave_up_def by (auto simp: failed_from_failure_def)

lemma failed_executor_result_gave_up:
  assumes "failed_executor_result E spec e (with_calls u [IsCancelled]) = (r, w')"
    and "with_log_sender E (o_quote E) config True w = (Inr (), v)"
    and "run E config spec v = (Inl e, u)" and "\<not> o_cancelled E (trace u @ [IsCancelled])"
  shows "\<exists>result. r = Inr result \<and> gave_up E config spec w w' result"
proof (cases "downcast_docker e")
  case None
  have "given_up E config spec w (with_calls (with_calls u [IsCancelled]) [UtcNow])
      \<lparr> fi_kind = Infrastructure, fi_code = ''executor_operation_failed'', fi_message = error_to_string e \<rparr> ''execution''"
    using run_failed [OF assms(2,3) None assms(4)] by simp
  moreover have "failed_result E spec Infrastructure ''executor_operation_failed'' ''execution'' e (with_calls u [IsCancelled]) = (r, w')"
    using assms(1) None by (simp add: failed_executor_result_def)
  ultimately show ?thesis using failed_result_gave_up by blast
next
  case (Some d)
  with assms(1) docker_failed [OF assms(2,3) Some assms(4)] show ?thesis
    by (auto simp: failed_executor_result_def and_then_def ask_def Let_def ret_def gave_up_def
        failed_from_failure_def docker_failure_info_def)
qed

text \<open>A leased job gets the result of its run, or one that says why there is none.\<close>

lemma execute_leased_result:
  assumes "execute_leased E config spec w = (r, w')"
  shows "\<exists>result. r = Inr result \<and>
    ((\<exists>v. with_log_sender E (o_quote E) config True w = (Inr (), v) \<and> run E config spec v = (Inr result, w')) \<or>
     gave_up E config spec w w' result)"
proof (cases "validate_with_context (o_realpath E) spec config DaemonContext")
  case (Inl e)
  with assms have "failed_result E spec Policy ''job_admission_rejected'' ''admission'' e w = (r, w')"
    by (simp add: execute_leased_def match_op_def lift_def)
  from failed_result_gave_up [OF this not_admitted [OF Inl]] show ?thesis by blast
next
  case (Inr res)
  obtain x v where connect: "with_log_sender E (o_quote E) config True w = (x, v)"
    by (cases "with_log_sender E (o_quote E) config True w")
  have "trim ''docker'' \<noteq> []" by code_simp
  then have factory: "factory E config True w =
      (case x of Inl e \<Rightarrow> Inl e | Inr _ \<Rightarrow> Inr [''docker'' \<mapsto> docker_executor E config], v)"
    using connect by (auto simp: factory_def and_then_def lift_def register_def split: sum.splits)
  show ?thesis
  proof (cases x)
    case (Inl e)
    with assms Inr factory have
      "failed_result E spec Infrastructure ''executor_initialization_failed'' ''initialization'' e v = (r, w')"
      by (simp add: execute_leased_def match_op_def lift_def)
    from failed_result_gave_up [OF this no_executor [OF Inr connect [unfolded Inl]]] show ?thesis by blast
  next
    case connected: (Inr y)
    have connect: "with_log_sender E (o_quote E) config True w = (Inr (), v)" using connect connected by simp
    show ?thesis
    proof (cases "select_for [''docker'' \<mapsto> docker_executor E config] spec")
      case (Inl e)
      with assms Inr factory connected have
        "failed_result E spec Policy ''executor_admission_rejected'' ''admission'' e v = (r, w')"
        by (simp add: execute_leased_def match_op_def lift_def)
      from failed_result_gave_up [OF this not_selected [OF Inr connect Inl]] show ?thesis by blast
    next
      case selected: (Inr executor)
      then have "xc_run executor spec True = run E config spec"
        using selected_docker [OF selected] by (simp add: docker_executor_def)
      moreover obtain y u where run: "run E config spec v = (y, u)" by (cases "run E config spec v")
      ultimately have rest: "(case y of Inr z \<Rightarrow> ret z u | Inl e \<Rightarrow>
          if o_cancelled E (trace u @ [IsCancelled])
          then failed_result E spec Cancellation ''cancelled'' ''execution'' e (with_calls u [IsCancelled])
          else failed_executor_result E spec e (with_calls u [IsCancelled])) = (r, w')"
        using assms Inr factory connected selected
        by (cases y) (simp_all add: execute_leased_def match_op_def lift_def and_then_def ask_def Let_def split: if_splits)
      show ?thesis
      proof (cases y)
        case (Inl e)
        note failed = run [unfolded Inl]
        show ?thesis
        proof (cases "o_cancelled E (trace u @ [IsCancelled])")
          case True
          then have "given_up E config spec w (with_calls (with_calls u [IsCancelled]) [UtcNow])
              \<lparr> fi_kind = Cancellation, fi_code = ''cancelled'', fi_message = error_to_string e \<rparr> ''execution''"
            using cancelled_early [OF connect failed] by simp
          moreover have "failed_result E spec Cancellation ''cancelled'' ''execution'' e (with_calls u [IsCancelled]) = (r, w')"
            using rest Inl True by simp
          ultimately show ?thesis using failed_result_gave_up by blast
        next
          case False
          with rest Inl have "failed_executor_result E spec e (with_calls u [IsCancelled]) = (r, w')" by simp
          from failed_executor_result_gave_up [OF this connect failed False] show ?thesis by blast
        qed
      next
        case (Inr z)
        with rest connect run show ?thesis by (auto simp: ret_def)
      qed
    qed
  qed
qed

lemma given_up_keeps: "given_up E config spec w w' failure phase \<Longrightarrow> keeps w w'"
  by (induction rule: given_up.induct)
    (auto intro: keeps_calls keeps_trans [OF _ keeps_calls] keeps_trans [OF keeps_trans [OF _ run_keeps] keeps_calls]
      dest: connect_keeps)

lemma execute_leased_settles:
  assumes "execute_leased E config spec w = (r, w')"
  shows "\<exists>result. r = Inr result \<and> jr_job_id result = js_id spec \<and> jr_attempt result = js_attempt spec \<and> keeps w w'"
proof -
  from execute_leased_result [OF assms] obtain result where r: "r = Inr result" and
    "(\<exists>v. with_log_sender E (o_quote E) config True w = (Inr (), v) \<and> run E config spec v = (Inr result, w')) \<or>
     gave_up E config spec w w' result" by blast
  then show ?thesis
  proof (elim disjE exE conjE)
    fix v
    assume "with_log_sender E (o_quote E) config True w = (Inr (), v)" and run: "run E config spec v = (Inr result, w')"
    from connect_keeps [OF this(1)] run_keeps [OF run] have "keeps w w'" by (rule keeps_trans)
    with r docker.consistent [OF run] show ?thesis by (simp add: consistent_result_def)
  qed (use r in \<open>auto simp: gave_up_def dest: given_up_keeps\<close>)
qed

text \<open>
  C17: Whatever goes wrong with a leased job, the daemon has a result to report, for that job
  and that attempt. Either it is the one that Docker returned for a run after the executor was
  set up: then there is no exit code exactly when its status is cancelled or timed out, the exit
  code is zero exactly when it is completed, and a failure is reported exactly when it is not,
  a cancellation, a timeout or an execution failure as the status says. Or it has the status
  failed, no exit code, and the failure and phase that belong to what went wrong: a policy
  failure in the admission phase when the policy does not admit the job (nothing is called then)
  or the executor cannot take it, an infrastructure failure when the executor cannot be set up
  or the run ends with an error, with the code and phase of Docker's own failure if it is one,
  and a cancellation if the token is cancelled by then. So a job that is cancelled while it is
  being prepared has the status failed with a cancellation as its failure.
\<close>

theorem leased_jobs_get_a_result:
  assumes "execute_leased E config spec w = (r, w')"
  shows "\<exists>result. r = Inr result \<and> jr_job_id result = js_id spec \<and> jr_attempt result = js_attempt spec \<and>
    ((\<exists>v. with_log_sender E (o_quote E) config True w = (Inr (), v) \<and> run E config spec v = (Inr result, w') \<and>
        jr_status result \<in> {''completed'', ''failed'', ''cancelled'', ''timed_out''} \<and>
        (jr_exit_code result = None \<longleftrightarrow> jr_status result \<in> {''cancelled'', ''timed_out''}) \<and>
        (jr_exit_code result = Some 0 \<longleftrightarrow> jr_status result = ''completed'') \<and>
        map_option fi_kind (jr_failure result) =
          (if jr_status result = ''completed'' then None else if jr_status result = ''cancelled'' then Some Cancellation
           else if jr_status result = ''timed_out'' then Some Timeout else Some Execution)) \<or>
     (jr_status result = ''failed'' \<and> jr_exit_code result = None \<and>
        (\<exists>failure phase. jr_failure result = Some failure \<and> jr_failed_phase result = Some phase \<and>
           given_up E config spec w w' failure phase)))"
proof -
  from execute_leased_result [OF assms] obtain result where r: "r = Inr result" and
    "(\<exists>v. with_log_sender E (o_quote E) config True w = (Inr (), v) \<and> run E config spec v = (Inr result, w')) \<or>
     gave_up E config spec w w' result" by blast
  then show ?thesis
  proof (elim disjE exE conjE)
    fix v
    assume v: "with_log_sender E (o_quote E) config True w = (Inr (), v)" and run: "run E config spec v = (Inr result, w')"
    from run_facts [OF run] show ?thesis
      by (elim conjE) (intro exI [of _ result] conjI disjI1 exI [of _ v] r v run; assumption)
  next
    assume "gave_up E config spec w w' result"
    then show ?thesis unfolding gave_up_def using r by blast
  qed
qed

theorem leased_jobs_get_a_result_witness:
  "\<exists>result. fst (execute_leased sample_docker sample_config sample_command_job sample_world) = Inr result \<and>
     jr_job_id result = js_id sample_command_job"
  using leased_jobs_get_a_result [OF surjective_pairing, of sample_docker sample_config sample_command_job sample_world]
  by blast

section \<open>Settling one entry of the outbox\<close>

abbreviation entry :: "world \<Rightarrow> job_key \<Rightarrow> completion_entry option" where
  "entry w \<equiv> journal_entry (w_journal w)"

definition is_delivered :: "world \<Rightarrow> job_key \<Rightarrow> bool" where
  "is_delivered w k \<longleftrightarrow> (\<exists>e. entry w k = Some e \<and> ce_delivered e)"

text \<open>
  \<open>settles A k n w w'\<close>: calls are only added, the journal stays well-formed, no entry but that of
  \<open>k\<close> changes, that one keeps what it holds and gains at most \<open>n\<close> attempts, and when it becomes delivered the calls up to
  some point satisfy \<open>A\<close> (the control plane has acknowledged the completion).
\<close>

definition settles :: "(history \<Rightarrow> bool) \<Rightarrow> job_key \<Rightarrow> nat \<Rightarrow> world \<Rightarrow> world \<Rightarrow> bool" where
  "settles A k n w w' \<longleftrightarrow>
     prefix (trace w) (trace w') \<and> (journal_ok (w_journal w) \<longrightarrow> journal_ok (w_journal w')) \<and>
     (\<forall>q. q \<noteq> k \<longrightarrow> entry w' q = entry w q) \<and>
     (entry w k = None \<longrightarrow> entry w' k = None) \<and> evolved (entry w k) (entry w' k) \<and>
     (\<forall>e e'. entry w k = Some e \<and> entry w' k = Some e' \<longrightarrow> ce_attempts e' \<le> ce_attempts e + n) \<and>
     (is_delivered w' k \<and> \<not> is_delivered w k \<longrightarrow> (\<exists>h. prefix h (trace w') \<and> A h))"

lemma evolved_Some:
  "evolved (Some x) b \<Longrightarrow> \<exists>y. b = Some y \<and> ce_lease_id x = ce_lease_id y \<and>
     ce_idempotency_key x = ce_idempotency_key y \<and> ce_payload x = ce_payload y"
  by (cases b) (auto simp: evolved_def)

lemma settles_same: "prefix (trace w) (trace w') \<Longrightarrow> w_journal w' = w_journal w \<Longrightarrow> settles A k n w w'"
  by (auto simp: settles_def is_delivered_def)

lemma settlesD:
  assumes "settles A k n w w'"
  shows "prefix (trace w) (trace w')" and "q \<noteq> k \<Longrightarrow> entry w' q = entry w q"
    and "entry w k = None \<Longrightarrow> entry w' k = None" and "evolved (entry w k) (entry w' k)"
    and "entry w k = Some e \<Longrightarrow> entry w' k = Some e' \<Longrightarrow> ce_attempts e' \<le> ce_attempts e + n"
    and "is_delivered w' k \<Longrightarrow> \<not> is_delivered w k \<Longrightarrow> \<exists>h. prefix h (trace w') \<and> A h"
    and "journal_ok (w_journal w) \<Longrightarrow> journal_ok (w_journal w')"
  using assms unfolding settles_def by blast+

lemma settles_present:
  assumes "settles A k n w w'" and "entry w k \<noteq> None"
  shows "entry w' k \<noteq> None"
  using settlesD(4) [OF assms(1)] assms(2) evolved_Some by (cases "entry w k") (simp, metis option.distinct(1))

lemma settles_trans:
  assumes uv: "settles A k n u v" and vw: "settles A k m v w"
  shows "settles A k (n + m) u w"
  unfolding settles_def
proof (intro conjI allI impI; (elim conjE)?)
  show "prefix (trace u) (trace w)"
    using settlesD(1) [OF uv] settlesD(1) [OF vw] by (rule prefix_order.trans)
  show "journal_ok (w_journal w)" if "journal_ok (w_journal u)"
    using settlesD(7) [OF vw settlesD(7) [OF uv that]] .
  show "entry w q = entry u q" if "q \<noteq> k" for q
    using settlesD(2) [OF uv that] settlesD(2) [OF vw that] by simp
  show "entry w k = None" if "entry u k = None"
    using settlesD(3) [OF vw settlesD(3) [OF uv that]] .
  show "evolved (entry u k) (entry w k)"
    using settlesD(4) [OF uv] settlesD(4) [OF vw] by (rule evolved_trans)
  fix e e'
  assume e: "entry u k = Some e" and e': "entry w k = Some e'"
  obtain e1 where e1: "entry v k = Some e1"
    using settlesD(4) [OF uv] unfolding e by (auto dest: evolved_Some)
  show "ce_attempts e' \<le> ce_attempts e + (n + m)"
    using settlesD(5) [OF uv e e1] settlesD(5) [OF vw e1 e'] by simp
next
  assume new: "is_delivered w k" "\<not> is_delivered u k"
  show "\<exists>h. prefix h (trace w) \<and> A h"
  proof (cases "is_delivered v k")
    case True
    from settlesD(6) [OF uv True new(2)] settlesD(1) [OF vw] show ?thesis by (blast intro: prefix_order.trans)
  qed (use settlesD(6) [OF vw new(1)] in blast)
qed

lemma settles_more: "settles A k n u v \<Longrightarrow> n \<le> m \<Longrightarrow> settles A k m u v"
  unfolding settles_def by (elim conjE, intro conjI) (assumption | force)+

lemma record_settles:
  assumes "journal_record_attempt E i a w = (r, w')"
  shows "settles A (i, a) 1 w w'"
proof -
  obtain f now where "record_at (f, now) (i, a) (w_journal w) = (r, w_journal w')"
    using assms by (auto simp: journal_record_attempt_def record_at_def Let_def split: prod.splits)
  note step = journal_outbox.record_entry [OF this] journal_call_ok [OF journal_call.record_attempt [OF this]]
  moreover have "prefix (trace w) (trace w')"
    using assms by (auto simp: journal_record_attempt_def Let_def split: prod.splits)
  ultimately show ?thesis
    by (cases "entry w (i, a)") (auto simp: settles_def is_delivered_def evolved_def)
qed

lemma mark_settles:
  assumes "journal_mark_delivered E i a w = (r, w')" and "A h" and "prefix h (trace w)"
  shows "settles A (i, a) 0 w w'" and "r = Inr () \<Longrightarrow> entry w (i, a) \<noteq> None \<Longrightarrow> is_delivered w' (i, a)"
proof -
  obtain f now where "mark_at (f, now) (i, a) (w_journal w) = (r, w_journal w')"
    using assms(1) by (auto simp: journal_mark_delivered_def mark_at_def Let_def split: prod.splits)
  note step = journal_outbox.mark_entry [OF this] journal_call_ok [OF journal_call.mark [OF this]]
  have longer: "prefix (trace w) (trace w')"
    using assms(1) by (auto simp: journal_mark_delivered_def Let_def split: prod.splits)
  with step prefix_order.trans [OF assms(3) longer] show "settles A (i, a) 0 w w'"
    using assms(2) by (cases "entry w (i, a)") (auto simp: settles_def is_delivered_def evolved_def)
  show "r = Inr () \<Longrightarrow> entry w (i, a) \<noteq> None \<Longrightarrow> is_delivered w' (i, a)"
    using step by (auto simp: is_delivered_def)
qed

section \<open>Delivering\<close>

lemma timedE:
  assumes "timed E ms m w = (r, w')"
  obtains x t where "m w = (x, t)" and "w' = with_calls t [TimeoutElapsed ms]" and "r = Inr None \<or> r = Inr (Some x)"
  using assms by (cases "m w") (auto simp: timed_def and_then_def ask_def Let_def ret_def)

lemma pause_same: "pause_unless_last n ms w = (r, w') \<Longrightarrow> r = Inr () \<and> prefix (trace w) (trace w') \<and> w_journal w' = w_journal w"
  by (auto simp: pause_unless_last_def ask_def Let_def ret_def split: if_splits)

text \<open>What the daemon needs of a control plane to deliver completions through it.\<close>

locale delivery =
  fixes plane :: "world control_plane" and acknowledged :: "history \<Rightarrow> string \<Rightarrow> job_result \<Rightarrow> bool"
  assumes journal_kept: "cp_complete plane l r w = (x, w') \<Longrightarrow> w_journal w' = w_journal w"
    and calls_kept: "cp_complete plane l r w = (x, w') \<Longrightarrow> prefix (trace w) (trace w')"
    and success: "cp_complete plane l r w = (Inr (), w') \<Longrightarrow> acknowledged (trace w') l r"
begin

abbreviation acks :: "string \<Rightarrow> job_result \<Rightarrow> history \<Rightarrow> bool" where
  "acks l r h \<equiv> acknowledged h l r"

lemma complete_settles: "cp_complete plane l r w = (x, w') \<Longrightarrow> settles A k 0 w w'"
  by (rule settles_same [OF calls_kept journal_kept])

text \<open>One attempt: the journal refuses it, it is acknowledged, or the remaining ones follow.\<close>

lemma deliver_attempt:
  assumes run: "deliver E plane l result (Suc n) w = (r, w')"
  obtains (refused) "settles (acks l result) (jr_job_id result, jr_attempt result) 1 w w'" and "\<not> is_ok r"
  | (acked) v h where "settles (acks l result) (jr_job_id result, jr_attempt result) 1 w v"
      and "journal_mark_delivered E (jr_job_id result) (jr_attempt result) v = (r, w')"
      and "acks l result h" and "prefix h (trace v)"
  | (again) z where "settles (acks l result) (jr_job_id result, jr_attempt result) 1 w z"
      and "deliver E plane l result n z = (r, w')"
proof -
  let ?k = "(jr_job_id result, jr_attempt result)"
  obtain r1 u where u: "journal_record_attempt E (jr_job_id result) (jr_attempt result) w = (r1, u)"
    by (cases "journal_record_attempt E (jr_job_id result) (jr_attempt result) w")
  note first = record_settles [OF u, of "acks l result"]
  obtain o1 v where v: "timed E 10000 (cp_complete plane l result) u = (o1, v)"
    by (cases "timed E 10000 (cp_complete plane l result) u")
  then obtain x t where t: "cp_complete plane l result u = (x, t)" "v = with_calls t [TimeoutElapsed 10000]"
      "o1 = Inr None \<or> o1 = Inr (Some x)"
    by (rule timedE)
  have "settles (acks l result) ?k 0 u v"
    using calls_kept [OF t(1)] journal_kept [OF t(1)] t(2) by (intro settles_same) (auto intro: prefix_order.trans)
  from settles_trans [OF first this] have upto: "settles (acks l result) ?k 1 w v" by simp
  obtain r2 z where z: "pause_unless_last n 1000 v = (r2, z)" by (cases "pause_unless_last n 1000 v :: _ \<times> world")
  note same = pause_same [OF z]
  consider e where "r1 = Inl e" | "is_ok r1" "o1 = Inr (Some (Inr ()))" | "is_ok r1" "o1 \<noteq> Inr (Some (Inr ()))"
    by (cases r1) auto
  then show ?thesis
  proof cases
    case 1
    with run u have "w' = u" "\<not> is_ok r" by (auto simp: and_then_def)
    with first refused show ?thesis by simp
  next
    case 2
    have "journal_mark_delivered E (jr_job_id result) (jr_attempt result) v = (r, w')"
      using run u 2 v by (auto simp: and_then_def is_ok_iff)
    moreover have "acks l result (trace t)" using success t(1,3) 2(2) by auto
    moreover have "prefix (trace t) (trace v)" by (simp add: t(2))
    ultimately show ?thesis by (rule acked [OF upto])
  next
    case 3
    have "settles (acks l result) ?k 0 v z" using same by (intro settles_same) auto
    from settles_trans [OF upto this] have near: "settles (acks l result) ?k 1 w z" by simp
    have "deliver E plane l result n z = (r, w')"
      using run u 3 v t(3) z same by (auto simp: and_then_def is_ok_iff split: if_splits)
    with near show ?thesis by (rule again)
  qed
qed

lemma deliver_settles:
  assumes "deliver E plane l result n w = (r, w')"
  shows "settles (acks l result) (jr_job_id result, jr_attempt result) n w w' \<and>
    (r = Inr () \<longrightarrow> entry w (jr_job_id result, jr_attempt result) \<noteq> None \<longrightarrow>
       is_delivered w' (jr_job_id result, jr_attempt result))"
  using assms
proof (induction n arbitrary: w)
  case 0
  then show ?case by (auto simp: fail_def intro: settles_same)
next
  case (Suc n)
  from Suc.prems show ?case
  proof (cases rule: deliver_attempt)
    case refused
    then show ?thesis using settles_more [of _ _ 1 w w' "Suc n"] by (auto simp: is_ok_def)
  next
    case (acked v h)
    note m = mark_settles [OF acked(2), of "acks l result", OF acked(3,4)]
    with settles_trans [OF acked(1) m(1)] settles_present [OF acked(1)] show ?thesis
      by (auto intro: settles_more)
  next
    case (again z)
    with Suc.IH [OF again(2)] settles_trans [OF again(1), of n w'] settles_present [OF again(1)]
    show ?thesis by simp
  qed
qed

end

interpretation http: delivery "http_plane E p" "http_acknowledged E p" for E p
proof
  fix l r x and w w' :: world
  assume c: "cp_complete (http_plane E p) l r w = (x, w')"
  then have "w' = with_calls w [complete_call p l r]"
    using complete_calls [of E p l r w] by (simp add: http_plane_def)
  then show "w_journal w' = w_journal w" "prefix (trace w) (trace w')" by simp_all
next
  fix l r and w w' :: world
  assume "cp_complete (http_plane E p) l r w = (Inr (), w')"
  then show "http_acknowledged E p (trace w') l r"
    by (simp add: http_plane_def complete_acknowledged)
qed

section \<open>Completions of leased jobs\<close>

lemma journal_enqueue_entry:
  assumes "journal_enqueue E i a l key payload w = (r, w')"
  shows "prefix (trace w) (trace w')"
    and "entry w' = (if is_ok r \<and> entry w (i, a) = None
       then (entry w)((i, a) \<mapsto> \<lparr> ce_lease_id = l, ce_idempotency_key = key, ce_payload = payload,
                               ce_attempts = 0, ce_delivered = False \<rparr>)
       else entry w)"
    and "journal_ok (w_journal w) \<Longrightarrow> journal_ok (w_journal w')"
proof -
  show "prefix (trace w) (trace w')"
    using assms by (auto simp: journal_enqueue_def Let_def split: prod.splits)
  obtain f now where enq: "enqueue_at (f, now) (i, a) l key payload (w_journal w) = (r, w_journal w')"
    using assms by (auto simp: journal_enqueue_def enqueue_at_def Let_def split: prod.splits)
  from journal_call_ok [OF journal_call.enqueue [OF this]]
  show "journal_ok (w_journal w) \<Longrightarrow> journal_ok (w_journal w')" .
  from journal_outbox.enqueue_entry [OF enq]
  show "entry w' = (if is_ok r \<and> entry w (i, a) = None
       then (entry w)((i, a) \<mapsto> \<lparr> ce_lease_id = l, ce_idempotency_key = key, ce_payload = payload,
                               ce_attempts = 0, ce_delivered = False \<rparr>)
       else entry w)" .
qed

text \<open>
  The result that a leased job is reported with: the one its execution gives, its log marked as
  truncated when the upload of the log lost something or did not end in time.
\<close>

definition leased_result :: "outside \<Rightarrow> runner_config \<Rightarrow> job_spec \<Rightarrow> world \<Rightarrow> job_result \<Rightarrow> bool" where
  "leased_result E config spec w result \<longleftrightarrow>
     (\<exists>own u. execute_leased E config spec w = (Inr own, u) \<and>
        result = own\<lparr> jr_log_truncated := (jr_log_truncated own \<or> log_lost (o_flush E (trace u @ [FlushLogs 15000]))) \<rparr>)"

text \<open>What reporting a result leaves in the outbox, for its attempt and a lease.\<close>

definition kept_completion :: "outside \<Rightarrow> job_result \<Rightarrow> string \<Rightarrow> completion_entry \<Rightarrow> bool" where
  "kept_completion E result lease_id e \<longleftrightarrow>
     ce_lease_id e = lease_id \<and>
     ce_idempotency_key e = completion_idempotency_key (jr_job_id result) (jr_attempt result) \<and>
     o_result_text E result = Inr (ce_payload e) \<and>
     ce_attempts e \<le> 5"

text \<open>
  Reporting a completion either fails before it touches the journal, or it puts the completion
  into the outbox and, when that succeeded, goes on with the delivery.
\<close>

lemma report_completionE:
  assumes "report_completion E config plane l result w = (r, w')"
  obtains (untouched) "\<not> is_ok r" and "w_journal w' = w_journal w"
  | (enqueued) u payload x v where "w_journal u = w_journal w" and "o_result_text E result = Inr payload"
      and "journal_enqueue E (jr_job_id result) (jr_attempt result) l
        (completion_idempotency_key (jr_job_id result) (jr_attempt result)) payload u = (x, v)"
      and "is_ok x \<and> deliver E plane l result completion_attempts v = (r, w') \<or> \<not> is_ok x \<and> \<not> is_ok r \<and> w' = v"
proof -
  let ?i = "jr_job_id result" and ?a = "jr_attempt result"
  obtain r1 u where u: "journal_open E (journal_path config) w = (r1, u)" by (cases "journal_open E (journal_path config) w")
  note same = journal_open_same [OF u]
  show ?thesis
  proof (cases "\<exists>payload. r1 = Inr () \<and> o_result_text E result = Inr payload")
    case False
    with assms u same have "\<not> is_ok r" "w_journal w' = w_journal w"
      by (auto simp: report_completion_def and_then_def lift_def split: sum.splits)
    then show ?thesis by (rule untouched)
  next
    case True
    then obtain payload where payload: "r1 = Inr ()" "o_result_text E result = Inr payload" by blast
    obtain x v where v: "journal_enqueue E ?i ?a l (completion_idempotency_key ?i ?a) payload u = (x, v)"
      by (cases "journal_enqueue E ?i ?a l (completion_idempotency_key ?i ?a) payload u")
    show ?thesis
      by (rule enqueued [OF _ payload(2) v])
        (use assms u same payload v in \<open>cases x; auto simp: report_completion_def and_then_def lift_def\<close>)+
  qed
qed

lemma report_completion_entries:
  assumes run: "report_completion E config (http_plane E p) l result w = (r, w')"
    and k: "k = (jr_job_id result, jr_attempt result)"
  shows "(\<forall>q. q \<noteq> k \<longrightarrow> entry w' q = entry w q) \<and> evolved (entry w k) (entry w' k) \<and>
    (r = Inr () \<longrightarrow> is_delivered w' k) \<and>
    (is_delivered w' k \<and> \<not> is_delivered w k \<longrightarrow> (\<exists>h. prefix h (trace w') \<and> http_acknowledged E p h l result)) \<and>
    (entry w k = None \<longrightarrow> (case entry w' k of None \<Rightarrow> r \<noteq> Inr () | Some e \<Rightarrow> kept_completion E result l e))"
  using run
proof (cases rule: report_completionE)
  case untouched
  then show ?thesis by (auto simp: is_delivered_def split: option.splits)
next
  case (enqueued u payload x v)
  note enq = journal_enqueue_entry(2) [OF enqueued(3)]
  have before: "evolved (entry w k) (entry v k)" "is_delivered v k = is_delivered w k"
    "\<And>q. q \<noteq> k \<Longrightarrow> entry v q = entry w q"
    using enq enqueued(1) by (auto simp: k is_delivered_def evolved_def split: option.splits)
  from enqueued(4) show ?thesis
  proof (elim disjE conjE)
    assume "\<not> is_ok x" "\<not> is_ok r" "w' = v"
    with enq enqueued(1) show ?thesis by (auto simp: is_delivered_def split: option.splits)
  next
    assume x: "is_ok x" and "deliver E (http_plane E p) l result completion_attempts v = (r, w')"
    from http.deliver_settles [OF this(2)]
    have d: "settles (\<lambda>h. http_acknowledged E p h l result) k 5 v w'"
      and ok: "r = Inr () \<Longrightarrow> entry v k \<noteq> None \<Longrightarrow> is_delivered w' k"
      by (auto simp: completion_attempts_def k)
    have present: "entry v k \<noteq> None" using enq x by (auto simp: k)
    then obtain e e' where e: "entry v k = Some e" and e': "entry w' k = Some e'"
      using settles_present [OF d] by blast
    have "kept_completion E result l e'" if new: "entry w k = None"
    proof -
      have "e = \<lparr> ce_lease_id = l, ce_idempotency_key = completion_idempotency_key (jr_job_id result) (jr_attempt result),
          ce_payload = payload, ce_attempts = 0, ce_delivered = False \<rparr>"
        using e enq x new enqueued(1) by (simp add: k)
      with evolved_Some settlesD(4) [OF d] settlesD(5) [OF d e e'] e e' enqueued(2)
      show ?thesis by (fastforce simp: kept_completion_def)
    qed
    with before settlesD [OF d] ok present e' show ?thesis by (auto intro: evolved_trans)
  qed
qed

lemma keeps_entry: "keeps w w' \<Longrightarrow> entry w' = entry w"
  by (simp add: keeps_def journal_entry_def)

text \<open>Every leased job has exactly one result, and its execution keeps the outbox.\<close>

lemma leased_result_unique: "leased_result E config spec w x \<Longrightarrow> leased_result E config spec w y \<Longrightarrow> x = y"
  unfolding leased_result_def by auto

lemma leased_result_ids:
  "leased_result E config spec w result \<Longrightarrow> jr_job_id result = js_id spec \<and> jr_attempt result = js_attempt spec"
  unfolding leased_result_def by (auto dest: execute_leased_settles)

lemma report_completion_ok:
  assumes "report_completion E config (http_plane E p) l result w = (r, w')" and "journal_ok (w_journal w)"
  shows "journal_ok (w_journal w')"
  using assms(1)
proof (cases rule: report_completionE)
  case (enqueued u payload x v)
  have "journal_ok (w_journal v)" using journal_enqueue_entry(3) [OF enqueued(3)] assms(2) enqueued(1) by simp
  with enqueued(4) show ?thesis using settlesD(7) [OF http.deliver_settles [THEN conjunct1]] by blast
qed (use assms(2) in simp)

lemma run_leased_entries:
  assumes run: "run_leased_job E config (http_plane E p) job w = (r, w')"
    and k: "k = (js_id (lj_spec job), js_attempt (lj_spec job))"
  shows "\<exists>result. leased_result E config (lj_spec job) w result \<and> (jr_job_id result, jr_attempt result) = k \<and>
    (\<forall>q. q \<noteq> k \<longrightarrow> entry w' q = entry w q) \<and> evolved (entry w k) (entry w' k) \<and>
    (r = Inr () \<longrightarrow> is_delivered w' k) \<and>
    (is_delivered w' k \<and> \<not> is_delivered w k \<longrightarrow>
      (\<exists>h. prefix h (trace w') \<and> http_acknowledged E p h (lj_lease_id job) result)) \<and>
    (entry w k = None \<longrightarrow> (case entry w' k of None \<Rightarrow> r \<noteq> Inr ()
       | Some e \<Rightarrow> kept_completion E result (lj_lease_id job) e)) \<and>
    (journal_ok (w_journal w) \<longrightarrow> journal_ok (w_journal w'))"
proof -
  obtain r1 u where exec: "execute_leased E config (lj_spec job) w = (r1, u)" by (cases "execute_leased E config (lj_spec job) w")
  with execute_leased_settles obtain own where own: "r1 = Inr own"
    "jr_job_id own = js_id (lj_spec job)" "jr_attempt own = js_attempt (lj_spec job)" "keeps w u" by blast
  let ?lost = "log_lost (o_flush E (trace u @ [FlushLogs 15000]))"
  let ?result = "own\<lparr> jr_log_truncated := (jr_log_truncated own \<or> ?lost) \<rparr>"
  have same: "(if ?lost then own\<lparr> jr_log_truncated := True \<rparr> else own) = ?result" by simp
  have rest: "report_completion E config (http_plane E p) (lj_lease_id job) ?result
      (with_calls u [FlushLogs 15000, CancelJob]) = (r, w')"
    using run exec own(1) unfolding same [symmetric] by (simp add: run_leased_job_def and_then_def ask_def Let_def)
  have "leased_result E config (lj_spec job) w ?result" using exec own(1) unfolding leased_result_def by blast
  moreover have ids: "k = (jr_job_id ?result, jr_attempt ?result)" using own(2,3) k by simp
  moreover note report_completion_entries [OF rest ids] report_completion_ok [OF rest]
  ultimately show ?thesis
    using keeps_entry [OF own(4)] own(4) by (intro exI [of _ ?result]) (auto simp: is_delivered_def keeps_def)
qed


definition sample_leased :: leased_job where
  "sample_leased = \<lparr> lj_lease_id = ''lease-1'', lj_spec = sample_command_job \<rparr>"

lemma sample_plane_answers [simp]:
  "o_http sample_docker h = Inr \<lparr> hp_status = 204, hp_body = [] \<rparr>"
  "o_elapsed sample_docker h = False"
  "o_result_text sample_docker result = Inr (jr_job_id result)"
  "o_flush sample_docker h = FlushedWith False"
  by (simp_all add: sample_docker_def sample_outside_def)

lemma sample_deliver:
  "fst (deliver sample_docker (http_plane sample_docker sample_plane) l result (Suc n) w) = Inr ()"
  by (simp add: and_then_def journal_record_attempt_def journal_mark_delivered_def
      journal_op_defs timed_def http_plane_def complete_def request_defs invoke_def ask_def ret_def lift_def Let_def
      failing_status_def)

lemma sample_report:
  "fst (report_completion sample_docker sample_config (http_plane sample_docker sample_plane) l result w) = Inr ()"
proof -
  have "fst (deliver sample_docker (http_plane sample_docker sample_plane) l result completion_attempts w) = Inr ()" for w
    using sample_deliver [of l result 4 w] by (simp only: completion_attempts_def numeral_eq_Suc) simp
  then show ?thesis
    unfolding report_completion_def and_then_def
    by (simp add: sample_open lift_def journal_enqueue_def journal_op_defs Let_def)
qed

lemma sample_leased_run:
  "fst (run_leased_job sample_docker sample_config (http_plane sample_docker sample_plane) sample_leased sample_world) = Inr ()"
proof -
  obtain r u where "execute_leased sample_docker sample_config (lj_spec sample_leased) sample_world = (r, u)"
    by (cases "execute_leased sample_docker sample_config (lj_spec sample_leased) sample_world")
  moreover from execute_leased_settles [OF this] obtain result where "r = Inr result" by blast
  ultimately show ?thesis
    by (simp add: run_leased_job_def and_then_def ask_def Let_def sample_report)
qed


end
