(* ===== verification/Daemon_Loop.thy ===== *)
theory Daemon_Loop
  imports Daemon
begin

text \<open>
  The leasing loop of \<^verbatim>\<open>run_daemon\<close> (\<^verbatim>\<open>src/control/mod.rs\<close>) as a state machine: permits of the
  semaphore, the place in the loop, the spawned workers and the shutdown token. A worker ends
  at any time, with an error or a panic as well, and gives its permit back.
\<close>

section \<open>States and steps\<close>

datatype daemon_phase = Acquiring | Leasing | Pausing nat | Draining | Stopped

record daemon =
  dm_permits :: nat
  dm_phase :: daemon_phase
  dm_jobs :: "leased_job list"
  dm_shutdown :: bool

datatype daemon_action =
    Signal
  | Acquire
  | StopAcquiring
  | Leased leased_job
  | NoLease
  | LeaseFailed
  | StopLeasing
  | Resume
  | StopPausing
  | Finished leased_job
  | Drained

text \<open>\<^verbatim>\<open>config.concurrency.unwrap_or(1).max(1)\<close>; \<^verbatim>\<open>Semaphore::new\<close> panics above its maximum.\<close>

definition concurrency_of :: "runner_config \<Rightarrow> nat" where
  "concurrency_of config = max (case rc_concurrency config of Some c \<Rightarrow> unat c | None \<Rightarrow> 1) 1"

definition start_daemon :: "runner_config \<Rightarrow> daemon option" where
  "start_daemon config =
     (if concurrency_of config \<le> (2 ^ 64 - 1) div 8
      then Some \<lparr> dm_permits = concurrency_of config, dm_phase = Acquiring, dm_jobs = [], dm_shutdown = False \<rparr>
      else None)"

inductive daemon_step :: "daemon \<Rightarrow> daemon_action \<Rightarrow> daemon \<Rightarrow> bool" where
  signal: "dm_phase s \<noteq> Stopped \<Longrightarrow> \<not> dm_shutdown s \<Longrightarrow> daemon_step s Signal (s\<lparr> dm_shutdown := True \<rparr>)"
| acquire: "dm_phase s = Acquiring \<Longrightarrow> 0 < dm_permits s \<Longrightarrow>
    daemon_step s Acquire (s\<lparr> dm_permits := dm_permits s - 1, dm_phase := Leasing \<rparr>)"
| stop_acquiring: "dm_phase s = Acquiring \<Longrightarrow> dm_shutdown s \<Longrightarrow>
    daemon_step s StopAcquiring (s\<lparr> dm_phase := Draining \<rparr>)"
| leased: "dm_phase s = Leasing \<Longrightarrow>
    daemon_step s (Leased job) (s\<lparr> dm_jobs := job # dm_jobs s, dm_phase := Acquiring \<rparr>)"
| no_lease: "dm_phase s = Leasing \<Longrightarrow>
    daemon_step s NoLease (s\<lparr> dm_permits := dm_permits s + 1, dm_phase := Pausing 1000 \<rparr>)"
| lease_failed: "dm_phase s = Leasing \<Longrightarrow>
    daemon_step s LeaseFailed (s\<lparr> dm_permits := dm_permits s + 1, dm_phase := Pausing 3000 \<rparr>)"
| stop_leasing: "dm_phase s = Leasing \<Longrightarrow> dm_shutdown s \<Longrightarrow>
    daemon_step s StopLeasing (s\<lparr> dm_permits := dm_permits s + 1, dm_phase := Draining \<rparr>)"
| resume: "dm_phase s = Pausing ms \<Longrightarrow> daemon_step s Resume (s\<lparr> dm_phase := Acquiring \<rparr>)"
| stop_pausing: "dm_phase s = Pausing ms \<Longrightarrow> dm_shutdown s \<Longrightarrow>
    daemon_step s StopPausing (s\<lparr> dm_phase := Draining \<rparr>)"
| finished: "dm_phase s \<noteq> Stopped \<Longrightarrow> job \<in> set (dm_jobs s) \<Longrightarrow>
    daemon_step s (Finished job) (s\<lparr> dm_jobs := remove1 job (dm_jobs s), dm_permits := dm_permits s + 1 \<rparr>)"
| drained: "dm_phase s = Draining \<Longrightarrow> dm_jobs s = [] \<Longrightarrow>
    daemon_step s Drained (s\<lparr> dm_phase := Stopped \<rparr>)"

code_pred daemon_step .

inductive_cases daemon_stepE: "daemon_step s a t"

inductive daemon_run :: "daemon \<Rightarrow> daemon_action list \<Rightarrow> daemon \<Rightarrow> bool" where
  nil: "daemon_run s [] s"
| step: "daemon_run s as t \<Longrightarrow> daemon_step t a u \<Longrightarrow> daemon_run s (as @ [a]) u"

section \<open>Starting\<close>

text \<open>What happens before the loop: the client, the journal and the completions left over.\<close>

definition open_daemon :: "outside \<Rightarrow> runner_config \<Rightarrow> (world, world control_plane) op" where
  "open_daemon E config =
     and_then (new_http_plane E config) (\<lambda>plane.
     and_then (journal_open E (journal_path config)) (\<lambda>_.
     and_then (replay_pending_completions E (http_plane E plane)) (\<lambda>_.
     ret (http_plane E plane))))"

section \<open>Invariants\<close>

definition leased_jobs :: "daemon_action list \<Rightarrow> leased_job multiset" where
  "leased_jobs as = mset (List.map_filter (\<lambda>a. case a of Leased job \<Rightarrow> Some job | _ \<Rightarrow> None) as)"

definition finished_jobs :: "daemon_action list \<Rightarrow> leased_job multiset" where
  "finished_jobs as = mset (List.map_filter (\<lambda>a. case a of Finished job \<Rightarrow> Some job | _ \<Rightarrow> None) as)"

definition held :: "daemon \<Rightarrow> nat" where
  "held s = (if dm_phase s = Leasing then 1 else 0)"

definition daemon_ok :: "nat \<Rightarrow> daemon_action list \<Rightarrow> daemon \<Rightarrow> bool" where
  "daemon_ok n as s \<longleftrightarrow>
     dm_permits s + held s + length (dm_jobs s) = n \<and>
     leased_jobs as = finished_jobs as + mset (dm_jobs s) \<and>
     (dm_shutdown s \<longleftrightarrow> Signal \<in> set as) \<and>
     (dm_phase s \<in> {Draining, Stopped} \<longrightarrow> dm_shutdown s) \<and>
     (dm_phase s = Stopped \<longrightarrow> dm_jobs s = [])"

lemma jobs_append:
  "leased_jobs (as @ bs) = leased_jobs as + leased_jobs bs"
  "finished_jobs (as @ bs) = finished_jobs as + finished_jobs bs"
  by (simp_all add: leased_jobs_def finished_jobs_def)

lemma jobs_single:
  "leased_jobs [a] = (case a of Leased job \<Rightarrow> {#job#} | _ \<Rightarrow> {#})"
  "finished_jobs [a] = (case a of Finished job \<Rightarrow> {#job#} | _ \<Rightarrow> {#})"
  by (cases a; simp add: leased_jobs_def finished_jobs_def map_filter_simps)+

lemma daemon_step_ok: "daemon_step s a t \<Longrightarrow> daemon_ok n as s \<Longrightarrow> daemon_ok n (as @ [a]) t"
  by (induction rule: daemon_step.induct)
     (auto simp: daemon_ok_def held_def jobs_append jobs_single length_remove1 split: if_splits
        dest: length_pos_if_in_set)

lemma daemon_run_ok: "daemon_run s as t \<Longrightarrow> daemon_ok n [] s \<Longrightarrow> daemon_ok n as t"
  by (induction rule: daemon_run.induct) (auto intro: daemon_step_ok)

lemma start_daemon_ok: "start_daemon config = Some s \<Longrightarrow> daemon_ok (concurrency_of config) [] s"
  by (auto simp: start_daemon_def daemon_ok_def held_def leased_jobs_def finished_jobs_def map_filter_simps
      split: if_splits)

text \<open>
  C7: However leases, worker ends and the shutdown signal interleave, at most the configured
  number of jobs (at least one) runs at a time; the jobs leased so far are exactly those that
  have ended and those that run, each lease counted once; the loop is left only after a
  shutdown signal, and when the daemon stops every leased job has ended and every permit is
  back.
\<close>

theorem daemon_respects_concurrency:
  assumes "start_daemon config = Some s" and "daemon_run s as t"
  shows "length (dm_jobs t) \<le> concurrency_of config \<and>
    leased_jobs as = finished_jobs as + mset (dm_jobs t) \<and>
    (dm_phase t \<in> {Draining, Stopped} \<longrightarrow> Signal \<in> set as) \<and>
    (dm_phase t = Stopped \<longrightarrow> leased_jobs as = finished_jobs as \<and> dm_permits t = concurrency_of config)"
  using daemon_run_ok [OF assms(2) start_daemon_ok [OF assms(1)]]
  by (auto simp: daemon_ok_def held_def)

definition sample_lease :: leased_job where
  "sample_lease = \<lparr> lj_lease_id = ''lease-1'', lj_spec = sample_job \<rparr>"

lemma sample_daemon_start:
  "start_daemon sample_config = Some \<lparr> dm_permits = 1, dm_phase = Acquiring, dm_jobs = [], dm_shutdown = False \<rparr>"
  by (simp add: start_daemon_def concurrency_of_def sample_config_def default_local_def)

lemma daemon_run_Cons: "daemon_run t as u \<Longrightarrow> daemon_step s a t \<Longrightarrow> daemon_run s (a # as) u"
  by (induction rule: daemon_run.induct)
     (use daemon_run.nil daemon_run.step in \<open>force, metis append_Cons daemon_run.step\<close>)

theorem daemon_respects_concurrency_witness:
  "length (dm_jobs \<lparr> dm_permits = 0, dm_phase = Acquiring, dm_jobs = [sample_lease], dm_shutdown = False \<rparr>)
     \<le> concurrency_of sample_config"
proof -
  let ?s = "\<lparr> dm_permits = 1, dm_phase = Acquiring, dm_jobs = [], dm_shutdown = False \<rparr>"
  let ?l = "\<lparr> dm_permits = 0, dm_phase = Leasing, dm_jobs = [], dm_shutdown = False \<rparr>"
  let ?t = "\<lparr> dm_permits = 0, dm_phase = Acquiring, dm_jobs = [sample_lease], dm_shutdown = False \<rparr>"
  have "daemon_step ?s Acquire ?l" "daemon_step ?l (Leased sample_lease) ?t"
    using daemon_step.acquire [of ?s] daemon_step.leased [of ?l sample_lease] by simp_all
  then have "daemon_run ?s [Acquire, Leased sample_lease] ?t"
    by (blast intro: daemon_run_Cons daemon_run.nil)
  from daemon_respects_concurrency [OF sample_daemon_start this] show ?thesis by blast
qed

section \<open>Shutdown\<close>

lemma daemon_progress:
  assumes ok: "daemon_ok n as s" and n: "0 < n" and running: "dm_phase s \<noteq> Stopped"
  shows "\<exists>a t. daemon_step s a t"
proof (cases "dm_jobs s")
  case (Cons job ls)
  then have "job \<in> set (dm_jobs s)" by simp
  from daemon_step.finished [OF running this] show ?thesis by blast
next
  case Nil
  then show ?thesis
  proof (cases "dm_phase s")
    case Acquiring
    with ok n Nil have "0 < dm_permits s" by (simp add: daemon_ok_def held_def)
    with Acquiring show ?thesis by (blast intro: daemon_step.acquire)
  qed (use Nil running in \<open>blast intro: daemon_step.intros\<close>)+
qed

text \<open>Outside the loop nothing is leased any more: every step ends a worker or the daemon.\<close>

definition remaining :: "daemon \<Rightarrow> nat" where
  "remaining s = length (dm_jobs s) + (if dm_phase s = Stopped then 0 else 1)"

lemma draining_step:
  assumes "daemon_step s a t" and "dm_phase s = Draining" and "dm_shutdown s"
  shows "dm_phase t \<in> {Draining, Stopped} \<and> dm_shutdown t \<and> remaining t + 1 = remaining s"
  using assms
  by (cases rule: daemon_stepE; cases "dm_jobs s") (auto simp: remaining_def length_remove1 simp del: remove1.simps)

lemma stopped_no_step: "daemon_step s a t \<Longrightarrow> dm_phase s = Stopped \<Longrightarrow> dm_jobs s = [] \<Longrightarrow> False"
  by (cases rule: daemon_stepE) auto

lemma draining_run:
  assumes "daemon_run s as t" and "dm_phase s = Draining" and "dm_shutdown s"
  shows "dm_phase t \<in> {Draining, Stopped} \<and> dm_shutdown t \<and> (dm_phase t = Stopped \<longrightarrow> dm_jobs t = []) \<and>
    remaining t + length as = remaining s"
  using assms
proof (induction rule: daemon_run.induct)
  case (step s as t a u)
  note IH = step.IH [OF step.prems]
  then have "dm_phase t = Draining" using stopped_no_step [OF step.hyps(2)] by auto
  moreover have "dm_jobs u = []" if "dm_phase u = Stopped"
    using \<open>dm_phase t = Draining\<close> that by (cases rule: daemon_stepE [OF step.hyps(2)]) auto
  ultimately show ?case using draining_step [OF step.hyps(2)] IH by auto
qed simp

lemma drain:
  assumes "dm_phase s = Draining" and "dm_jobs s = ls"
  shows "\<exists>t. daemon_run s (map Finished ls @ [Drained]) t \<and> dm_phase t = Stopped"
  using assms
proof (induction ls arbitrary: s)
  case Nil
  then show ?case
    using daemon_run_Cons [OF daemon_run.nil daemon_step.drained [of s]] by auto
next
  case (Cons job ls)
  let ?t = "s\<lparr> dm_jobs := remove1 job (dm_jobs s), dm_permits := dm_permits s + 1 \<rparr>"
  from Cons.prems have "daemon_step s (Finished job) ?t" by (intro daemon_step.finished) simp_all
  moreover obtain u where "daemon_run ?t (map Finished ls @ [Drained]) u" "dm_phase u = Stopped"
    using Cons.IH [of ?t] Cons.prems by auto
  ultimately show ?case by (auto intro: daemon_run_Cons)
qed

lemma leave_loop:
  assumes "dm_shutdown s" and "dm_phase s \<notin> {Draining, Stopped}"
  shows "\<exists>a t. daemon_step s a t \<and> a \<in> {StopAcquiring, StopLeasing, StopPausing} \<and>
    dm_phase t = Draining \<and> dm_jobs t = dm_jobs s"
proof (cases "dm_phase s")
  case Acquiring
  then show ?thesis using daemon_step.stop_acquiring [OF Acquiring assms(1)] by force
next
  case Leasing
  then show ?thesis using daemon_step.stop_leasing [OF Leasing assms(1)] by force
next
  case (Pausing ms)
  then show ?thesis using daemon_step.stop_pausing [OF Pausing assms(1)] by force
qed (use assms in auto)

lemma leased_jobs_drain: "leased_jobs (map Finished ls @ [Drained]) = {#}"
  by (induction ls) (simp_all add: leased_jobs_def map_filter_simps)

lemma daemon_can_stop:
  assumes ok: "daemon_ok n as t" and shut: "dm_shutdown t"
  shows "\<exists>bs u. daemon_run t bs u \<and> dm_phase u = Stopped \<and> leased_jobs bs = {#} \<and> length bs \<le> length (dm_jobs t) + 2"
proof (cases "dm_phase t \<in> {Draining, Stopped}")
  case True
  then consider "dm_phase t = Stopped" | "dm_phase t = Draining" by auto
  then show ?thesis
  proof cases
    case 1
    then show ?thesis
      by (intro exI [of _ "[]"] exI [of _ t]) (simp add: daemon_run.nil leased_jobs_def map_filter_simps)
  next
    case 2
    with drain [OF 2 refl] leased_jobs_drain [of "dm_jobs t"] show ?thesis
      by (intro exI [of _ "map Finished (dm_jobs t) @ [Drained]"]) auto
  qed
next
  case False
  with shut obtain a v where a: "daemon_step t a v" "a \<in> {StopAcquiring, StopLeasing, StopPausing}"
    and v: "dm_phase v = Draining" "dm_jobs v = dm_jobs t"
    using leave_loop by blast
  from drain [OF v] obtain u where u: "daemon_run v (map Finished (dm_jobs t) @ [Drained]) u" "dm_phase u = Stopped"
    by blast
  have "leased_jobs (a # map Finished (dm_jobs t) @ [Drained]) = {#}"
    using a(2) leased_jobs_drain [of "dm_jobs t"] by (auto simp: leased_jobs_def map_filter_simps)
  with daemon_run_Cons [OF u(1) a(1)] u(2) show ?thesis
    by (intro exI [of _ "a # map Finished (dm_jobs t) @ [Drained]"]) auto
qed

lemma draining_leases_nothing:
  assumes "daemon_run s bs u" and "dm_shutdown s" and "dm_phase s = Draining"
  shows "leased_jobs bs = {#}"
  using assms
proof (induction rule: daemon_run.induct)
  case (step s bs t a u)
  have "dm_phase t \<in> {Draining, Stopped}" using draining_run [OF step.hyps(1) step.prems(2,1)] by blast
  then have "leased_jobs [a] = {#}" using step.hyps(2) by (cases rule: daemon_stepE) (auto simp: jobs_single)
  with step.IH [OF step.prems] show ?case by (simp add: jobs_append)
qed (simp add: leased_jobs_def map_filter_simps)

text \<open>
  C19: The daemon can always go on until it stops, and it does stop: in every reachable state
  but the stopped one some step is possible; once it was signalled it can reach the stop from
  wherever it is without another lease, in as many steps as jobs are running and two more; and
  once it has left the loop every run from there has at most that length, so it stops as soon
  as its workers end.
\<close>

theorem daemon_stops:
  assumes start: "start_daemon config = Some s" and run: "daemon_run s as t"
  shows "(dm_phase t \<noteq> Stopped \<longrightarrow> (\<exists>a u. daemon_step t a u)) \<and>
    (Signal \<in> set as \<longrightarrow> (\<exists>bs u. daemon_run t bs u \<and> dm_phase u = Stopped \<and> leased_jobs bs = {#} \<and>
       length bs \<le> length (dm_jobs t) + 2)) \<and>
    (dm_phase t = Draining \<longrightarrow> (\<forall>bs u. daemon_run t bs u \<longrightarrow>
       length bs \<le> length (dm_jobs t) + 1 \<and> leased_jobs (as @ bs) = leased_jobs as))"
proof (intro conjI impI allI)
  note ok = daemon_run_ok [OF run start_daemon_ok [OF start]]
  show "\<exists>a u. daemon_step t a u" if "dm_phase t \<noteq> Stopped"
    by (rule daemon_progress [OF ok _ that]) (simp add: concurrency_of_def)
  show "\<exists>bs u. daemon_run t bs u \<and> dm_phase u = Stopped \<and> leased_jobs bs = {#} \<and> length bs \<le> length (dm_jobs t) + 2"
    if "Signal \<in> set as"
    using daemon_can_stop [OF ok] ok that by (simp add: daemon_ok_def)
  fix bs u
  assume draining: "dm_phase t = Draining" and more: "daemon_run t bs u"
  have shut: "dm_shutdown t" using ok draining unfolding daemon_ok_def by blast
  from draining_run [OF more draining shut] draining
  show "length bs \<le> length (dm_jobs t) + 1" by (simp add: remaining_def)
  from draining_leases_nothing [OF more shut draining]
  show "leased_jobs (as @ bs) = leased_jobs as" by (simp add: jobs_append)
qed

lemma sample_signal:
  "daemon_run \<lparr> dm_permits = 1, dm_phase = Acquiring, dm_jobs = [], dm_shutdown = False \<rparr> [Signal]
     \<lparr> dm_permits = 1, dm_phase = Acquiring, dm_jobs = [], dm_shutdown = True \<rparr>"
  by (rule daemon_run_Cons [OF daemon_run.nil])
     (use daemon_step.signal [of "\<lparr> dm_permits = 1, dm_phase = Acquiring, dm_jobs = [], dm_shutdown = False \<rparr>"] in simp)

theorem daemon_stops_witness:
  "\<exists>bs u. daemon_run \<lparr> dm_permits = 1, dm_phase = Acquiring, dm_jobs = [], dm_shutdown = True \<rparr> bs u \<and>
     dm_phase u = Stopped \<and> length bs \<le> 2"
proof -
  obtain bs u where "daemon_run \<lparr> dm_permits = 1, dm_phase = Acquiring, dm_jobs = [], dm_shutdown = True \<rparr> bs u"
    "dm_phase u = Stopped" "length bs \<le> length ([] :: leased_job list) + 2"
    using daemon_stops [OF sample_daemon_start sample_signal] by fastforce
  then show ?thesis by (intro exI [of _ bs] exI [of _ u]) simp
qed

end
