(* ===== verification/Command_Line.thy ===== *)
theory Command_Line
  imports Daemon_Loop
begin

text \<open>
  The commands of the binary (\<^verbatim>\<open>src/main.rs\<close>, \<^verbatim>\<open>src/cli.rs\<close>, \<^verbatim>\<open>src/janitor.rs\<close>,
  \<^verbatim>\<open>src/executor/mod.rs\<close>) and the file-based job source of \<^verbatim>\<open>src/control/mock.rs\<close>. A command
  returns what it prints.
\<close>

section \<open>Commands\<close>

datatype command =
    Doctor
  | Run string "string option"
  | RunDaemon string
  | Cleanup string
  | Version

datatype printed =
    PrintVersion
  | PrintReport doctor_report
  | PrintResult job_result
  | PrintNothing

definition load_config :: "outside \<Rightarrow> string \<Rightarrow> (world, runner_config) op" where
  "load_config E path =
     and_then (ask (o_text E) NewUuid) (\<lambda>uuid.
     lift (load (o_quote E) (o_file E) (o_toml E) (o_env E) uuid path))"

definition local_config :: "outside \<Rightarrow> runner_config" where
  "local_config E = default_local (o_env E) (o_current_dir E)"

definition read_job :: "outside \<Rightarrow> string \<Rightarrow> job_spec result" where
  "read_job E path = from_path (o_file E) (o_parse E) (o_decode_alpha E) (o_decode_beta E) path"

definition doctor :: "outside \<Rightarrow> (world, doctor_report) op" where
  "doctor E =
     and_then (factory E (local_config E) False) (\<lambda>executors.
     and_then (lift (get_executor executors ''docker'')) (\<lambda>executor. xc_doctor executor))"

text \<open>Attempt zero asks for the next local attempt of the job.\<close>

definition assign_attempt :: "outside \<Rightarrow> runner_config \<Rightarrow> job_spec \<Rightarrow> (world, job_spec) op" where
  "assign_attempt E config spec =
     (if js_attempt spec = 0 then
        and_then (journal_open E (journal_path config)) (\<lambda>_.
        and_then (journal_next_attempt E (js_id spec)) (\<lambda>attempt.
        ret (spec\<lparr> js_attempt := attempt \<rparr>)))
      else ret spec)"

definition run_job_file :: "outside \<Rightarrow> string \<Rightarrow> string option \<Rightarrow> (world, job_result) op" where
  "run_job_file E job config =
     and_then (case config of None \<Rightarrow> ret (local_config E) | Some path \<Rightarrow> load_config E path) (\<lambda>config.
     and_then (lift (read_job E job)) (\<lambda>spec.
     and_then (assign_attempt E config spec) (\<lambda>spec.
     and_then (factory E config False) (\<lambda>executors.
     and_then (lift (select_for executors spec)) (\<lambda>executor.
     xc_run executor spec False)))))"

text \<open>\<^verbatim>\<open>janitor::cleanup\<close>\<close>

definition janitor_cleanup :: "world executor \<Rightarrow> (world, unit) op" where
  "janitor_cleanup executor = xc_cleanup executor"

definition cleanup_command :: "outside \<Rightarrow> string \<Rightarrow> (world, unit) op" where
  "cleanup_command E path =
     and_then (load_config E path) (\<lambda>config.
     and_then (factory E config False) (\<lambda>executors.
     and_then (lift (get_executor executors ''docker'')) janitor_cleanup))"

text \<open>The daemon goes on as the state machine of \<open>Daemon_Loop\<close> once it is open.\<close>

fun run_main :: "outside \<Rightarrow> command \<Rightarrow> (world, printed) op" where
  "run_main E Version = ret PrintVersion"
| "run_main E Doctor = and_then (doctor E) (\<lambda>report. ret (PrintReport report))"
| "run_main E (Run job config) = and_then (run_job_file E job config) (\<lambda>result. ret (PrintResult result))"
| "run_main E (Cleanup config) = and_then (cleanup_command E config) (\<lambda>_. ret PrintNothing)"
| "run_main E (RunDaemon config) =
     and_then (load_config E config) (\<lambda>config. and_then (open_daemon E config) (\<lambda>_. ret PrintNothing))"

text \<open>The job source for a file does not look at the version of the document.\<close>

definition file_plane_read :: "outside \<Rightarrow> string \<Rightarrow> job_spec result" where
  "file_plane_read E path =
     bind_result (o_file E path) (\<lambda>text. bind_result (o_parse E text) (o_decode_alpha E))"

section \<open>Local attempts\<close>

lemma journal_next_attempt_ok:
  assumes "journal_next_attempt E i w = (Inr n, w')"
  shows "unat n = max_attempt i (jobs (w_journal w)) + 1"
proof -
  obtain j where "next_attempt (o_faults E (trace w @ [ReadNextAttempt i])) i (w_journal w) = (Inr n, j)"
    using assms by (auto simp: journal_next_attempt_def Let_def split: prod.splits)
  then have "max_attempt i (jobs (w_journal w)) + 1 < 2 ^ LENGTH(32)"
    and "n = of_nat (max_attempt i (jobs (w_journal w)) + 1)"
    by (simp_all only: next_attempt_ok_iff) simp_all
  then show ?thesis by (simp only: unat_of_nat_small)
qed

lemma assign_attempt_fresh:
  assumes "assign_attempt E config spec w = (Inr spec', w')" and "js_attempt spec = 0"
  shows "js_id spec' = js_id spec \<and> unat (js_attempt spec') = max_attempt (js_id spec) (jobs (w_journal w)) + 1"
proof -
  from assms obtain v n where v: "journal_open E (journal_path config) w = (Inr (), v)"
    and n: "journal_next_attempt E (js_id spec) v = (Inr n, w')" and spec': "spec' = spec\<lparr> js_attempt := n \<rparr>"
    by (auto simp: assign_attempt_def and_then_ok ret_def)
  from journal_open_same [OF v] journal_next_attempt_ok [OF n] spec' show ?thesis by simp
qed

lemma load_config_journal: "load_config E path w = (r, w') \<Longrightarrow> w_journal w' = w_journal w"
  by (auto simp: load_config_def and_then_def ask_def Let_def lift_def)

text \<open>
  C40: A job file without an attempt, run from the command line, runs as the attempt after the
  largest one the journal holds for that job, so its result and its artifacts never carry the
  number of an earlier local attempt.
\<close>

theorem local_runs_get_fresh_attempts:
  assumes run: "run_job_file E job config w = (Inr result, w')"
    and spec: "read_job E job = Inr spec" "js_attempt spec = 0"
  shows "jr_job_id result = js_id spec \<and>
    unat (jr_attempt result) = max_attempt (js_id spec) (jobs (w_journal w)) + 1 \<and>
    (\<forall>attempt s. job_state (w_journal w) (js_id spec, attempt) = Some s \<longrightarrow> attempt < jr_attempt result)"
proof -
  obtain c u where c: "(case config of None \<Rightarrow> ret (local_config E) | Some path \<Rightarrow> load_config E path) w = (Inr c, u)"
    and go: "and_then (lift (read_job E job)) (\<lambda>spec. and_then (assign_attempt E c spec) (\<lambda>spec.
       and_then (factory E c False) (\<lambda>executors. and_then (lift (select_for executors spec)) (\<lambda>executor.
       xc_run executor spec False)))) u = (Inr result, w')"
    using run unfolding run_job_file_def by (rule and_then_okE)
  have same: "w_journal u = w_journal w"
    using c by (cases config) (auto simp: ret_def dest: load_config_journal)
  from go obtain spec' v executors x executor where spec': "assign_attempt E c spec u = (Inr spec', v)"
    and ex: "factory E c False v = (Inr executors, x)" "select_for executors spec' = Inr executor"
      "xc_run executor spec' False x = (Inr result, w')"
    by (auto simp: and_then_ok lift_def spec)
  have "executor = docker_executor E c"
    using selected_docker ex(2) factory_docker [OF ex(1)] by blast
  then have "run E c spec' x = (Inr result, w')" using ex(3) by (simp add: docker_executor_def)
  from docker.consistent [OF this] have id: "jr_job_id result = js_id spec'" "jr_attempt result = js_attempt spec'"
    by (simp_all add: consistent_result_def)
  from assign_attempt_fresh [OF spec' spec(2)] same have fresh: "js_id spec' = js_id spec"
    "unat (js_attempt spec') = max_attempt (js_id spec) (jobs (w_journal w)) + 1"
    by simp_all
  have "attempt < js_attempt spec'" if "job_state (w_journal w) (js_id spec, attempt) = Some s" for attempt s
    using job_state_SomeD [OF that] fresh(2) by (simp add: word_less_nat_alt)
  with id fresh show ?thesis by auto
qed

lemma sample_load_config:
  "load_config sample_docker path w = (Inr sample_config, with_calls w [NewUuid])"
proof -
  have "sample_config\<lparr> rc_runner_id := ''runner-1'' \<rparr> = sample_config" "rc_name sample_config = Some ''runner-1''"
    by (simp_all add: sample_config_def)
  then have "load (\<lambda>s. s) (\<lambda>_. Inr ''text'') (\<lambda>_. Inr sample_config) (\<lambda>_. None) ''now'' path = Inr sample_config"
    using sample_load by (simp add: load_def with_context_def)
  then show ?thesis
    by (simp add: load_config_def and_then_def ask_def Let_def lift_def sample_docker_def sample_outside_def)
qed

lemma sample_read_job: "read_job sample_docker path = Inr (sample_command_job\<lparr> js_attempt := 0 \<rparr>)"
  by (simp add: read_job_def from_path_def from_json_def with_context_def sample_docker_def sample_outside_def)

lemma sample_factory:
  "factory sample_docker sample_config sender w =
     (Inr [''docker'' \<mapsto> docker_executor sample_docker sample_config],
      w\<lparr> trace := trace w @ [ConnectDocker], w_log := fresh_log sender \<rparr>)"
proof -
  have "trim ''docker'' \<noteq> []" "validate_platform (\<lambda>s. s) ''linux/amd64'' = Inr ()" by code_simp+
  then show ?thesis
    by (simp add: factory_def with_log_sender_def connect_def op_context_def with_context_def and_then_def invoke_def
        Let_def lift_def register_def sample_docker_def sample_outside_def sample_config_def default_local_def
        platform_from_env_def default_platform_def)
qed

lemma sample_selected:
  "select_for [''docker'' \<mapsto> docker_executor sample_docker sample_config] sample_command_job =
     Inr (docker_executor sample_docker sample_config)"
  by (simp add: select_for_def get_executor_def ok_or_def satisfies_def requirements_of_def sample_command_job_def
      sample_workflow_job_def sample_defs docker_executor_def docker_capabilities_def new_capabilities_def supports_def bail_if_def)

text \<open>The first run of a job on an empty journal is attempt one.\<close>

lemma sample_local_run:
  "fst (run_job_file sample_docker ''job.json'' (Some ''runner.toml'') sample_world) =
     Inr (sample_result sample_command_job ''done'')"
proof -
  let ?job = "sample_command_job\<lparr> js_attempt := 0 \<rparr>"
  have job: "?job\<lparr> js_attempt := 1 \<rparr> = sample_command_job"
    by (simp add: sample_command_job_def sample_workflow_job_def sample_defs)
  have exec: "xc_run (docker_executor E c) = (\<lambda>spec cancellable. run E c spec)" for E c
    by (simp add: docker_executor_def)
  have assign: "assign_attempt sample_docker sample_config ?job w =
      (Inr sample_command_job, with_calls w [OpenJournal (journal_path sample_config), ReadNextAttempt (js_id sample_command_job)])"
    if "w_journal w = empty_journal" for w
    using that job
    by (simp add: assign_attempt_def and_then_def sample_open journal_next_attempt_def Let_def next_attempt_def
        locked_def max_attempt_def empty_journal_def ret_def)
  show ?thesis
    unfolding run_job_file_def and_then_def
    by (simp add: sample_load_config sample_read_job lift_def assign sample_factory sample_selected
        exec sample_command_run_any fresh_log_def sample_world_def)
qed

theorem local_runs_get_fresh_attempts_witness:
  "unat (jr_attempt (sample_result sample_command_job ''done'')) = max_attempt (js_id sample_command_job) [] + 1"
proof -
  obtain w' where "run_job_file sample_docker ''job.json'' (Some ''runner.toml'') sample_world =
      (Inr (sample_result sample_command_job ''done''), w')"
    using sample_local_run by (metis prod.collapse)
  from local_runs_get_fresh_attempts [OF this sample_read_job] show ?thesis
    by (simp add: sample_world_def empty_journal_def max_attempt_def)
qed

end
