(* ===== verification/Leased_Jobs.thy ===== *)
theory Leased_Jobs
  imports Daemon_Completion Command_Line
begin

text \<open>
  What it takes for a leased job to be reported as completed, from its admission to the request
  to remove its containers: the properties of the policy, of the executor and of the daemon
  together.
\<close>

text \<open>A completed leased job was admitted, and its result is the one the Docker executor returned.\<close>

lemma execute_leased_completed:
  assumes exec: "execute_leased E config spec w = (Inr result, w')" and completed: "jr_status result = ''completed''"
  obtains v where "admitted (o_realpath E) config DaemonContext spec"
    and "trace v = trace w @ [ConnectDocker]" and "w_journal v = w_journal w" and "run E config spec v = (Inr result, w')"
proof -
  from execute_leased_result [OF exec] completed obtain v where
    connect: "with_log_sender E (o_quote E) config True w = (Inr (), v)" and run: "run E config spec v = (Inr result, w')"
    by (auto simp: gave_up_def)
  have "admitted (o_realpath E) config DaemonContext spec"
  proof (cases "validate_with_context (o_realpath E) spec config DaemonContext")
    case (Inl e)
    with exec completed show ?thesis
      by (auto simp: execute_leased_def match_op_def lift_def failed_result_eq failed_from_failure_def)
  qed (simp add: validate_with_context_ok)
  moreover have "trace v = trace w @ [ConnectDocker]" "w_journal v = w_journal w"
    using connect by (auto simp: with_log_sender_def connect_def op_context_def and_then_def invoke_def Let_def lift_def
        split: sum.splits prod.splits)
  ultimately show thesis using run by (rule that)
qed

text \<open>The container of a completed run, and the confinement of all that were made with it.\<close>

lemma completed_containers:
  assumes run: "run E config spec v = (Inr result, w')" and completed: "jr_status result = ''completed''"
    and memory: "max_memory_mb (rc_limits config) < 2 ^ 43" and token: "lasting_cancellation E"
    and v: "trace v = trace w @ [ConnectDocker]" and new: "new_calls w w' = ConnectDocker # new_calls v w'"
  shows "\<exists>c dir network. cc_binds c \<noteq> [] \<and>
    responded (o_id E) (CreateContainer c) (Inr (sb_container_id (jr_sandbox result))) (trace w) (trace w') \<and>
    responded (o_temp_dir E) TempDir (Inr dir) (trace w) (trace w') \<and>
    job_network E config spec (trace w) (trace w') network \<and>
    (\<forall>c'. CreateContainer c' \<in> set (new_calls w w') \<longrightarrow> confined config spec dir network c')"
proof -
  have before: "prefix (trace w) (trace v)" by (simp add: v)
  from run_created [OF token run completed] obtain c where c: "cc_binds c \<noteq> []"
    "responded (o_id E) (CreateContainer c) (Inr (sb_container_id (jr_sandbox result))) (trace v) (trace w')"
    unfolding job_container_created_def by blast
  from responded_new [OF c(2)] run_confined [OF run memory] obtain dir network where
    "responded (o_temp_dir E) TempDir (Inr dir) (trace v) (trace w')"
    "job_network E config spec (trace v) (trace w') network"
    "\<forall>c'. CreateContainer c' \<in> set (new_calls v w') \<longrightarrow> confined config spec dir network c'"
    unfolding creates_confined_def by blast
  then have "responded (o_temp_dir E) TempDir (Inr dir) (trace w) (trace w')"
    "job_network E config spec (trace w) (trace w') network"
    "\<forall>c'. CreateContainer c' \<in> set (new_calls w w') \<longrightarrow> confined config spec dir network c'"
    using responded_mono [OF _ before prefix_order.refl] job_network_mono [OF _ before prefix_order.refl]
    unfolding new by auto
  with c(1) responded_mono [OF c(2) before prefix_order.refl] show ?thesis by blast
qed

text \<open>
  C3: A leased job that the daemon reports as completed has earned it. The policy admitted it in
  the daemon's context, with its image pinned by a digest. Its result names a container that
  Docker created for it with the workspace mounted, and all containers made for it are confined
  (C5). The journal got exactly the states of a completed attempt. For a command job Docker
  reported the exit code zero for that container; for a workflow, each decisive command exited
  with zero in that container, in order. And of all the containers and networks made for the job
  there is none that Docker has not been asked to remove.
\<close>

theorem completed_leases_are_genuine:
  assumes exec: "execute_leased E config spec w = (Inr result, w')" and completed: "jr_status result = ''completed''"
    and memory: "max_memory_mb (rc_limits config) < 2 ^ 43" and token: "lasting_cancellation E"
  shows "admitted (o_realpath E) config DaemonContext spec \<and> contains_str (js_image spec) ''@sha256:'' \<and>
    jr_exit_code result = Some 0 \<and>
    (\<exists>c dir network.
       cc_binds c \<noteq> [] \<and>
       responded (o_id E) (CreateContainer c) (Inr (sb_container_id (jr_sandbox result))) (trace w) (trace w') \<and>
       responded (o_temp_dir E) TempDir (Inr dir) (trace w) (trace w') \<and>
       job_network E config spec (trace w) (trace w') network \<and>
       (\<forall>c'. CreateContainer c' \<in> set (new_calls w w') \<longrightarrow> confined config spec dir network c')) \<and>
    (\<exists>es. events (w_journal w') = events (w_journal w) @ es \<and>
       (\<forall>e \<in> set es. ev_job_id e = js_id spec \<and> ev_attempt e = js_attempt spec) \<and>
       map ev_state es = [''received'', ''preparing'', ''running'', ''collecting'', ''completed'', ''destroying'', ''destroyed'']) \<and>
    (case js_workflow spec of
       None \<Rightarrow> \<exists>info. responded (o_inspect E) (InspectContainer (sb_container_id (jr_sandbox result))) (Inr info)
           (trace w) (trace w') \<and> ci_exit_code info = Some 0
     | Some workflow \<Rightarrow> passed_in_order E (sb_container_id (jr_sandbox result))
         (wf_setup workflow @ option_list (wf_initialize workflow) @ [wf_agent workflow] @
          map verifier_command (filter vs_required (wf_verifiers workflow)) @
          mandatory_verifiers (rc_security config) @ option_list (wf_publish workflow)) (trace w) (trace w')) \<and>
    live E (trace w') \<subseteq> live E (trace w)"
proof -
  from execute_leased_completed [OF exec completed] obtain v where
    admitted: "admitted (o_realpath E) config DaemonContext spec"
    and v: "trace v = trace w @ [ConnectDocker]" "w_journal v = w_journal w" and run: "run E config spec v = (Inr result, w')" .
  let ?i = "sb_container_id (jr_sandbox result)"
  have new: "new_calls w w' = ConnectDocker # new_calls v w'"
    using run_keeps [OF run] v(1) by (auto simp: keeps_def prefix_def)
  have before: "prefix (trace w) (trace v)" by (simp add: v(1))
  have "contains_str (js_image spec) ''@sha256:''"
    using admitted by (simp add: admitted_def valid_job_def requires_digest_def)
  moreover have "jr_exit_code result = Some 0"
    using docker.consistent [OF run] completed by (simp add: consistent_result_def)
  moreover have "case js_workflow spec of
       None \<Rightarrow> \<exists>info. responded (o_inspect E) (InspectContainer ?i) (Inr info) (trace w) (trace w') \<and> ci_exit_code info = Some 0
     | Some workflow \<Rightarrow> passed_in_order E ?i
         (wf_setup workflow @ option_list (wf_initialize workflow) @ [wf_agent workflow] @
          map verifier_command (filter vs_required (wf_verifiers workflow)) @
          mandatory_verifiers (rc_security config) @ option_list (wf_publish workflow)) (trace w) (trace w')"
  proof (cases "js_workflow spec")
    case None
    with run_exited_zero [OF run None completed] show ?thesis by (auto intro: responded_mono [OF _ before])
  next
    case (Some workflow)
    with passed_earlier [OF run_verified [OF token run Some completed] before] show ?thesis by simp
  qed
  moreover have "live E (trace v) = live E (trace w)" by (simp add: v(1) live_snoc)
  ultimately show ?thesis
    using admitted run_lifecycle [OF run] run_leaves_nothing [OF run] completed v(2)
      completed_containers [OF run completed memory token v(1) new]
    by simp
qed

lemma sample_daemon_admitted:
  "validate_with_context sample_fs sample_command_job sample_config DaemonContext = Inr (clamp sample_resources sample_config)"
proof -
  have "valid_job True sample_job" using sample_job_valid by (simp add: validate_job_ok)
  then have valid: "valid_job True sample_command_job"
    by (simp add: sample_command_job_def valid_job_def sample_workflow_job_def sample_defs)
  have "prefix (components ''/srv/work'') (components ''/srv/work/repo'')"
    "path_join ''/srv/work'' ''/srv/work/repo'' = ''/srv/work/repo''" by code_simp+
  with valid show ?thesis
    unfolding validate_with_context_ok admitted_def
    by (simp add: requires_digest_def injected_names_def workspace_admitted_def sample_workflow_job_def
        sample_command_job_def sample_defs sample_config_def default_local_def sample_fs_def)
qed

lemma sample_executor_run: "xc_run (docker_executor E config) spec cancellable = run E config spec"
  by (simp add: docker_executor_def)

lemma sample_lease_run:
  "\<exists>w'. execute_leased sample_docker sample_config sample_command_job sample_world =
     (Inr (sample_result sample_command_job ''done''), w')"
proof -
  have "exit_status sample_docker ''c1'' None w = (Inr 0, with_calls w [InspectContainer ''c1''])" for w
    by (simp add: exit_status_def sample_ops)
  then have "\<exists>w'. run sample_docker sample_config sample_command_job w = (Inr (sample_result sample_command_job ''done''), w')"
    if "w_log w = fresh_log True" for w
    using that unfolding run_def run_command_def
    by (simp add: begin_log_stream_def set_log_phase_def fresh_log_def sample_ops sample_admitted
        sample_timeout sample_prepare_job sample_network sample_start sample_sending sample_finish_command
        del: follow_logs.simps)
  then obtain w' where "run sample_docker sample_config sample_command_job
      (sample_world\<lparr> trace := [ConnectDocker], w_log := fresh_log True \<rparr>) = (Inr (sample_result sample_command_job ''done''), w')"
    by force
  then show ?thesis
    by (simp add: execute_leased_def match_op_def lift_def sample_daemon_admitted sample_factory sample_selected
        sample_executor_run ret_def sample_world_def)
qed

theorem completed_leases_are_genuine_witness:
  "contains_str (js_image sample_command_job) ''@sha256:'' \<and>
   map ev_state (events (w_journal (snd (execute_leased sample_docker sample_config sample_command_job sample_world)))) =
     [''received'', ''preparing'', ''running'', ''collecting'', ''completed'', ''destroying'', ''destroyed'']"
proof -
  obtain w' where run: "execute_leased sample_docker sample_config sample_command_job sample_world =
      (Inr (sample_result sample_command_job ''done''), w')" using sample_lease_run by blast
  have "max_memory_mb (rc_limits sample_config) < 2 ^ 43" by (simp add: sample_config_def default_local_def)
  moreover have "lasting_cancellation sample_docker" by (simp add: lasting_cancellation_def)
  ultimately show ?thesis
    using completed_leases_are_genuine [OF run] run by (auto simp: sample_result_def sample_world_def empty_journal_def)
qed

end
