(* ===== verification/Daemon_Replay.thy ===== *)
theory Daemon_Replay
  imports Daemon_Completion
begin

text \<open>
  The replay of the completions that an earlier process left in the outbox, at the start of the
  daemon: what it may change, and that it sends every valid one.
\<close>

section \<open>One entry\<close>

definition pending_key :: "pending_completion \<Rightarrow> job_key" where
  "pending_key pc = (pc_job_id pc, pc_attempt pc)"

text \<open>The result of a payload that is replayed: it decodes, and its key is the stored one.\<close>

definition valid_payload :: "outside \<Rightarrow> string \<Rightarrow> string \<Rightarrow> job_result \<Rightarrow> bool" where
  "valid_payload E payload key result \<longleftrightarrow>
     o_result_of_text E payload = Inr result \<and> key = completion_idempotency_key (jr_job_id result) (jr_attempt result)"

text \<open>\<open>advances A w w'\<close>: as \<open>settles\<close>, for all entries at once.\<close>

definition advances :: "(job_key \<Rightarrow> history \<Rightarrow> bool) \<Rightarrow> world \<Rightarrow> world \<Rightarrow> bool" where
  "advances A w w' \<longleftrightarrow> prefix (trace w) (trace w') \<and>
     (\<forall>k. (entry w k = None \<longrightarrow> entry w' k = None) \<and> evolved (entry w k) (entry w' k) \<and>
       (is_delivered w' k \<and> \<not> is_delivered w k \<longrightarrow> (\<exists>h. prefix h (trace w') \<and> A k h)))"

lemma advancesD:
  assumes "advances A w w'"
  shows "prefix (trace w) (trace w')" and "entry w k = None \<Longrightarrow> entry w' k = None"
    and "evolved (entry w k) (entry w' k)"
    and "is_delivered w' k \<Longrightarrow> \<not> is_delivered w k \<Longrightarrow> \<exists>h. prefix h (trace w') \<and> A k h"
  using assms unfolding advances_def by blast+

lemma evolved_None: "evolved a None \<Longrightarrow> a = None"
  by (cases a) (simp_all add: evolved_def)

lemma advances_refl [simp]: "advances A w w"
  by (simp add: advances_def)

lemma advances_trans:
  assumes uv: "advances A u v" and vw: "advances A v w"
  shows "advances A u w"
  unfolding advances_def
proof (intro conjI allI impI; (elim conjE)?)
  show "prefix (trace u) (trace w)"
    using advancesD(1) [OF uv] advancesD(1) [OF vw] by (rule prefix_order.trans)
  fix k
  show "entry w k = None" if "entry u k = None"
    using advancesD(2) [OF vw advancesD(2) [OF uv that]] .
  show "evolved (entry u k) (entry w k)"
    using advancesD(3) [OF uv] advancesD(3) [OF vw] by (rule evolved_trans)
  assume new: "is_delivered w k" "\<not> is_delivered u k"
  show "\<exists>h. prefix h (trace w) \<and> A k h"
  proof (cases "is_delivered v k")
    case True
    from advancesD(4) [OF uv True new(2)] advancesD(1) [OF vw] show ?thesis by (blast intro: prefix_order.trans)
  qed (use advancesD(4) [OF vw new(1)] in blast)
qed

lemma settles_advances:
  assumes "settles (A k) k n w w'"
  shows "advances A w w'"
  unfolding advances_def
proof (intro conjI allI impI; (elim conjE)?)
  show "prefix (trace w) (trace w')" by (rule settlesD(1) [OF assms])
  fix q
  show "entry w' q = None" if "entry w q = None"
    using settlesD(2,3) [OF assms] that by (cases "q = k") auto
  show "evolved (entry w q) (entry w' q)"
    using settlesD(2,4) [OF assms] by (cases "q = k") auto
  assume new: "is_delivered w' q" "\<not> is_delivered w q"
  have "q = k"
  proof (rule ccontr)
    assume "q \<noteq> k"
    from settlesD(2) [OF assms this] new show False by (simp add: is_delivered_def)
  qed
  with new settlesD(6) [OF assms] show "\<exists>h. prefix h (trace w') \<and> A q h" by blast
qed

definition answered ::
  "outside \<Rightarrow> (history \<Rightarrow> string \<Rightarrow> job_result \<Rightarrow> bool) \<Rightarrow> pending_completion \<Rightarrow> history \<Rightarrow> bool" where
  "answered E acknowledged pc h \<longleftrightarrow> (\<exists>result. valid_payload E (pc_payload pc) (pc_idempotency_key pc) result \<and>
     acknowledged h (pc_lease_id pc) result)"

context delivery
begin

lemma replay_entry_settles:
  assumes "replay_entry E plane pc w = (r, w')"
  shows "r = Inr () \<and> settles (answered E acknowledged pc) (pending_key pc) 1 w w'"
proof (cases "\<exists>result. valid_payload E (pc_payload pc) (pc_idempotency_key pc) result")
  case False
  with assms show ?thesis
    by (auto simp: replay_entry_def valid_payload_def ret_def settles_same split: sum.splits if_splits)
next
  case True
  then obtain result where valid: "valid_payload E (pc_payload pc) (pc_idempotency_key pc) result" by blast
  obtain r1 u where u: "journal_record_attempt E (pc_job_id pc) (pc_attempt pc) w = (r1, u)"
    by (cases "journal_record_attempt E (pc_job_id pc) (pc_attempt pc) w")
  note first = record_settles [OF u, of "answered E acknowledged pc", folded pending_key_def]
  obtain r2 v where v: "cp_complete plane (pc_lease_id pc) result u = (r2, v)"
    by (cases "cp_complete plane (pc_lease_id pc) result u")
  have upto: "settles (answered E acknowledged pc) (pending_key pc) 1 w v"
    using settles_trans [OF first complete_settles [OF v]] by simp
  obtain r3 z where z: "journal_mark_delivered E (pc_job_id pc) (pc_attempt pc) v = (r3, z)"
    by (cases "journal_mark_delivered E (pc_job_id pc) (pc_attempt pc) v")
  have run: "(r, w') = (case r1 of Inl e \<Rightarrow> (Inr (), u) | Inr _ \<Rightarrow>
      (case r2 of Inl e \<Rightarrow> (Inr (), v) | Inr _ \<Rightarrow> (Inr (), z)))"
    using assms valid u v z
    by (cases r1; cases r2) (auto simp: replay_entry_def valid_payload_def match_op_def ignore_def ret_def)
  have "settles (answered E acknowledged pc) (pending_key pc) 1 w z" if "r2 = Inr ()"
  proof -
    have "answered E acknowledged pc (trace v)" using success v valid that unfolding answered_def by blast
    from mark_settles(1) [OF z, of "answered E acknowledged pc", OF this] settles_trans [OF upto, of 0 z]
    show ?thesis by (simp add: pending_key_def)
  qed
  with run first upto show ?thesis by (auto split: sum.splits)
qed

lemma replay_all_advance:
  assumes "for_each_op pcs (replay_entry E plane) w = (r, w')" and "set pcs \<subseteq> S"
  shows "r = Inr () \<and> advances (\<lambda>k h. \<exists>pc \<in> S. pending_key pc = k \<and> answered E acknowledged pc h) w w'"
  using assms
proof (induction pcs arbitrary: w)
  case Nil
  then show ?case by (simp add: ret_def)
next
  case (Cons pc pcs)
  let ?A = "\<lambda>k h. \<exists>pc \<in> S. pending_key pc = k \<and> answered E acknowledged pc h"
  obtain r1 u where u: "replay_entry E plane pc w = (r1, u)" by (cases "replay_entry E plane pc w")
  note one = replay_entry_settles [OF u]
  have "settles (?A (pending_key pc)) (pending_key pc) 1 w u"
    using one Cons.prems(2) unfolding settles_def by auto
  then have "advances ?A w u" by (rule settles_advances)
  moreover have rest: "for_each_op pcs (replay_entry E plane) u = (r, w')"
    using Cons.prems(1) u one by (simp add: and_then_def)
  moreover have "set pcs \<subseteq> S" using Cons.prems(2) by simp
  ultimately show ?case using Cons.IH [OF rest] by (blast intro: advances_trans)
qed

end

section \<open>All entries\<close>

lemma complete_sends: "complete_call p l r \<in> set (new_calls w (snd (cp_complete (http_plane E p) l r w)))"
  by (simp add: http_plane_def complete_calls)

lemma replay_entry_sends:
  assumes "replay_entry E (http_plane E p) pc w = (r, w')"
    and "valid_payload E (pc_payload pc) (pc_idempotency_key pc) result"
    and "\<And>h i a. o_faults E (h @ [RecordAttempt i a]) = no_faults"
  shows "complete_call p (pc_lease_id pc) result \<in> set (trace w')"
proof -
  obtain u where u: "journal_record_attempt E (pc_job_id pc) (pc_attempt pc) w = (Inr (), u)"
    using assms(3) by (auto simp: journal_record_attempt_def Let_def journal_op_defs)
  obtain r2 v where v: "cp_complete (http_plane E p) (pc_lease_id pc) result u = (r2, v)"
    by (cases "cp_complete (http_plane E p) (pc_lease_id pc) result u")
  then have "v = with_calls u [complete_call p (pc_lease_id pc) result]"
    using complete_calls [of E p "pc_lease_id pc" result u] by (simp add: http_plane_def)
  moreover have "prefix (trace v) (trace w')"
  proof -
    have "prefix (trace v) (trace (snd (journal_mark_delivered E (pc_job_id pc) (pc_attempt pc) v)))"
      by (simp add: journal_mark_delivered_def Let_def split: prod.split)
    then show ?thesis using assms(1,2) u v
      by (auto simp: replay_entry_def valid_payload_def match_op_def ignore_def ret_def split: sum.splits)
  qed
  ultimately show ?thesis by (auto dest: set_mono_prefix)
qed

lemma replay_all_send:
  assumes "for_each_op pcs (replay_entry E (http_plane E p)) w = (r, w')"
    and "pc \<in> set pcs" and "valid_payload E (pc_payload pc) (pc_idempotency_key pc) result"
    and "\<And>h i a. o_faults E (h @ [RecordAttempt i a]) = no_faults"
  shows "complete_call p (pc_lease_id pc) result \<in> set (trace w')"
  using assms(1,2)
proof (induction pcs arbitrary: w)
  case (Cons x pcs)
  obtain r1 u where step: "replay_entry E (http_plane E p) x w = (r1, u)"
    by (cases "replay_entry E (http_plane E p) x w")
  then have u: "replay_entry E (http_plane E p) x w = (Inr (), u)"
    using http.replay_entry_settles by blast
  then have rest: "for_each_op pcs (replay_entry E (http_plane E p)) u = (r, w')"
    using Cons.prems(1) by (simp add: and_then_def)
  have "prefix (trace u) (trace w')"
    using http.replay_all_advance [OF rest subset_refl] by (blast dest: advancesD(1))
  with replay_entry_sends [OF u _ assms(4)] assms(3) Cons.IH [OF rest] Cons.prems(2) show ?case
    by (auto dest: set_mono_prefix)
qed simp

text \<open>The outcomes of reading the outbox: an error ends the replay, otherwise the loop runs over the entries.\<close>

lemma replay_unread:
  assumes "replay_pending_completions E P w = (r, w')"
    and "pending_completions (o_faults E (trace w @ [ReadPending])) (w_journal w) = (Inl e, j)"
  shows "r = Inr ()" and "w' = with_calls w [ReadPending]" and "\<not> is_ok (fst (journal_pending E w))"
proof -
  have "j = w_journal w"
    using assms(2) by (auto simp: pending_completions_def locked_def split: option.splits if_splits)
  with assms(2) have "journal_pending E w = (Inl e, with_calls w [ReadPending])"
    by (simp add: journal_pending_def Let_def)
  with assms(1) show "r = Inr ()" "w' = with_calls w [ReadPending]" "\<not> is_ok (fst (journal_pending E w))"
    by (auto simp: replay_pending_completions_def match_op_def ret_def)
qed

lemma replay_loop:
  assumes "replay_pending_completions E P w = (r, w')"
    and "pending_completions (o_faults E (trace w @ [ReadPending])) (w_journal w) = (Inr pcs, j)"
  shows "for_each_op pcs (replay_entry E P) (with_calls w [ReadPending]) = (r, w')"
proof -
  have "j = w_journal w" using assms(2) by (simp add: pending_ok_iff)
  with assms show ?thesis
    by (simp add: replay_pending_completions_def journal_pending_def match_op_def Let_def)
qed

lemma entry_of_pending_parts:
  "entry_of_pending pc = (pending_key pc, snd (entry_of_pending pc))"
  "ce_lease_id (snd (entry_of_pending pc)) = pc_lease_id pc"
  "ce_payload (snd (entry_of_pending pc)) = pc_payload pc"
  "ce_idempotency_key (snd (entry_of_pending pc)) = pc_idempotency_key pc"
  by (simp_all add: entry_of_pending_def pending_key_def)

text \<open>What the replay guarantees for the entries that were read.\<close>

lemma replay_read:
  assumes loop: "for_each_op pcs (replay_entry E (http_plane E p)) u = (r, w')"
    and known: "\<And>k e. (k, e) \<in> set (map entry_of_pending pcs) \<longleftrightarrow> entry u k = Some e \<and> \<not> ce_delivered e"
  shows "r = Inr ()"
    and "entry w' k = None \<longleftrightarrow> entry u k = None" and "evolved (entry u k) (entry w' k)"
    and "is_delivered w' k \<Longrightarrow> \<not> is_delivered u k \<Longrightarrow>
      \<exists>e h result. entry u k = Some e \<and> valid_payload E (ce_payload e) (ce_idempotency_key e) result \<and>
        prefix h (trace w') \<and> http_acknowledged E p h (ce_lease_id e) result"
    and "(\<And>h i a. o_faults E (h @ [RecordAttempt i a]) = no_faults) \<Longrightarrow> entry u k = Some e \<Longrightarrow> \<not> ce_delivered e \<Longrightarrow>
      valid_payload E (ce_payload e) (ce_idempotency_key e) result \<Longrightarrow>
      complete_call p (ce_lease_id e) result \<in> set (trace w')"
proof -
  let ?A = "\<lambda>k h. \<exists>pc \<in> set pcs. pending_key pc = k \<and> answered E (http_acknowledged E p) pc h"
  have adv: "advances ?A u w'" and r: "r = Inr ()"
    using http.replay_all_advance [OF loop subset_refl] by simp_all
  show "r = Inr ()" by (rule r)
  show "entry w' k = None \<longleftrightarrow> entry u k = None" "evolved (entry u k) (entry w' k)"
    using advancesD(2,3) [OF adv, of k] by (auto dest: evolved_None)
  show "\<exists>e h result. entry u k = Some e \<and> valid_payload E (ce_payload e) (ce_idempotency_key e) result \<and>
        prefix h (trace w') \<and> http_acknowledged E p h (ce_lease_id e) result"
    if new: "is_delivered w' k" "\<not> is_delivered u k"
  proof -
    obtain h pc where pc: "pc \<in> set pcs" "pending_key pc = k" "answered E (http_acknowledged E p) pc h" "prefix h (trace w')"
      using advancesD(4) [OF adv new(1)] new(2) by (auto simp: is_delivered_def)
    then have "entry u k = Some (snd (entry_of_pending pc))"
      using known [of k "snd (entry_of_pending pc)"] entry_of_pending_parts(1) [of pc] by (auto simp: image_iff)
    with pc(3,4) entry_of_pending_parts show ?thesis unfolding answered_def by metis
  qed
  show "complete_call p (ce_lease_id e) result \<in> set (trace w')"
    if want: "\<And>h i a. o_faults E (h @ [RecordAttempt i a]) = no_faults" "entry u k = Some e" "\<not> ce_delivered e"
      "valid_payload E (ce_payload e) (ce_idempotency_key e) result"
  proof -
    obtain pc where "pc \<in> set pcs" "entry_of_pending pc = (k, e)"
      using known [of k e] want(2,3) by auto
    with entry_of_pending_parts [of pc] replay_all_send [OF loop, of pc result] want(1,4) show ?thesis by auto
  qed
qed

text \<open>
  C18: Replaying the completions left over by an earlier process never fails and never loses or
  changes one: no entry of the outbox appears or disappears, and leases, keys and payloads
  stay. An entry becomes delivered only after the control plane answered, without an error
  status, the request for the result in its own payload under its own lease, the payload's
  idempotency key being the stored one. And when the outbox can be read and attempts can be
  recorded, every undelivered entry with a valid payload is sent.
\<close>

theorem replay_settles_completions:
  assumes run: "replay_pending_completions E (http_plane E p) w = (r, w')"
    and ok: "journal_ok (w_journal w)"
  shows "r = Inr () \<and>
    (\<forall>k. (entry w' k = None \<longleftrightarrow> entry w k = None) \<and> evolved (entry w k) (entry w' k)) \<and>
    (\<forall>k. is_delivered w' k \<and> \<not> is_delivered w k \<longrightarrow> (\<exists>e h result. entry w k = Some e \<and>
       valid_payload E (ce_payload e) (ce_idempotency_key e) result \<and> prefix h (trace w') \<and>
       http_acknowledged E p h (ce_lease_id e) result)) \<and>
    (is_ok (fst (journal_pending E w)) \<and> (\<forall>h i a. o_faults E (h @ [RecordAttempt i a]) = no_faults) \<longrightarrow>
       (\<forall>k e result. entry w k = Some e \<and> \<not> ce_delivered e \<and> valid_payload E (ce_payload e) (ce_idempotency_key e) result
          \<longrightarrow> complete_call p (ce_lease_id e) result \<in> set (trace w')))"
proof (cases "fst (pending_completions (o_faults E (trace w @ [ReadPending])) (w_journal w))")
  case (Inl e)
  then obtain j where "pending_completions (o_faults E (trace w @ [ReadPending])) (w_journal w) = (Inl e, j)"
    by (metis prod.collapse)
  from replay_unread [OF run this] show ?thesis by (auto simp: is_delivered_def)
next
  case (Inr pcs)
  then obtain j where pending: "pending_completions (o_faults E (trace w @ [ReadPending])) (w_journal w) = (Inr pcs, j)"
    by (metis prod.collapse)
  have "(k, e) \<in> set (map entry_of_pending pcs) \<longleftrightarrow> entry (with_calls w [ReadPending]) k = Some e \<and> \<not> ce_delivered e" for k e
    using pending_entries [OF ok pending] by auto
  note read = replay_read [OF replay_loop [OF run pending] this]
  have "is_delivered (with_calls w [ReadPending]) k = is_delivered w k" for k by (simp add: is_delivered_def)
  then show ?thesis using read by (intro conjI allI impI) (simp, simp, simp, (elim conjE, simp)+)
qed

definition sample_replayed :: job_result where
  "sample_replayed = (sample_result sample_command_job [])\<lparr> jr_job_id := ''job-1'', jr_attempt := 2 \<rparr>"

theorem replay_settles_completions_witness:
  "complete_call sample_plane ''lease-1'' sample_replayed \<in> set (trace (snd
     (replay_pending_completions (sample_docker\<lparr> o_result_of_text := \<lambda>t. Inr sample_replayed \<rparr>)
        (http_plane (sample_docker\<lparr> o_result_of_text := \<lambda>t. Inr sample_replayed \<rparr>) sample_plane)
        (sample_world\<lparr> w_journal := sample_journal \<rparr>))))"
  (is "_ \<in> set (trace (snd (replay_pending_completions ?E _ ?w)))")
proof -
  let ?e = "\<lparr> ce_lease_id = ''lease-1'', ce_idempotency_key = ''job-1:2'', ce_payload = ''payload-1'',
              ce_attempts = 0, ce_delivered = False \<rparr>"
  have entry: "entry ?w (''job-1'', 2) = Some ?e"
    by (simp add: journal_entry_def outbox_map_def sample_journal_def ob_key_def ob_entry_def)
  have "show_nat 2 = ''2''" by code_simp
  then have valid: "valid_payload ?E (ce_payload ?e) (ce_idempotency_key ?e) sample_replayed"
    by (simp add: valid_payload_def sample_replayed_def completion_idempotency_key_def)
  have faults: "o_faults ?E h = no_faults" for h by simp
  have "is_ok (fst (journal_pending ?E ?w))"
    using faults by (simp add: journal_pending_def Let_def pending_completions_def locked_def pending_rows_def
        sample_journal_def)
  with replay_settles_completions [of ?E sample_plane ?w, OF surjective_pairing] entry valid faults sample_journal_ok
  show ?thesis by fastforce
qed

end
