(* ===== verification/Daemon_Restart.thy ===== *)
theory Daemon_Restart
  imports Daemon_Loop Daemon_Replay
begin

text \<open>
  Two daemon processes in a row on one database: the completion of a leased job that the first
  could not deliver is sent by the second when it starts.
\<close>

lemma open_daemonE:
  assumes "open_daemon E config w = (Inr plane, w')"
  obtains p v r where "plane = http_plane E p" and "w_journal v = w_journal w"
    and "replay_pending_completions E (http_plane E p) v = (r, w')"
proof -
  from assms obtain p u where p: "new_http_plane E config w = (Inr p, u)"
    and rest: "and_then (journal_open E (journal_path config)) (\<lambda>_.
       and_then (replay_pending_completions E (http_plane E p)) (\<lambda>_. ret (http_plane E p))) u = (Inr plane, w')"
    unfolding open_daemon_def by (rule and_then_okE)
  from rest obtain y v where v: "journal_open E (journal_path config) u = (Inr y, v)"
    and replay: "and_then (replay_pending_completions E (http_plane E p)) (\<lambda>_. ret (http_plane E p)) v = (Inr plane, w')"
    by (rule and_then_okE)
  from replay obtain z t where replayed: "replay_pending_completions E (http_plane E p) v = (Inr z, t)"
    and "ret (http_plane E p) t = (Inr plane, w')" by (rule and_then_okE)
  then have "replay_pending_completions E (http_plane E p) v = (Inr z, w')" "plane = http_plane E p"
    by (simp_all add: ret_def)
  moreover have "w_journal u = w_journal w"
    using p by (auto simp: new_http_plane_def and_then_ok invoke_def lift_def ret_def Let_def)
  with journal_open_same [OF v] have "w_journal v = w_journal w" by simp
  ultimately show ?thesis using that by blast
qed

text \<open>The outbox can be read while no attempt counter of it leaves the range of the protocol's integers.\<close>

definition counters_fit :: "world \<Rightarrow> bool" where
  "counters_fit w \<longleftrightarrow> (\<forall>k e. entry w k = Some e \<longrightarrow> ce_attempts e < 2 ^ 32)"

lemma readable_outbox:
  assumes ok: "journal_ok (w_journal w)" and fit: "counters_fit w"
  obtains pcs where "pending_completions no_faults (w_journal w) = (Inr pcs, w_journal w)"
proof -
  have "ob_attempts r < 2 ^ 32" if "r \<in> set (pending_rows (completion_outbox (w_journal w)))" for r
  proof -
    have "r \<in> set (completion_outbox (w_journal w))" using that by (simp add: pending_rows_def)
    then have "entry w (ob_key r) = Some (ob_entry r)"
      using ok unfolding journal_entry_def outbox_map_def
      by (intro map_of_is_SomeI) (auto simp: journal_ok_def comp_def)
    with fit have "ce_attempts (ob_entry r) < 2 ^ 32" unfolding counters_fit_def by blast
    then show ?thesis by (simp add: ob_entry_def)
  qed
  then have "pending_completions no_faults (w_journal w) =
      (Inr (map to_pending (pending_rows (completion_outbox (w_journal w)))), w_journal w)"
    unfolding pending_ok_iff list_all_iff by (meson linorder_not_less)
  then show ?thesis by (rule that)
qed

text \<open>What a start of the daemon does with an entry that is still to be delivered.\<close>

lemma restart_sends:
  assumes "open_daemon E config w = (Inr plane, w')" and ok: "journal_ok (w_journal w)"
    and e: "entry w k = Some e" "\<not> ce_delivered e" "valid_payload E (ce_payload e) (ce_idempotency_key e) result"
    and faults: "\<And>h. o_faults E h = no_faults" and fit: "counters_fit w"
  shows "\<exists>p. plane = http_plane E p \<and> complete_call p (ce_lease_id e) result \<in> set (trace w')"
proof -
  from assms(1) obtain p v r where v: "plane = http_plane E p" "w_journal v = w_journal w"
    and replay: "replay_pending_completions E (http_plane E p) v = (r, w')" by (rule open_daemonE)
  obtain pcs where pending: "pending_completions no_faults (w_journal w) = (Inr pcs, w_journal w)"
    using readable_outbox [OF ok fit] .
  have "for_each_op pcs (replay_entry E (http_plane E p)) (with_calls v [ReadPending]) = (r, w')"
    using pending by (intro replay_loop [OF replay]) (simp add: faults v(2))
  moreover have "(k, e) \<in> set (map entry_of_pending pcs) \<longleftrightarrow>
      entry (with_calls v [ReadPending]) k = Some e \<and> \<not> ce_delivered e" for k e
    using pending_entries [OF ok pending] v(2) by auto
  moreover have "entry (with_calls v [ReadPending]) k = Some e" using e(1) v(2) by simp
  ultimately show ?thesis using replay_read(5) [OF _ _ faults _ e(2,3)] v(1) by blast
qed


text \<open>
  A lease for another executor is rejected, the control plane refuses the completion five times,
  and the next process sends it.
\<close>

definition rejected_lease :: leased_job where
  "rejected_lease = \<lparr> lj_lease_id = ''lease-1'', lj_spec = sample_command_job\<lparr> js_executor := ''podman'' \<rparr> \<rparr>"

definition rejected_result :: job_result where
  "rejected_result = (failed_from_failure ''now'' (lj_spec rejected_lease)
     \<lparr> fi_kind = Policy, fi_code = ''job_admission_rejected'', fi_message = ''unsupported executor'' \<rparr>)
     \<lparr> jr_failed_phase := Some ''admission'' \<rparr>"

definition refusing :: outside where
  "refusing = sample_docker\<lparr> o_http := \<lambda>h. Inr \<lparr> hp_status = 503, hp_body = [] \<rparr>,
     o_result_text := \<lambda>x. if x = rejected_result then Inr ''payload'' else Inl (Bail ''other'') \<rparr>"

definition restarted :: outside where
  "restarted = sample_docker\<lparr> o_result_of_text := \<lambda>t. Inr rejected_result \<rparr>"

definition online_config :: runner_config where
  "online_config = sample_config\<lparr> rc_server_url := Some ''https://control'', rc_runner_token := Some ''hunter2'' \<rparr>"

abbreviation first_end :: world where
  "first_end \<equiv> snd (run_leased_job refusing sample_config (http_plane refusing sample_plane) rejected_lease sample_world)"

lemma rejected_execution:
  "execute_leased refusing sample_config (lj_spec rejected_lease) sample_world =
     (Inr rejected_result, with_calls sample_world [UtcNow])"
proof -
  have "js_api_version sample_command_job = ''ai-kodu-runner.dev/v1beta1''"
    by (simp add: sample_command_job_def sample_workflow_job_def sample_job_def job_spec_from_def sample_beta_def)
  then have "validate_with_context (o_realpath refusing) (lj_spec rejected_lease) sample_config DaemonContext =
      Inl (Bail ''unsupported executor'')"
    by (simp add: validate_with_context_def validate_job_def rejected_lease_def bail_if_def)
  then show ?thesis
    by (simp add: execute_leased_def match_op_def lift_def failed_result_eq rejected_result_def refusing_def)
qed

lemma deliver_present:
  "entry w (jr_job_id result, jr_attempt result) \<noteq> None \<Longrightarrow>
     entry (snd (deliver E (http_plane E p) l result n w)) (jr_job_id result, jr_attempt result) \<noteq> None"
  using settles_present http.deliver_settles [THEN conjunct1, OF surjective_pairing] by blast

lemma rejected_entry: "entry first_end (js_id sample_command_job, js_attempt sample_command_job) \<noteq> None"
proof -
  let ?k = "(js_id sample_command_job, js_attempt sample_command_job)"
  have ids: "jr_job_id rejected_result = fst ?k" "jr_attempt rejected_result = snd ?k"
    by (simp_all add: rejected_result_def failed_from_failure_def rejected_lease_def)
  obtain v where v: "journal_enqueue refusing (fst ?k) (snd ?k) ''lease-1''
      (completion_idempotency_key (fst ?k) (snd ?k)) ''payload''
      (with_calls sample_world [UtcNow, FlushLogs 15000, CancelJob, OpenJournal (journal_path sample_config)]) = (Inr (), v)"
    by (simp add: journal_enqueue_def journal_op_defs refusing_def Let_def)
  have "entry v ?k \<noteq> None" using journal_enqueue_entry(2) [OF v] by simp
  moreover have "first_end = snd (deliver refusing (http_plane refusing sample_plane) ''lease-1'' rejected_result
      completion_attempts v)"
    using v rejected_execution
    by (simp add: run_leased_job_def report_completion_def and_then_def ask_def lift_def Let_def ids log_lost_def
        rejected_lease_def journal_open_def open_journal_def refusing_def)
  ultimately show ?thesis
    using deliver_present [of v rejected_result] ids by simp
qed

lemma online_plane:
  "new_http_plane restarted online_config w =
     (Inr \<lparr> hx_base = ''https://control'', hx_token = ''hunter2'', hx_runner = ''runner-1'' \<rparr>, with_calls w [BuildClient])"
proof -
  have "strip_prefix ''hunter2'' ''env:'' = None" by code_simp
  then show ?thesis
    by (simp add: new_http_plane_def online_config_def resolve_token_def restarted_def and_then_def invoke_def
        lift_def ret_def ok_or_def Let_def sample_config_def default_local_def)
qed

lemma restarted_daemon:
  obtains plane w3 where "open_daemon restarted online_config w = (Inr plane, w3)"
proof -
  let ?p = "http_plane restarted sample_plane"
  let ?v = "with_calls w [BuildClient, OpenJournal (journal_path online_config)]"
  obtain r w3 where replay: "replay_pending_completions restarted ?p ?v = (r, w3)"
    by (cases "replay_pending_completions restarted ?p ?v")
  have "r = Inr ()"
  proof (cases "fst (pending_completions (o_faults restarted (trace ?v @ [ReadPending])) (w_journal ?v))")
    case (Inl e)
    then show ?thesis using replay_unread(1) [OF replay] by (metis prod.collapse)
  next
    case (Inr pcs)
    then have "for_each_op pcs (replay_entry restarted ?p) (with_calls ?v [ReadPending]) = (r, w3)"
      using replay_loop [OF replay] by (metis prod.collapse)
    from http.replay_all_advance [OF this subset_refl] show ?thesis by simp
  qed
  with replay have "open_daemon restarted online_config w = (Inr ?p, w3)"
    using online_plane [of w]
    by (simp add: open_daemon_def and_then_def journal_open_def open_journal_def restarted_def sample_plane_def Let_def ret_def)
  then show ?thesis by (rule that)
qed


end
