(* ===== verification/Journal_Isolation.thy ===== *)
theory Journal_Isolation
  imports Durable_Journal
begin

text \<open>
  Attempts that share a journal: the workers of the daemon call it in any order, one call at a
  time behind the mutex of \<^verbatim>\<open>crates/runner-core/src/journal.rs\<close>. What the journal holds of an
  attempt depends on the calls for that attempt alone.
\<close>

section \<open>Schedules of calls\<close>

text \<open>A call that changes the journal, with the errors and the time it meets.\<close>

datatype journal_action =
    SetState faults string job_key state
  | Enqueue faults string job_key string string string
  | CountAttempt faults string job_key
  | Acknowledge faults string job_key

fun key_of :: "journal_action \<Rightarrow> job_key" where
  "key_of (SetState f now k s) = k"
| "key_of (Enqueue f now k l i p) = k"
| "key_of (CountAttempt f now k) = k"
| "key_of (Acknowledge f now k) = k"

fun perform :: "journal_action \<Rightarrow> (journal, unit) op" where
  "perform (SetState f now k s) = transition f now (fst k) (snd k) s"
| "perform (Enqueue f now k l i p) = enqueue_completion f now (fst k) (snd k) l i p"
| "perform (CountAttempt f now k) = record_completion_attempt f now (fst k) (snd k)"
| "perform (Acknowledge f now k) = mark_completion_delivered f now (fst k) (snd k)"

definition perform_all :: "journal_action list \<Rightarrow> journal \<Rightarrow> journal" where
  "perform_all as j = foldl (\<lambda>j a. snd (perform a j)) j as"

lemma perform_all_simps [simp]:
  "perform_all [] j = j" "perform_all (a # as) j = perform_all as (snd (perform a j))"
  by (simp_all add: perform_all_def)

lemma perform_call: "journal_call j (snd (perform a j))"
proof (cases a)
  case (SetState f now k s)
  then show ?thesis by (auto intro: journal_call.transition [OF surjective_pairing])
next
  case (Enqueue f now k l i p)
  moreover have "enqueue_at (f, now) k l i p j = perform a j" using Enqueue by (simp add: enqueue_at_def)
  ultimately show ?thesis by (metis journal_call.enqueue prod.collapse)
next
  case (CountAttempt f now k)
  moreover have "record_at (f, now) k j = perform a j" using CountAttempt by (simp add: record_at_def)
  ultimately show ?thesis by (metis journal_call.record_attempt prod.collapse)
next
  case (Acknowledge f now k)
  moreover have "mark_at (f, now) k j = perform a j" using Acknowledge by (simp add: mark_at_def)
  ultimately show ?thesis by (metis journal_call.mark prod.collapse)
qed

lemma perform_all_ok: "journal_ok j \<Longrightarrow> journal_ok (perform_all as j)"
  by (induction "as" arbitrary: j) (auto intro: journal_call_ok [OF perform_call])

section \<open>What belongs to an attempt\<close>

definition events_of :: "job_key \<Rightarrow> journal \<Rightarrow> event_row list" where
  "events_of k j = filter (\<lambda>e. (ev_job_id e, ev_attempt e) = k) (events j)"

definition view :: "job_key \<Rightarrow> journal \<Rightarrow> string option \<times> event_row list \<times> completion_entry option" where
  "view k j = (job_state j k, events_of k j, journal_entry j k)"

lemma outbox_step:
  "journal_entry (snd (enqueue_completion f now i a l ik p j)) k =
     (if k = (i, a) \<and> f 0 = None \<and> f 1 = None \<and> journal_entry j k = None
      then Some \<lparr> ce_lease_id = l, ce_idempotency_key = ik, ce_payload = p, ce_attempts = 0, ce_delivered = False \<rparr>
      else journal_entry j k)"
  "journal_entry (snd (record_completion_attempt f now i a j)) k =
     (if k = (i, a) \<and> f 0 = None \<and> f 1 = None
      then map_option (\<lambda>e. e\<lparr> ce_attempts := ce_attempts e + 1 \<rparr>) (journal_entry j k) else journal_entry j k)"
  "journal_entry (snd (mark_completion_delivered f now i a j)) k =
     (if k = (i, a) \<and> f 0 = None \<and> f 1 = None
      then map_option (\<lambda>e. e\<lparr> ce_delivered := True \<rparr>) (journal_entry j k) else journal_entry j k)"
proof -
  have ok: "is_ok (fst (enqueue_completion f now i a l ik p j)) \<longleftrightarrow> f 0 = None \<and> f 1 = None"
    "is_ok (fst (record_completion_attempt f now i a j)) \<longleftrightarrow> f 0 = None \<and> f 1 = None"
    "is_ok (fst (mark_completion_delivered f now i a j)) \<longleftrightarrow> f 0 = None \<and> f 1 = None"
    by (auto simp: journal_op_defs split: option.splits)
  show "journal_entry (snd (enqueue_completion f now i a l ik p j)) k =
     (if k = (i, a) \<and> f 0 = None \<and> f 1 = None \<and> journal_entry j k = None
      then Some \<lparr> ce_lease_id = l, ce_idempotency_key = ik, ce_payload = p, ce_attempts = 0, ce_delivered = False \<rparr>
      else journal_entry j k)"
    using journal_outbox.enqueue_entry [of "(f, now)" "(i, a)" l ik p j, OF surjective_pairing] ok(1)
    by (auto simp: enqueue_at_def)
  show "journal_entry (snd (record_completion_attempt f now i a j)) k =
     (if k = (i, a) \<and> f 0 = None \<and> f 1 = None
      then map_option (\<lambda>e. e\<lparr> ce_attempts := ce_attempts e + 1 \<rparr>) (journal_entry j k) else journal_entry j k)"
    using journal_outbox.record_entry [of "(f, now)" "(i, a)" j, OF surjective_pairing] ok(2)
    by (auto simp: record_at_def)
  show "journal_entry (snd (mark_completion_delivered f now i a j)) k =
     (if k = (i, a) \<and> f 0 = None \<and> f 1 = None
      then map_option (\<lambda>e. e\<lparr> ce_delivered := True \<rparr>) (journal_entry j k) else journal_entry j k)"
    using journal_outbox.mark_entry [of "(f, now)" "(i, a)" j, OF surjective_pairing] ok(3)
    by (auto simp: mark_at_def)
qed

lemma outbox_step_rest:
  "job_state (snd (enqueue_completion f now i a l ik p j)) k = job_state j k"
  "events_of k (snd (enqueue_completion f now i a l ik p j)) = events_of k j"
  "job_state (snd (record_completion_attempt f now i a j)) k = job_state j k"
  "events_of k (snd (record_completion_attempt f now i a j)) = events_of k j"
  "job_state (snd (mark_completion_delivered f now i a j)) k = job_state j k"
  "events_of k (snd (mark_completion_delivered f now i a j)) = events_of k j"
  by (simp_all add: job_state_def events_of_def journal_op_defs split: option.splits)

lemma transition_step:
  "job_state (snd (transition f now i a s j)) k =
     (if k = (i, a) \<and> f 0 = None \<and> f 1 = None then Some (as_str s) else job_state j k)"
  "events_of k (snd (transition f now i a s j)) = events_of k j @
     (if k = (i, a) \<and> f 0 = None \<and> f 1 = None \<and> f 2 = None
      then [\<lparr> ev_job_id = i, ev_attempt = a, ev_state = as_str s, ev_at = now \<rparr>] else [])"
  "journal_entry (snd (transition f now i a s j)) = journal_entry j"
  by (auto simp: journal_op_defs job_state_def upsert_job_states events_of_def insert_event_def journal_entry_def
      split: option.splits)

lemmas step_simps = outbox_step outbox_step_rest transition_step

lemma view_of_others: "key_of a \<noteq> k \<Longrightarrow> view k (snd (perform a j)) = view k j"
  by (cases a) (auto simp: view_def step_simps)

lemma view_determined: "key_of a = k \<Longrightarrow> view k j = view k j' \<Longrightarrow> view k (snd (perform a j)) = view k (snd (perform a j'))"
  by (cases a) (auto simp: view_def step_simps)

lemma view_of_own_calls:
  "view k j = view k j' \<Longrightarrow> view k (perform_all as j) = view k (perform_all (filter (\<lambda>a. key_of a = k) as) j')"
proof (induction "as" arbitrary: j j')
  case (Cons a "as")
  then show ?case
    using view_of_others [of a k j] view_determined [of a k j j'] by (cases "key_of a = k") simp_all
qed simp

text \<open>Whether a call succeeds is up to SQLite and the mutex, not to the rows of other attempts.\<close>

lemma perform_outcome: "is_ok (fst (perform a j)) \<longleftrightarrow> is_ok (fst (perform a j'))"
  by (cases a) (auto simp: journal_op_defs split: option.splits)

text \<open>
  The number of a new attempt is computed from the rows of its job and reserves nothing: until
  the run that got it journals its first state, a second run of the same job gets the same
  number, whatever the attempts of other jobs do in between.
\<close>

lemma max_attempt_of_others: "fst (key_of a) \<noteq> i \<Longrightarrow> max_attempt i (jobs (snd (perform a j))) = max_attempt i (jobs j)"
  by (cases a) (auto simp: journal_op_defs max_attempt_upsert split: option.splits)

lemma unreserved_attempts_collide:
  assumes first: "next_attempt f i j = (Inr n, j1)" and others: "\<forall>a \<in> set as. fst (key_of a) \<noteq> i"
  shows "fst (next_attempt no_faults i (perform_all as j1)) = Inr n"
proof -
  have "max_attempt i (jobs (perform_all as j1)) = max_attempt i (jobs j1)"
    using others by (induction "as" arbitrary: j1) (simp_all add: max_attempt_of_others)
  with first have "next_attempt no_faults i (perform_all as j1) = (Inr n, perform_all as j1)"
    by (simp add: next_attempt_ok_iff)
  then show ?thesis by simp
qed

section \<open>Property\<close>

text \<open>
  C15: Attempts that share the journal do not interfere. After any interleaving of calls for any
  number of attempts, failing calls included, the state of an attempt, its events with their
  times and order, and its completion are what the calls for this attempt alone, in their
  order, make of them. So two schedules that agree on the calls of an attempt agree on all the
  journal holds of it, however the other calls fall between.
\<close>

theorem attempts_do_not_interfere:
  "view k (perform_all as j) = view k (perform_all (filter (\<lambda>a. key_of a = k) as) j) \<and>
   (filter (\<lambda>a. key_of a = k) as = filter (\<lambda>a. key_of a = k) bs \<longrightarrow>
      view k (perform_all as j) = view k (perform_all bs j))"
  using view_of_own_calls [OF refl, of k "as" j] view_of_own_calls [OF refl, of k bs j] by simp

theorem attempts_do_not_interfere_witness:
  "view (''job-1'', 2) (perform_all [SetState no_faults ''t1'' (''job-1'', 2) Destroying, CountAttempt no_faults ''t2'' (''job-1'', 3)] sample_journal)
     = view (''job-1'', 2) (perform_all [CountAttempt no_faults ''t2'' (''job-1'', 3), SetState no_faults ''t1'' (''job-1'', 2) Destroying] sample_journal)"
  by (rule attempts_do_not_interfere [THEN conjunct2, THEN mp]) simp

end
