(* ===== verification/Journal_Keeping.thy ===== *)
theory Journal_Keeping
  imports Leased_Jobs Daemon_Restart Journal_Isolation
begin

text \<open>
  The well-formedness of the journal as a type of its states: every command of the binary and
  every task of the daemon takes a well-formed journal to a well-formed one, errors included.
\<close>

named_theorems typed_intros \<open>rules for operations that keep the journal well-formed\<close>

definition typed :: "(world, 'a) op \<Rightarrow> bool" where
  "typed m \<longleftrightarrow> (\<forall>w. journal_ok (w_journal w) \<longrightarrow> journal_ok (w_journal (snd (m w))))"

lemma typedD: "typed m \<Longrightarrow> journal_ok (w_journal w) \<Longrightarrow> journal_ok (w_journal (snd (m w)))"
  by (simp add: typed_def)

lemma typedI: "(\<And>w r w'. m w = (r, w') \<Longrightarrow> journal_ok (w_journal w) \<Longrightarrow> journal_ok (w_journal w')) \<Longrightarrow> typed m"
  unfolding typed_def by (metis prod.collapse)

lemma typed_keeps: "(\<And>w r w'. m w = (r, w') \<Longrightarrow> keeps w w') \<Longrightarrow> typed m"
  by (rule typedI) (auto simp: keeps_def)

lemma typed_makes: "makes P m \<Longrightarrow> typed m"
  by (rule typed_keeps) (blast intro: stepped_keeps makesD)

text \<open>The continuation only has to be well-typed for the values the first operation can give.\<close>

lemma typed_bind:
  "typed m \<Longrightarrow> (\<And>w x w'. m w = (Inr x, w') \<Longrightarrow> typed (k x)) \<Longrightarrow> typed (and_then m k)"
  unfolding typed_def and_then_def by (auto split: prod.splits sum.splits; metis snd_conv)

lemma typed_match:
  "typed m \<Longrightarrow> (\<And>w x w'. m w = (Inr x, w') \<Longrightarrow> typed (k x)) \<Longrightarrow> (\<And>e. typed (h e)) \<Longrightarrow> typed (match_op m k h)"
  unfolding typed_def match_op_def by (auto split: prod.splits sum.splits; metis snd_conv)

lemma typed_basic [typed_intros]:
  "typed (ret x)" "typed (fail e)" "typed (lift r)" "typed (ask f c)" "typed (invoke g c)"
  by (simp_all add: typed_def op_defs ask_def invoke_def Let_def)

lemma typed_ignore [typed_intros]: "typed m \<Longrightarrow> typed (ignore m)"
  by (simp add: typed_def ignore_def)

lemma typed_context [typed_intros]: "typed m \<Longrightarrow> typed (op_context c m)"
  by (auto simp: typed_def op_context_def split: prod.splits; metis snd_conv)

lemma typed_if [typed_intros]: "(b \<Longrightarrow> typed m) \<Longrightarrow> (\<not> b \<Longrightarrow> typed n) \<Longrightarrow> typed (if b then m else n)"
  by simp

lemma typed_option [typed_intros]:
  "typed m \<Longrightarrow> (\<And>y. x = Some y \<Longrightarrow> typed (k y)) \<Longrightarrow> typed (case x of None \<Rightarrow> m | Some y \<Rightarrow> k y)"
  by (cases x) simp_all

lemma typed_prod [typed_intros]: "(\<And>a b. x = (a, b) \<Longrightarrow> typed (k a b)) \<Longrightarrow> typed (case x of (a, b) \<Rightarrow> k a b)"
  by (cases x) simp

declare typed_bind [typed_intros] typed_match [typed_intros]

lemma typed_for_each [typed_intros]: "(\<And>x. typed (f x)) \<Longrightarrow> typed (for_each_op xs f)"
  by (induction xs) (auto intro!: typed_intros)

section \<open>The calls of the journal\<close>

lemma typed_journal [typed_intros]:
  "typed (journal_open E path)" "typed (journal_transition E i a st)" "typed (journal_unfinished E)"
  "typed (journal_record_attempt E i a)" "typed (journal_mark_delivered E i a)" "typed (journal_pending E)"
  "typed (journal_next_attempt E i)"
proof -
  show "typed (journal_open E path)" by (rule typedI) (auto dest: journal_open_same)
  show "typed (journal_transition E i a st)"
    by (rule typedI) (auto simp: journal_transition_def Let_def dest: transition_keeps_ok split: prod.splits)
  show "typed (journal_unfinished E)"
    by (rule typedI) (auto simp: journal_unfinished_def Let_def dest: unfinished_same split: prod.splits)
  show "typed (journal_record_attempt E i a)"
    by (rule typedI) (blast intro: settlesD(7) record_settles)
  show "typed (journal_mark_delivered E i a)"
  proof (rule typedI)
    fix w r w'
    assume call: "journal_mark_delivered E i a w = (r, w')" and ok: "journal_ok (w_journal w)"
    from call obtain f now where "mark_at (f, now) (i, a) (w_journal w) = (r, w_journal w')"
      by (auto simp: journal_mark_delivered_def mark_at_def Let_def split: prod.splits)
    from journal_call_ok [OF journal_call.mark [OF this] ok] show "journal_ok (w_journal w')" .
  qed
  show "typed (journal_pending E)"
    by (rule typedI) (auto simp: journal_pending_def Let_def pending_completions_def locked_def split: option.splits if_splits)
  show "typed (journal_next_attempt E i)"
    by (rule typedI) (auto simp: journal_next_attempt_def Let_def next_attempt_def locked_def split: option.splits if_splits)
qed

section \<open>The executor\<close>

lemma typed_run [typed_intros]: "typed (run E config spec)"
  by (rule typed_keeps) (rule run_keeps)

lemma typed_remove_container [typed_intros]: "typed (remove_container E i)"
  unfolding remove_container_def by (intro typed_intros)

lemma typed_doctor [typed_intros]: "typed (docker_doctor E config)"
  unfolding docker_doctor_def probe_def by (intro typed_intros)

lemma typed_keep_error [typed_intros]: "typed m \<Longrightarrow> typed (keep_error m err)"
  unfolding keep_error_def by (intro typed_intros)

lemma typed_cleanup_loops [typed_intros]:
  "typed (cleanup_containers E found items)" "typed (cleanup_networks E found networks)"
proof -
  show "typed (cleanup_containers E found items)"
    by (induction E found items rule: cleanup_containers.induct) (auto intro!: typed_intros split: option.splits)
  show "typed (cleanup_networks E found networks)"
    by (induction E found networks rule: cleanup_networks.induct) (auto intro!: typed_intros split: option.splits)
qed

lemma typed_cleanup [typed_intros]: "typed (cleanup E config)"
  unfolding cleanup_def close_unfinished_def by (intro typed_intros)

lemma typed_factory [typed_intros]: "typed (factory E config sender)"
  by (rule typed_keeps) (rule factory_keeps)

lemma factory_executor:
  "factory E config sender w = (Inr executors, w') \<Longrightarrow> lift (get_executor executors name) u = (Inr x, u') \<Longrightarrow>
     x = docker_executor E config"
  "factory E config sender w = (Inr executors, w') \<Longrightarrow> lift (select_for executors spec) u = (Inr x, u') \<Longrightarrow>
     x = docker_executor E config"
  by (auto simp: lift_def get_executor_ok dest!: factory_docker selected_docker split: if_splits)

section \<open>The daemon and the commands\<close>

lemma typed_replay [typed_intros]: "typed (replay_pending_completions E (http_plane E p))"
proof -
  have "typed (cp_complete (http_plane E p) l r)" for l r
    unfolding typed_def by (simp add: http_plane_def complete_calls)
  then have "typed (replay_entry E (http_plane E p) entry)" for entry
    unfolding replay_entry_def by (auto intro!: typed_intros split: sum.splits)
  then show ?thesis unfolding replay_pending_completions_def by (intro typed_intros)
qed

lemma typed_open_daemon [typed_intros]: "typed (open_daemon E config)"
  unfolding open_daemon_def new_http_plane_def by (intro typed_intros)

lemma typed_run_leased [typed_intros]: "typed (run_leased_job E config (http_plane E p) job)"
  by (rule typedI) (use run_leased_entries [OF _ refl] in blast)

lemma typed_main [typed_intros]: "typed (run_main E command)"
proof (cases command)
  case Doctor
  have "typed (doctor E)"
    unfolding doctor_def
    by (intro typed_bind typed_factory typed_basic) (auto dest: factory_executor(1) simp: docker_executor_def typed_doctor)
  then show ?thesis using Doctor by (auto intro!: typed_intros)
next
  case (Run job config)
  have "typed (run_job_file E job config)"
    unfolding run_job_file_def assign_attempt_def load_config_def
    by (intro typed_bind typed_if typed_option typed_factory typed_basic typed_journal)
      (auto dest: factory_executor(2) simp: docker_executor_def typed_run)
  then show ?thesis using Run by (auto intro!: typed_intros)
next
  case (Cleanup config)
  have "typed (cleanup_command E config)"
    unfolding cleanup_command_def load_config_def janitor_cleanup_def
    by (intro typed_bind typed_factory typed_basic) (auto dest: factory_executor(1) simp: docker_executor_def typed_cleanup)
  then show ?thesis using Cleanup by (auto intro!: typed_intros)
qed (auto simp: load_config_def intro!: typed_intros)

text \<open>
  C14: The journal stays well-formed: its two keyed tables never hold two rows for an attempt,
  and every state in it is the name of a state of the lifecycle. Every command of the binary
  and every worker of the daemon preserves this, whatever fails in them, and so does every
  interleaving of calls of the journal by concurrent workers.
\<close>

theorem journal_stays_well_formed:
  assumes "journal_ok j"
  shows "journal_ok (w_journal (snd (run_main E command (w\<lparr> w_journal := j \<rparr>)))) \<and>
    journal_ok (w_journal (snd (run_leased_job E config (http_plane E p) job (w\<lparr> w_journal := j \<rparr>)))) \<and>
    journal_ok (perform_all as j)"
  using perform_all_ok [OF assms] assms by (auto intro!: typedD typed_intros)

theorem journal_stays_well_formed_witness:
  "journal_ok (w_journal (snd (run_main sample_docker (Cleanup ''runner.toml'') (sample_world\<lparr> w_journal := sample_journal \<rparr>))))"
  using journal_stays_well_formed [OF sample_journal_ok] by blast

end
