(* ===== verification/Daemon_Logs.thy ===== *)
theory Daemon_Logs
  imports Daemon_Completion
begin

text \<open>
  What the log task of a leased job sends: every chunk, in order, up to three times, and whether
  the loss it reports is one.
\<close>

definition log_call :: "http_control_plane \<Rightarrow> string \<Rightarrow> string \<Rightarrow> log_chunk \<Rightarrow> call" where
  "log_call plane lease_id job_id chunk = (let q = log_request plane lease_id job_id chunk in
     SendRequest (q\<lparr> hq_headers := hq_headers q @ [(''authorization'', ''Bearer '' @ hx_token plane)] \<rparr>))"

definition log_acknowledged :: "outside \<Rightarrow> http_control_plane \<Rightarrow> string \<Rightarrow> string \<Rightarrow> log_chunk \<Rightarrow> history \<Rightarrow> bool" where
  "log_acknowledged E plane lease_id job_id chunk h \<longleftrightarrow>
     (\<exists>h0 h1 r. h = h0 @ log_call plane lease_id job_id chunk # h1 \<and>
        o_http E (h0 @ [log_call plane lease_id job_id chunk]) = Inr r \<and> \<not> failing_status (hp_status r))"

lemma log_acknowledged_later:
  "log_acknowledged E plane l j c h \<Longrightarrow> prefix h h' \<Longrightarrow> log_acknowledged E plane l j c h'"
  unfolding log_acknowledged_def prefix_def by fastforce

fun is_request :: "call \<Rightarrow> bool" where
  "is_request (SendRequest q) = True"
| "is_request c = False"

lemma log_acknowledged_now:
  "o_http E (h @ [log_call plane l j c]) = Inr r \<Longrightarrow> \<not> failing_status (hp_status r) \<Longrightarrow>
     log_acknowledged E plane l j c (h @ [log_call plane l j c])"
  unfolding log_acknowledged_def by blast

lemma send_log_chunk_result:
  "send_log_chunk E plane l j c w = (r, w') \<Longrightarrow> w' = with_calls w [log_call plane l j c] \<and>
     (r = Inr () \<longrightarrow> log_acknowledged E plane l j c (trace w'))"
  using log_acknowledged_now [of E "trace w" plane l j c]
  by (auto simp: send_log_chunk_def request_defs and_then_def invoke_def lift_def ret_def log_call_def Let_def
      split: sum.splits if_splits)

text \<open>The calls of one chunk: \<open>k\<close> requests for it, all of the budget when none was acknowledged.\<close>

definition sends :: "outside \<Rightarrow> http_control_plane \<Rightarrow> string \<Rightarrow> string \<Rightarrow> log_chunk \<Rightarrow> nat \<Rightarrow> bool \<Rightarrow> world \<Rightarrow> world \<Rightarrow> bool" where
  "sends E plane l j c k delivered w w' \<longleftrightarrow> (\<exists>cs. trace w' = trace w @ cs \<and>
     filter is_request cs = replicate k (log_call plane l j c)) \<and>
     (delivered \<longrightarrow> log_acknowledged E plane l j c (trace w'))"

lemma upload_chunk_sends:
  assumes "upload_chunk E (http_plane E plane) l j c n w = (r, w')"
  shows "\<exists>delivered k. r = Inr delivered \<and> sends E plane l j c k delivered w w' \<and>
     k \<le> n \<and> (0 < n \<longrightarrow> 0 < k) \<and> (\<not> delivered \<longrightarrow> k = n)"
  using assms
proof (induction n arbitrary: w)
  case 0
  then show ?case by (auto simp: ret_def sends_def)
next
  case (Suc n)
  let ?c = "log_call plane l j c"
  obtain o1 v where v: "timed E 10000 (send_log_chunk E plane l j c) w = (o1, v)"
    by (cases "timed E 10000 (send_log_chunk E plane l j c) w")
  then obtain x t where t: "send_log_chunk E plane l j c w = (x, t)" "v = with_calls t [TimeoutElapsed 10000]"
      "o1 = Inr None \<or> o1 = Inr (Some x)" by (rule timedE)
  note sent = send_log_chunk_result [OF t(1)]
  have trace_v: "trace v = trace w @ [?c, TimeoutElapsed 10000]" using sent t(2) by simp
  have request: "is_request ?c" by (simp add: log_call_def Let_def)
  show ?case
  proof (cases "o1 = Inr (Some (Inr ()))")
    case True
    then have "log_acknowledged E plane l j c (trace v)"
      using sent t(2,3) by (auto intro: log_acknowledged_later)
    moreover have "r = Inr True" "w' = v"
      using Suc.prems v True by (auto simp: and_then_def ret_def http_plane_def)
    ultimately show ?thesis using trace_v request
      by (intro exI [of _ True] exI [of _ 1]) (auto simp: sends_def)
  next
    case False
    obtain r2 z where z: "pause_unless_last n 1000 v = (r2, z)" by (cases "pause_unless_last n 1000 v :: _ \<times> world")
    then have "r2 = Inr ()" and trace_z: "trace z = trace v \<or> trace z = trace v @ [Sleep 1000]"
      by (auto simp: pause_unless_last_def ask_def Let_def ret_def split: if_splits)
    with Suc.prems v t(3) False z have "upload_chunk E (http_plane E plane) l j c n z = (r, w')"
      by (auto simp: and_then_def http_plane_def split: if_splits)
    from Suc.IH [OF this] obtain delivered k cs where IH: "r = Inr delivered" "trace w' = trace z @ cs"
      "filter is_request cs = replicate k ?c" "delivered \<longrightarrow> log_acknowledged E plane l j c (trace w')"
      "k \<le> n" "\<not> delivered \<longrightarrow> k = n" unfolding sends_def by blast
    then have "sends E plane l j c (Suc k) delivered w w'"
      using trace_v trace_z request by (auto simp: sends_def)
    with IH show ?thesis by (intro exI [of _ delivered] exI [of _ "Suc k"]) simp
  qed
qed

lemma upload_logs_sends:
  fixes w w' :: world
  assumes "upload_logs E (http_plane E plane) l j loss batch w = (r, w')"
  shows "\<exists>ns cs loss'. r = Inr loss' \<and> trace w' = trace w @ cs \<and> length ns = length batch \<and>
     set ns \<subseteq> {1..3} \<and> filter is_request cs = concat (map2 (\<lambda>n c. replicate n (log_call plane l j c)) ns batch) \<and>
     (loss \<longrightarrow> loss') \<and> (\<not> loss' \<longrightarrow> (\<forall>c \<in> set batch. log_acknowledged E plane l j c (trace w'))) \<and>
     (loss' \<and> \<not> loss \<longrightarrow> 3 \<in> set ns)"
  using assms
proof (induction batch arbitrary: loss w)
  case Nil
  then show ?case by (auto simp: ret_def)
next
  case (Cons c batch)
  obtain r1 v where v: "upload_chunk E (http_plane E plane) l j c 3 w = (r1, v)"
    by (cases "upload_chunk E (http_plane E plane) l j c 3 w")
  from upload_chunk_sends [OF v] obtain delivered k where k: "r1 = Inr delivered" "sends E plane l j c k delivered w v"
    "k \<le> 3" "0 < (3::nat) \<longrightarrow> 0 < k" "\<not> delivered \<longrightarrow> k = 3"
    by (elim exE conjE) (rule that)
  obtain cs1 where d: "trace v = trace w @ cs1" "filter is_request cs1 = replicate k (log_call plane l j c)"
    "delivered \<longrightarrow> log_acknowledged E plane l j c (trace v)"
    using k(2) unfolding sends_def by blast
  from Cons.prems v k(1) have "upload_logs E (http_plane E plane) l j (loss \<or> \<not> delivered) batch v = (r, w')"
    by (simp add: and_then_def)
  from Cons.IH [OF this] obtain ns cs loss' where IH: "r = Inr loss'" "trace w' = trace v @ cs"
    "length ns = length batch" "set ns \<subseteq> {1..3}"
    "filter is_request cs = concat (map2 (\<lambda>n c. replicate n (log_call plane l j c)) ns batch)"
    "loss \<or> \<not> delivered \<longrightarrow> loss'" "\<not> loss' \<longrightarrow> (\<forall>c \<in> set batch. log_acknowledged E plane l j c (trace w'))"
    "loss' \<and> \<not> (loss \<or> \<not> delivered) \<longrightarrow> 3 \<in> set ns" by blast
  have now: "log_acknowledged E plane l j c (trace w')" if delivered
    using d(3) IH(2) that by (auto intro: log_acknowledged_later)
  show ?case
  proof (intro exI conjI)
    show "r = Inr loss'" by (rule IH(1))
    show "trace w' = trace w @ cs1 @ cs" using d(1) IH(2) by simp
    show "length (k # ns) = length (c # batch)" using IH(3) by simp
    show "set (k # ns) \<subseteq> {1..3}" using IH(4) k(3,4) by auto
    show "filter is_request (cs1 @ cs) =
        concat (map2 (\<lambda>n c. replicate n (log_call plane l j c)) (k # ns) (c # batch))"
      using d(2) IH(5) by simp
    show "loss \<longrightarrow> loss'" using IH(6) by blast
    show "\<not> loss' \<longrightarrow> (\<forall>c \<in> set (c # batch). log_acknowledged E plane l j c (trace w'))"
      using now IH(6,7) by auto
    show "loss' \<and> \<not> loss \<longrightarrow> 3 \<in> set (k # ns)" using IH(8) k(5) by auto
  qed
qed

text \<open>
  C21: The log task sends every chunk of the job, in the order of the channel: each one, to three
  times in a row, and the next one only after it was acknowledged or given up. When it reports no
  loss, the control plane has answered a request for every chunk without an error status; it
  reports a loss only when the attempts of some chunk were used up.
\<close>

theorem logs_are_uploaded_in_order:
  fixes w w' :: world
  assumes "upload_logs E (http_plane E plane) lease_id job_id False batch w = (r, w')"
  shows "\<exists>ns cs loss. r = Inr loss \<and> trace w' = trace w @ cs \<and>
    length ns = length batch \<and> set ns \<subseteq> {1..3} \<and>
    filter is_request cs = concat (map2 (\<lambda>n c. replicate n (log_call plane lease_id job_id c)) ns batch) \<and>
    (if loss then 3 \<in> set ns else \<forall>c \<in> set batch. log_acknowledged E plane lease_id job_id c (trace w'))"
  using upload_logs_sends [OF assms] by auto

definition sample_chunk :: log_chunk where
  "sample_chunk = \<lparr> lc_attempt = 2, lc_sequence = 1, lc_stream = ''stdout'', lc_phase = ''command'', lc_level = None, lc_message = ''done'' \<rparr>"

theorem logs_are_uploaded_in_order_witness:
  "filter is_request (trace (snd (upload_logs sample_docker (http_plane sample_docker sample_plane) ''lease-1'' ''job-1''
     False [sample_chunk] sample_world))) \<noteq> []"
  using logs_are_uploaded_in_order [OF surjective_pairing, of sample_docker sample_plane "''lease-1''" "''job-1''"
    "[sample_chunk]" sample_world]
  by (auto simp: sample_world_def length_Suc_conv)

end
