(* ===== verification/Secret_Debug.thy ===== *)
theory Secret_Debug
  imports Protocol
begin

text \<open>
  The \<^verbatim>\<open>Debug\<close> instance of \<^verbatim>\<open>SecretSpec\<close> (\<^verbatim>\<open>crates/runner-protocol/src/lib.rs\<close>) in its one-line
  form; \<open>quote\<close> is the \<^verbatim>\<open>Debug\<close> instance of strings.
\<close>

definition debug_option :: "(string \<Rightarrow> string) \<Rightarrow> string option \<Rightarrow> string" where
  "debug_option quote x = (case x of None \<Rightarrow> ''None'' | Some y \<Rightarrow> ''Some('' @ quote y @ '')'')"

definition debug_secret :: "(string \<Rightarrow> string) \<Rightarrow> secret_spec \<Rightarrow> string" where
  "debug_secret quote secret =
     ''SecretSpec { name: '' @ quote (ss_name secret) @ '', value: '' @ quote ''[REDACTED]'' @
     '', secret_ref: '' @ debug_option quote (map_option (\<lambda>_. ''[REDACTED]'') (ss_secret_ref secret)) @ '' }''"

text \<open>The text is a function of the name and of the presence of a reference.\<close>

lemma debug_secret_cong:
  "ss_name s = ss_name t \<Longrightarrow> ss_secret_ref s = None \<longleftrightarrow> ss_secret_ref t = None \<Longrightarrow>
     debug_secret quote s = debug_secret quote t"
  by (cases "ss_secret_ref s"; cases "ss_secret_ref t") (simp_all add: debug_secret_def debug_option_def)

end
