(* ===== verification/Spec2Isabelle.thy ===== *)
theory Spec2Isabelle
  imports Journal_Keeping Daemon_Logs Secret_Debug
begin

text \<open>
  A verification library for the job runner under \<^verbatim>\<open>src/\<close>: a program that takes job
  specifications from the command line or leases them from a control plane, admits them by a
  local policy, runs each in a Docker container of its own and reports the result.

  \<^bold>\<open>The program.\<close> A job enters as JSON (\<^verbatim>\<open>runner-protocol\<close>) and is validated; the policy
  (\<^verbatim>\<open>policy.rs\<close>) admits it and clamps its resources. The Docker executor
  (\<^verbatim>\<open>executor-docker\<close>) stages the workspace (\<^verbatim>\<open>workspace.rs\<close>), starts services and the job
  container, runs the command or the iterations of a workflow, publishes a git workspace,
  exports artifacts (\<^verbatim>\<open>artifacts.rs\<close>), writes every state to the SQLite journal
  (\<^verbatim>\<open>journal.rs\<close>, \<^verbatim>\<open>state.rs\<close>) and asks Docker to remove what it created. The daemon (\<^verbatim>\<open>control/mod.rs\<close>)
  leases jobs over HTTP (\<^verbatim>\<open>control/http.rs\<close>), keeps their leases alive, puts each result into
  the outbox of the journal and delivers it; what could not be delivered is replayed when the
  next process starts. The binary (\<^verbatim>\<open>main.rs\<close>, \<^verbatim>\<open>cli.rs\<close>) offers the daemon, single jobs, a
  doctor, a cleanup and its version.

  \<^bold>\<open>How it is modelled.\<close> Records are records, enums are datatypes, a Rust string is its list of
  UTF-8 bytes, a \<^verbatim>\<open>u32\<close> or \<^verbatim>\<open>u64\<close> is a word, an \<^verbatim>\<open>i64\<close> an integer whose casts are written
  out, an \<^verbatim>\<open>f64\<close> is \<open>f64\<close> of \<open>Rust_Float\<close>. A fallible function returns \<open>error + 'a\<close>; an
  operation is a function from a state to such a result and the state after it, so the state
  that an early return leaves behind is part of the model. The outside (Docker, git, the file
  system, HTTP, the clock, cancellation, SQLite's errors, third-party crates) is the record
  \<open>outside\<close> of \<open>Host\<close>: every call is appended to a history, and its answer is an arbitrary
  function of that history. A theorem for all \<open>outside\<close> covers every behaviour, every failure
  and every race that shows in an answer. Where the code relies on more than that (a directory
  walk stays below its root, a clock advances, a decoder inverts its encoder), the property
  names it as a hypothesis, and its witness gives an environment that satisfies it.

  \<^bold>\<open>The theories\<close>, in the order of their imports:
  \<^item> \<open>Runner_Prelude\<close>, \<open>Rust_String\<close>, \<open>Rust_Path\<close>, \<open>Rust_Float\<close>, \<open>Json\<close>: results and operations,
    and the parts of \<^verbatim>\<open>std\<close>, \<^verbatim>\<open>std::path\<close> and \<^verbatim>\<open>serde_json\<close> the code uses.
  \<^item> \<open>Protocol\<close>: \<^verbatim>\<open>runner-protocol/src/lib.rs\<close> (\<open>from_json\<close>, \<open>job_spec_from\<close>, \<open>validate_job\<close>,
    results and log chunks).
  \<^item> \<open>Lifecycle\<close>: \<^verbatim>\<open>runner-core/src/state.rs\<close>. \<open>Runner_Config\<close>: \<^verbatim>\<open>config.rs\<close>.
    \<open>Durable_Journal\<close>: \<^verbatim>\<open>journal.rs\<close>, tables as lists of rows and the outbox behind the locale
    \<open>outbox_store\<close>. \<open>Admission_Policy\<close>: \<^verbatim>\<open>policy.rs\<close>. \<open>Journal_Isolation\<close>: the calls of
    concurrent attempts on one journal as a list of actions in any order. \<open>Secret_Debug\<close>: the
    redacted \<^verbatim>\<open>Debug\<close> output of a job secret.
  \<^item> \<open>Host\<close>: the outside. \<open>Workspace_Staging\<close> and \<open>Workspace_Safety\<close>: \<^verbatim>\<open>workspace.rs\<close> and what
    it guarantees. \<open>Artifact_Export\<close>: \<^verbatim>\<open>artifacts.rs\<close>.
  \<^item> \<open>Diagnostics\<close>, \<open>Docker_Container\<close>, \<open>Docker_Job\<close>, \<open>Docker_Workflow\<close>, \<open>Docker_Run\<close>: the
    functions of \<^verbatim>\<open>executor-docker/src/lib.rs\<close>, from redaction and single containers to
    \<open>run_command\<close>, \<open>run_workflow\<close>, \<open>run\<close>, \<open>docker_doctor\<close> and \<open>cleanup\<close>.
  \<^item> \<open>Executor_Contract\<close>: the \<^verbatim>\<open>Executor\<close> trait, the registry and the mock executor
    (\<^verbatim>\<open>executor.rs\<close>, \<^verbatim>\<open>mock.rs\<close>); the locale \<open>executor_contract\<close> states what the daemon needs
    of an executor and is interpreted for the mock and, in \<open>Docker_Journal\<close>, for Docker.
  \<^item> \<open>Docker_Calls\<close> (which calls each operation makes), \<open>Docker_Sample\<close> (two evaluated runs for
    the witnesses), \<open>Docker_Safety\<close>, \<open>Docker_Journal\<close>, \<open>Docker_Resources\<close>, \<open>Docker_Verdict\<close>,
    \<open>Docker_Output\<close>, \<open>Docker_Cleanup\<close>: the properties of whole runs.
  \<^item> \<open>Control_Http\<close>: \<^verbatim>\<open>control/http.rs\<close> and the control plane trait as a record of operations.
  \<^item> \<open>Daemon\<close>: the tasks of \<^verbatim>\<open>control/mod.rs\<close> (\<open>heartbeat_task\<close>, \<open>upload_logs\<close>,
    \<open>execute_leased\<close>, \<open>deliver\<close>, \<open>run_leased_job\<close>, \<open>replay_pending_completions\<close>) and
    \<^verbatim>\<open>executor/mod.rs\<close>. \<open>Daemon_Loop\<close>: the loop of \<^verbatim>\<open>run_daemon\<close> as a labelled step relation.
    \<open>Daemon_Completion\<close>, \<open>Daemon_Replay\<close>, \<open>Daemon_Restart\<close>: leased jobs from lease to
    acknowledgement, in one process and over a restart; \<open>Daemon_Logs\<close>: the uploads of the log
    task; the locale \<open>delivery\<close> is what they need
    of a control plane, interpreted for the HTTP client.
  \<^item> \<open>Command_Line\<close>: the commands of \<^verbatim>\<open>main.rs\<close>, \<^verbatim>\<open>cli.rs\<close> and \<^verbatim>\<open>janitor.rs\<close>.
  \<^item> \<open>Leased_Jobs\<close>: what a completed result of the daemon implies, composed from the properties of
    policy, registry and Docker run. \<open>Journal_Keeping\<close>: a typing of operations by the
    invariant of the journal, with a rule for each combinator and operation, up to whole commands.

  \<^bold>\<open>What is shown.\<close>
  \<^item> Admission: validation and policy accept exactly the jobs of a declarative contract, daemon
    jobs are pinned to digests, and granted resources stay within floors and limits.
  \<^item> Confinement: every container carries labels, exactly the granted limits and no new
    privileges; job containers mount only the directory made for the run, drop all capabilities,
    are on the network made for the run or on none, and have one allowed environment entry per
    requested name.
  \<^item> Runs: the journal shows the whole lifecycle of exactly this attempt, the parts of a result
    agree, a completed workflow passed every required check, a run that returns a result has
    asked Docker to remove its containers and networks, log chunks are numbered without gaps,
    and the output in a result is the beginning of what the container wrote, within its limit.
  \<^item> The journal: every command, every worker and every interleaving of their calls keeps it
    well-formed, and attempts that share it do not interfere.
  \<^item> Workspaces and artifacts: copied and unpacked files stay inside their directory and the
    limits, pinned revisions are the ones checked out, tokens do not reach errors, a publication
    goes on only after exit code zero, exports copy only what the patterns select, and attempts
    share an artifact directory only if their sanitized ids and numbers agree.
  \<^item> Daemon: a bound on concurrent jobs, no lease run twice by the loop, shutdown is always
    possible and bounded once the loop is left, every leased job gets a result whose failure says
    what went wrong, this very result is what the outbox holds, it is acknowledged or sent again
    by the next process, and log chunks are uploaded in order with a loss reported when one may be
    missing. A leased job reported as completed was admitted and pinned, ran confined, exited
    with zero by Docker's account, and journalled the completed lifecycle.
  \<^item> Cleanup: removal is asked for exactly the inactive containers and unused networks.

  \<^bold>\<open>Bounds.\<close> The health check polls with fuel \<open>health_fuel\<close>, twice the timeout in seconds plus
  one, which is enough because it sleeps half a second between attempts
  (\<open>health_checks_end\<close>). Completions are sent at most five times and log chunks three times, as
  in the code; these recursions count down. The semaphore has at most
  \<^verbatim>\<open>usize::MAX >> 3\<close> permits; a larger configuration panics, which \<open>start_daemon\<close> returns as
  None. The heartbeat task is a function of the turns it has seen, None while it goes on; the
  leasing loop, which may run forever, is a relation. All other loops are structural or have a
  termination proof.

  \<^bold>\<open>Concurrency.\<close> The tasks of one leased job share a cancellation token and a channel. The
  token is a question to the outside whose answer may change between any two calls; the other
  tasks therefore enter a run through the answers, and the channel through what the log task
  reports when it is flushed. Workers of the daemon interleave in the step relation; the
  journal serializes their calls, and \<open>attempts_do_not_interfere\<close> covers every order of them.

  \<^bold>\<open>Not modelled.\<close> Log output and its set-up (\<^verbatim>\<open>telemetry.rs\<close>), facade modules that only
  re-export, command line parsing (derived by \<^verbatim>\<open>clap\<close>), the text that commands print, the
  derived \<^verbatim>\<open>Debug\<close> instances, the unused \<^verbatim>\<open>Event\<close> type and the iterator over executor
  names. Derived \<^verbatim>\<open>serde\<close> and TOML codecs, bollard, reqwest, the tar and directory-walking crates
  and git are not part of the sources: they are fields of \<open>outside\<close>. Timing is modelled only
  where the code reads a clock or waits for a deadline; memory exhaustion, and panics other than
  that of the semaphore and of the log task, are not.
\<close>

end
